(* ===== verification/Prelude.thy ===== *)
theory Prelude
  imports Main "HOL-Library.Word"
begin

unbundle bit_operations_syntax

text \<open>
  Shared ground of the development: the Go machine types the components use, the
  classification of errors that the standard library's readers return, the contracts
  (locales) that several components implement, and the word, list and option lemmas
  their proofs share.

  Go's \<^verbatim>\<open>byte\<close>, \<^verbatim>\<open>int32\<close>, \<^verbatim>\<open>uint16\<close>, \<^verbatim>\<open>uint32\<close> are words of that width; \<^verbatim>\<open>sint\<close> reads an
  \<^verbatim>\<open>int32\<close>. A Go string on the wire is its bytes; elsewhere it is a \<^verbatim>\<open>string\<close>, whose
  characters are the bytes.
\<close>

section \<open>Machine types\<close>

type_synonym byte = "8 word"
type_synonym bytes = "byte list"
type_synonym int32 = "32 word"
type_synonym uint16 = "16 word"
type_synonym int64 = "64 word"
type_synonym go_error = string
type_synonym uuid = string

definition str_bytes :: "string \<Rightarrow> bytes" where
  "str_bytes s = map of_char s"

lemma length_str_bytes [simp]: "length (str_bytes s) = length s"
  by (simp add: str_bytes_def)

section \<open>Outcomes of running a goroutine\<close>

text \<open>
  \<^verbatim>\<open>Done s\<close>: the code ran to its end and left state \<^verbatim>\<open>s\<close>. \<^verbatim>\<open>Hang s\<close>: the goroutine waits for ever,
  on a mutex it already holds or inside a \<^verbatim>\<open>sync.Once\<close> it is itself running; \<^verbatim>\<open>s\<close> is the state it
  leaves, with whatever it holds still held. \<^verbatim>\<open>Panic s\<close>: a run-time panic.
\<close>

datatype 's outcome = Done 's | Hang 's | Panic 's

primrec andThen :: "'s outcome \<Rightarrow> ('s \<Rightarrow> 's outcome) \<Rightarrow> 's outcome" where
  "andThen (Done s) f = f s"
| "andThen (Hang s) f = Hang s"
| "andThen (Panic s) f = Panic s"

primrec state_of :: "'s outcome \<Rightarrow> 's" where
  "state_of (Done s) = s"
| "state_of (Hang s) = s"
| "state_of (Panic s) = s"

lemma andThen_Done [simp]: "andThen x Done = x"
  by (cases x) simp_all

lemma andThen_eq_Done_iff: "andThen x f = Done t \<longleftrightarrow> (\<exists>s. x = Done s \<and> f s = Done t)"
  by (cases x) simp_all

section \<open>Collections of rewrite rules\<close>

named_theorems wire_simps \<open>length and decoding facts of the wire format\<close>
named_theorems frame_simps \<open>what an operation leaves unchanged\<close>

section \<open>Words\<close>

lemma word_7F_mask: "(0x7F :: 'a::len word) = mask 7"
  by (simp add: mask_eq_exp_minus_1)

lemma drop_bit7_decreases:
  fixes u :: "32 word"
  assumes "drop_bit 7 u \<noteq> 0"
  shows "unat (drop_bit 7 u) < unat u"
proof -
  from assms have "u \<noteq> 0" by auto
  then have "0 < unat u" by (simp add: unat_gt_0)
  moreover have "unat (drop_bit 7 u) = unat u div 128"
    by (simp add: unat_drop_bit_eq drop_bit_nat_def)
  ultimately show ?thesis by simp
qed

lemma take_bit_eq_self_if_drop_bit_0:
  fixes v :: "'a::len word"
  assumes "drop_bit n v = 0"
  shows "take_bit n v = v"
proof -
  have "push_bit n (drop_bit n v) + take_bit n v = v" by (rule bits_ident)
  with assms show ?thesis by simp
qed

lemma sint_of_nat32: "n < 2 ^ 31 \<Longrightarrow> sint (of_nat n :: int32) = int n"
  by (simp add: signed_of_nat signed_take_bit_int_eq_self)

lemma unat_of_nat32: "n < 2 ^ 32 \<Longrightarrow> unat (of_nat n :: int32) = n"
  by (simp add: unat_of_nat take_bit_nat_eq_self)

lemma nat_sint_of_nat32: "n < 2 ^ 31 \<Longrightarrow> nat (sint (of_nat n :: int32)) = n"
  by (simp add: sint_of_nat32)

section \<open>Contracts\<close>

text \<open>
  A self-delimiting byte encoding: decoding what was encoded gives the value back and
  leaves the bytes that follow it. It is implemented by the VarInt, the length-prefixed
  string and the big-endian port of the Minecraft handshake.
\<close>

locale byte_codec =
  fixes enc :: "'a \<Rightarrow> bytes"
    and dec :: "bytes \<Rightarrow> 'e + 'a \<times> bytes"
    and dom :: "'a \<Rightarrow> bool"
  assumes dec_enc: "dom x \<Longrightarrow> dec (enc x @ rest) = Inr (x, rest)"
begin

lemma enc_append_inj:
  assumes "dom x" and "dom y" and "enc x @ r = enc y @ s"
  shows "x = y \<and> r = s"
proof -
  have "(Inr (x, r) :: 'e + 'a \<times> bytes) = Inr (y, s)"
    using dec_enc[OF assms(1), of r] dec_enc[OF assms(2), of s] assms(3) by metis
  then show ?thesis by simp
qed

lemma enc_inj: "dom x \<Longrightarrow> dom y \<Longrightarrow> enc x = enc y \<Longrightarrow> x = y"
  using enc_append_inj[of x y "[]" "[]"] by simp

lemma dec_enc_exact: "dom x \<Longrightarrow> dec (enc x) = Inr (x, [])"
  using dec_enc[of x "[]"] by simp

end

text \<open>
  A transition system with an invariant: what holds initially and is kept by every step
  holds in every reachable state. The bridge managers and the signaling client are
  instances.
\<close>

locale invariant_system =
  fixes init :: "'s \<Rightarrow> bool"
    and step :: "'s \<Rightarrow> 's \<Rightarrow> bool"
    and inv :: "'s \<Rightarrow> bool"
  assumes inv_init: "init s \<Longrightarrow> inv s"
    and inv_step: "inv s \<Longrightarrow> step s t \<Longrightarrow> inv t"
begin

lemma inv_steps: "step\<^sup>*\<^sup>* s t \<Longrightarrow> inv s \<Longrightarrow> inv t"
  by (induction rule: rtranclp_induct) (auto intro: inv_step)

lemma inv_reachable: "init s \<Longrightarrow> step\<^sup>*\<^sup>* s t \<Longrightarrow> inv t"
  using inv_steps inv_init by blast

end

text \<open>
  An operation guarded by a one-shot flag (\<^verbatim>\<open>sync.Once\<close>, or a flag tested under a mutex): it sets
  the flag, and does nothing once the flag is set.
\<close>

locale once_guarded =
  fixes run :: "'s \<Rightarrow> 's"
    and finished :: "'s \<Rightarrow> bool"
  assumes finished_run: "finished (run s)"
    and run_finished: "finished s \<Longrightarrow> run s = s"
begin

lemma run_idem: "run (run s) = run s"
  by (simp add: finished_run run_finished)

lemma run_repeat: "(run ^^ Suc n) s = run s"
  by (induction n) (simp_all add: run_idem)

end

section \<open>Lists\<close>

lemma map_filter_append [simp]: "List.map_filter f (xs @ ys) = List.map_filter f xs @ List.map_filter f ys"
  by (induction xs) (auto split: option.splits)

end
