(* ===== verification/GoStrings.thy ===== *)
theory GoStrings
  imports Prelude "HOL-Library.Sublist"
begin

text \<open>
  What the program uses of Go's \<^verbatim>\<open>strings\<close>, \<^verbatim>\<open>strconv\<close> and \<^verbatim>\<open>net\<close> packages, on strings as byte lists:
  decimal numbers, splitting and trimming, prefixes, the multi-string replacer, and host:port pairs.
\<close>

section \<open>Decimal numbers\<close>

fun show_nat :: "nat \<Rightarrow> string" where
  "show_nat n = (if n < 10 then [char_of (48 + n)] else show_nat (n div 10) @ [char_of (48 + n mod 10)])"

declare show_nat.simps [simp del]

text \<open>\<^verbatim>\<open>strconv.Atoi\<close>: an optional sign and decimal digits, within 64 bits.\<close>

definition digit_val :: "char \<Rightarrow> int" where
  "digit_val ch = int (of_char ch) - 48"

definition is_digit :: "char \<Rightarrow> bool" where
  "is_digit ch \<longleftrightarrow> 0 \<le> digit_val ch \<and> digit_val ch \<le> 9"

definition digits_val :: "string \<Rightarrow> int" where
  "digits_val s = foldl (\<lambda>n ch. n * 10 + digit_val ch) 0 s"

definition Atoi :: "string \<Rightarrow> int option" where
  "Atoi s =
     (let (neg, ds) = (case s of
                         [] \<Rightarrow> (False, [])
                       | ch # t \<Rightarrow> if ch = CHR ''-'' then (True, t) else if ch = CHR ''+'' then (False, t) else (False, s));
          n = (if neg then - digits_val ds else digits_val ds)
      in if ds = [] \<or> \<not> list_all is_digit ds then None
         else if - (2 ^ 63) \<le> n \<and> n < 2 ^ 63 then Some n else None)"

section \<open>Splitting and trimming\<close>

fun Split :: "char \<Rightarrow> string \<Rightarrow> string list" where
  "Split sep [] = [[]]"
| "Split sep (ch # s) =
     (if ch = sep then [] # Split sep s
      else (case Split sep s of p # ps \<Rightarrow> (ch # p) # ps | [] \<Rightarrow> [[ch]]))"

definition TrimPrefix :: "string \<Rightarrow> string \<Rightarrow> string" where
  "TrimPrefix pre s = (if prefix pre s then drop (length pre) s else s)"

text \<open>\<^verbatim>\<open>TrimSpace\<close> on ASCII text.\<close>

definition is_space :: "char \<Rightarrow> bool" where
  "is_space ch \<longleftrightarrow> (of_char ch :: nat) \<in> {9, 10, 11, 12, 13, 32}"

definition TrimSpace :: "string \<Rightarrow> string" where
  "TrimSpace s = rev (dropWhile is_space (rev (dropWhile is_space s)))"

fun Join :: "char \<Rightarrow> string list \<Rightarrow> string" where
  "Join sep [] = []"
| "Join sep [p] = p"
| "Join sep (p # ps) = p @ [sep] @ Join sep ps"

text \<open>\<^verbatim>\<open>strings.NewReplacer(...).Replace\<close>: at each position the first pair whose old string starts there is
  replaced; the replacement is not looked at again.\<close>

fun replacer :: "(string \<times> string) list \<Rightarrow> nat \<Rightarrow> string \<Rightarrow> string" where
  "replacer ps skip [] = []"
| "replacer ps (Suc n) (ch # s) = replacer ps n s"
| "replacer ps 0 (ch # s) =
     (case find (\<lambda>(old, new). old \<noteq> [] \<and> prefix old (ch # s)) ps of
        Some (old, new) \<Rightarrow> new @ replacer ps (length old - 1) s
      | None \<Rightarrow> ch # replacer ps 0 s)"

section \<open>Host and port\<close>

definition lastIndex :: "char \<Rightarrow> string \<Rightarrow> nat option" where
  "lastIndex ch s = (if ch \<in> set s then Some (length s - 1 - length (takeWhile (\<lambda>x. x \<noteq> ch) (rev s))) else None)"

definition index :: "char \<Rightarrow> string \<Rightarrow> nat option" where
  "index ch s = (if ch \<in> set s then Some (length (takeWhile (\<lambda>x. x \<noteq> ch) s)) else None)"

datatype addr_error = MissingPort | MissingBracket | TooManyColons | UnexpectedOpen | UnexpectedClose

definition checkBrackets :: "nat \<Rightarrow> nat \<Rightarrow> string \<Rightarrow> string \<Rightarrow> string \<Rightarrow> addr_error + string \<times> string" where
  "checkBrackets j k hostport host port =
     (if CHR ''['' \<in> set (drop j hostport) then Inl UnexpectedOpen
      else if CHR '']'' \<in> set (drop k hostport) then Inl UnexpectedClose
      else Inr (host, port))"

definition SplitHostPort :: "string \<Rightarrow> addr_error + string \<times> string" where
  "SplitHostPort hostport =
     (case lastIndex (CHR '':'') hostport of
        None \<Rightarrow> Inl MissingPort
      | Some i \<Rightarrow>
          if hd hostport = CHR ''[''
          then (case index (CHR '']'') hostport of
                  None \<Rightarrow> Inl MissingBracket
                | Some e \<Rightarrow>
                    if e + 1 = length hostport then Inl MissingPort
                    else if e + 1 = i
                    then checkBrackets 1 (e + 1) hostport (take (e - 1) (drop 1 hostport)) (drop (i + 1) hostport)
                    else if hostport ! (e + 1) = CHR '':'' then Inl TooManyColons
                    else Inl MissingPort)
          else if CHR '':'' \<in> set (take i hostport) then Inl TooManyColons
          else checkBrackets 0 0 hostport (take i hostport) (drop (i + 1) hostport))"

definition JoinHostPort :: "string \<Rightarrow> string \<Rightarrow> string" where
  "JoinHostPort host port =
     (if CHR '':'' \<in> set host then ''['' @ host @ '']:'' @ port else host @ '':'' @ port)"

section \<open>Facts\<close>

lemma lastIndex_append:
  assumes "ch \<notin> set port"
  shows "lastIndex ch (host @ ch # port) = Some (length host)"
proof -
  have "takeWhile (\<lambda>x. x \<noteq> ch) (rev port @ ch # rev host) = rev port"
    using assms by (auto simp: takeWhile_append)
  then show ?thesis by (simp add: lastIndex_def)
qed

lemma index_append:
  assumes "ch \<notin> set pre"
  shows "index ch (pre @ ch # rest) = Some (length pre)"
proof -
  have "takeWhile (\<lambda>x. x \<noteq> ch) (pre @ ch # rest) = pre"
    using assms by (auto simp: takeWhile_append)
  then show ?thesis by (simp add: index_def)
qed

lemma lastIndex_SomeE:
  assumes "lastIndex ch s = Some i"
  obtains host port where "s = host @ ch # port" and "ch \<notin> set port" and "i = length host"
proof -
  have "ch \<in> set s" using assms by (auto simp: lastIndex_def split: if_splits)
  then obtain host port where s: "s = host @ ch # port" "ch \<notin> set port" by (meson split_list_last)
  moreover have "i = length host" using assms lastIndex_append[OF s(2), of host] s(1) by simp
  ultimately show ?thesis using that by blast
qed

lemma index_SomeE:
  assumes "index ch s = Some i"
  obtains pre rest where "s = pre @ ch # rest" and "ch \<notin> set pre" and "i = length pre"
proof -
  have "ch \<in> set s" using assms by (auto simp: index_def split: if_splits)
  then obtain pre rest where s: "s = pre @ ch # rest" "ch \<notin> set pre" by (meson split_list_first)
  moreover have "i = length pre" using assms index_append[OF s(2), of rest] s(1) by simp
  ultimately show ?thesis using that by blast
qed

text \<open>What a successful split says, and that joining what was split can be split again.\<close>

lemma SplitHostPort_result:
  assumes "SplitHostPort s = Inr (host, port)"
  shows "CHR '':'' \<notin> set port \<and> CHR ''['' \<notin> set host \<and> CHR '']'' \<notin> set host \<and>
     CHR ''['' \<notin> set port \<and> CHR '']'' \<notin> set port"
proof -
  obtain i where i: "lastIndex (CHR '':'') s = Some i"
    using assms by (auto simp: SplitHostPort_def split: option.splits)
  then obtain h p where s: "s = h @ CHR '':'' # p" "CHR '':'' \<notin> set p" "i = length h"
    by (rule lastIndex_SomeE)
  show ?thesis
  proof (cases "hd s = CHR ''[''")
    case False
    then have "checkBrackets 0 0 s h p = Inr (host, port)"
      using assms i s by (auto simp: SplitHostPort_def split: if_splits)
    then show ?thesis using s by (auto simp: checkBrackets_def split: if_splits)
  next
    case True
    then obtain e where e: "index (CHR '']'') s = Some e" "e + 1 = i"
      "checkBrackets 1 (e + 1) s (take (e - 1) (drop 1 s)) (drop (i + 1) s) = Inr (host, port)"
      using assms i by (auto simp: SplitHostPort_def split: option.splits if_splits)
    from e(1) obtain a b where ab: "s = a @ CHR '']'' # b" "CHR '']'' \<notin> set a" "e = length a" by (rule index_SomeE)
    have "a \<noteq> []" using True ab(1) by (cases a) auto
    have h: "h = a @ [CHR '']'']"
    proof -
      have "h = take (length a + 1) s" using s(1,3) ab(3) e(2) by simp
      also have "\<dots> = a @ [CHR '']'']" by (simp add: ab(1))
      finally show ?thesis .
    qed
    have "host = drop 1 a" "port = p" "CHR ''['' \<notin> set (drop 1 s)" "CHR '']'' \<notin> set (drop (e + 1) s)"
      using e(3) s h ab \<open>a \<noteq> []\<close> by (cases a; auto simp: checkBrackets_def split: if_splits)+
    then show ?thesis using s h ab e(2) \<open>a \<noteq> []\<close> by (cases a; auto dest: in_set_dropD)
  qed
qed

lemma SplitHostPort_JoinHostPort:
  assumes "CHR '':'' \<notin> set port" and "CHR ''['' \<notin> set host" and "CHR '']'' \<notin> set host"
    and "CHR ''['' \<notin> set port" and "CHR '']'' \<notin> set port"
  shows "SplitHostPort (JoinHostPort host port) = Inr (host, port)"
proof (cases "CHR '':'' \<in> set host")
  case True
  let ?s = "(CHR ''['' # host @ [CHR '']'']) @ CHR '':'' # port"
  have "lastIndex (CHR '':'') ?s = Some (length host + 2)"
    using lastIndex_append[OF assms(1), of "CHR ''['' # host @ [CHR '']'']"] by simp
  moreover have "index (CHR '']'') ?s = Some (length host + 1)"
    using index_append[of "CHR '']''" "CHR ''['' # host" "CHR '':'' # port"] assms(3) by simp
  moreover have "JoinHostPort host port = ?s" using True by (simp add: JoinHostPort_def)
  ultimately show ?thesis using assms by (auto simp: SplitHostPort_def checkBrackets_def)
next
  case False
  then have j: "JoinHostPort host port = host @ CHR '':'' # port" by (simp add: JoinHostPort_def)
  have "hd (host @ CHR '':'' # port) \<noteq> CHR ''[''" using assms(2) by (cases host) auto
  then show ?thesis using lastIndex_append[OF assms(1), of host] assms False
    by (auto simp: SplitHostPort_def j checkBrackets_def)
qed

section \<open>Decimal round trip\<close>

lemma digit_char:
  assumes "n < 10"
  shows "digit_val (char_of (48 + n)) = int n" and "is_digit (char_of (48 + n))"
proof -
  have "(of_char (char_of (48 + n) :: char) :: nat) = 48 + n"
    using assms by simp
  then show "digit_val (char_of (48 + n)) = int n" by (simp add: digit_val_def)
  then show "is_digit (char_of (48 + n))" using assms by (simp add: is_digit_def)
qed

lemma digits_val_snoc: "digits_val (s @ [ch]) = digits_val s * 10 + digit_val ch"
  by (simp add: digits_val_def)

lemma show_nat_digits: "list_all is_digit (show_nat n) \<and> show_nat n \<noteq> [] \<and> digits_val (show_nat n) = int n"
proof (induction n rule: show_nat.induct)
  case (1 n)
  show ?case
  proof (cases "n < 10")
    case True
    then show ?thesis
      using digit_char[OF True] by (subst (1 2 3) show_nat.simps) (simp add: digits_val_def)
  next
    case False
    have d: "n mod 10 < 10" by simp
    have eq: "show_nat n = show_nat (n div 10) @ [char_of (48 + n mod 10)]"
      using False by (subst show_nat.simps) simp
    have "digits_val (show_nat n) = int (n div 10) * 10 + int (n mod 10)"
      using 1[OF False] digit_char(1)[OF d] by (simp add: eq digits_val_snoc)
    also have "\<dots> = int n" by presburger
    finally show ?thesis using 1[OF False] digit_char(2)[OF d] by (simp add: eq)
  qed
qed

lemma TrimSpace_id:
  assumes "s \<noteq> []" and "\<not> is_space (hd s)" and "\<not> is_space (last s)"
  shows "TrimSpace s = s"
proof -
  have "dropWhile is_space s = s" using assms(1,2) by (cases s) auto
  moreover have "dropWhile is_space (rev s) = rev s" using assms(1,3) by (cases s rule: rev_cases) auto
  ultimately show ?thesis by (simp add: TrimSpace_def)
qed

lemma Split_no_sep: "sep \<notin> set s \<Longrightarrow> Split sep s = [s]"
  by (induction s) auto

lemma Split_append: "sep \<notin> set p \<Longrightarrow> Split sep (p @ sep # s) = p # Split sep s"
  by (induction p) (auto split: list.split)

lemma Split_Join:
  assumes "ps \<noteq> []" and "list_all (\<lambda>p. sep \<notin> set p) ps"
  shows "Split sep (Join sep ps) = ps"
  using assms by (induction sep ps rule: Join.induct) (auto simp: Split_no_sep Split_append)

end
