(* ===== verification/CmdFlags.thy ===== *)
theory CmdFlags
  imports GoStrings "HOL-Library.Sublist"
begin

text \<open>
  The command line of \<^verbatim>\<open>src/cmd/openfriend/main.go\<close>: its options, and what the packages \<^verbatim>\<open>flag\<close> and \<^verbatim>\<open>strconv\<close> make of the
  arguments.
\<close>

section \<open>Model\<close>

subsection \<open>Numbers and truth values\<close>

definition ParseBool :: "string \<Rightarrow> bool option" where
  "ParseBool s =
     (if s \<in> {''1'', ''t'', ''T'', ''true'', ''TRUE'', ''True''} then Some True
      else if s \<in> {''0'', ''f'', ''F'', ''false'', ''FALSE'', ''False''} then Some False
      else None)"

definition asciiLower :: "char \<Rightarrow> char" where
  "asciiLower ch = (let n = (of_char ch :: nat) in if 65 \<le> n \<and> n \<le> 90 then char_of (n + 32) else ch)"

definition digitOf :: "char \<Rightarrow> nat option" where
  "digitOf ch =
     (let n = (of_char (asciiLower ch) :: nat)
      in if 48 \<le> n \<and> n \<le> 57 then Some (n - 48)
         else if 97 \<le> n \<and> n \<le> 122 then Some (n - 87)
         else None)"

text \<open>The base that a prefix announces, and the text after it.\<close>

definition basePrefix :: "string \<Rightarrow> nat \<times> string" where
  "basePrefix s =
     (case s of
        CHR ''0'' # rest \<Rightarrow>
          (case rest of
             p # _ # _ \<Rightarrow>
               if asciiLower p = CHR ''b'' then (2, tl rest)
               else if asciiLower p = CHR ''o'' then (8, tl rest)
               else if asciiLower p = CHR ''x'' then (16, tl rest)
               else (8, rest)
           | _ \<Rightarrow> (8, rest))
      | _ \<Rightarrow> (10, s))"

fun uintDigits :: "nat \<Rightarrow> nat \<Rightarrow> string \<Rightarrow> nat option" where
  "uintDigits base n [] = Some n"
| "uintDigits base n (ch # s) =
     (if ch = CHR ''_'' then uintDigits base n s
      else (case digitOf ch of
              None \<Rightarrow> None
            | Some d \<Rightarrow> if d < base then uintDigits base (n * base + d) s else None))"

text \<open>\<^verbatim>\<open>underscoreOK\<close>: an underscore stands between digits, or between the prefix and a digit. The first argument is the
  class of the previous character.\<close>

datatype seen = SeenStart | SeenDigit | SeenUnderscore | SeenOther

fun underscores :: "bool \<Rightarrow> seen \<Rightarrow> string \<Rightarrow> bool" where
  "underscores hex i [] \<longleftrightarrow> i \<noteq> SeenUnderscore"
| "underscores hex i (ch # s) \<longleftrightarrow>
     (let lower = (of_char (asciiLower ch) :: nat)
      in if is_digit ch \<or> (hex \<and> 97 \<le> lower \<and> lower \<le> 102) then underscores hex SeenDigit s
         else if ch = CHR ''_'' then i = SeenDigit \<and> underscores hex SeenUnderscore s
         else i \<noteq> SeenUnderscore \<and> underscores hex SeenOther s)"

definition underscoreOK :: "string \<Rightarrow> bool" where
  "underscoreOK s =
     (case s of
        z # p # rest \<Rightarrow>
          if z = CHR ''0'' \<and> asciiLower p \<in> {CHR ''b'', CHR ''o'', CHR ''x''}
          then underscores (asciiLower p = CHR ''x'') SeenDigit rest
          else underscores False SeenStart s
      | _ \<Rightarrow> underscores False SeenStart s)"

text \<open>\<^verbatim>\<open>strconv.ParseInt(s, 0, 64)\<close>.\<close>

definition ParseInt0 :: "string \<Rightarrow> int option" where
  "ParseInt0 text =
     (let neg = (text \<noteq> [] \<and> hd text = CHR ''-'');
          s = (if text \<noteq> [] \<and> hd text \<in> {CHR ''-'', CHR ''+''} then tl text else text);
          (base, digits) = basePrefix s
      in if s = '''' then None
         else (case uintDigits base 0 digits of
                 None \<Rightarrow> None
               | Some n \<Rightarrow>
                   if CHR ''_'' \<in> set digits \<and> \<not> underscoreOK s then None
                   else if neg then (if n \<le> 2 ^ 63 then Some (- int n) else None)
                   else (if n < 2 ^ 63 then Some (int n) else None)))"

subsection \<open>The options\<close>

record Flags =
  dataDir :: string
  authFile :: string
  target :: string
  intervalSec :: int64
  noAutoAccept :: bool
  announceOffline :: bool
  verbose :: bool
  showVersion :: bool
  skinPath :: string
  skinVariant :: string
  noUpdate :: bool
  joinTarget :: string
  listenAddr :: string
  resetState :: bool
  watchParent :: bool
  bypassKeyPath :: string
  ipcStdio :: bool

definition defaultFlags :: Flags where
  "defaultFlags =
     \<lparr>dataDir = '''', authFile = '''', target = ''127.0.0.1:25565'', intervalSec = 30, noAutoAccept = False,
      announceOffline = False, verbose = False, showVersion = False, skinPath = '''', skinVariant = ''classic'',
      noUpdate = False, joinTarget = '''', listenAddr = ''127.0.0.1:25565'', resetState = False, watchParent = False,
      bypassKeyPath = '''', ipcStdio = False\<rparr>"

datatype flag_kind =
    BoolFlag "bool \<Rightarrow> Flags \<Rightarrow> Flags"
  | StrFlag "string \<Rightarrow> Flags \<Rightarrow> Flags"
  | IntFlag "int64 \<Rightarrow> Flags \<Rightarrow> Flags"

definition formal :: "(string \<times> flag_kind) list" where
  "formal =
     [(''bypass-key'', StrFlag (\<lambda>v f. f\<lparr>bypassKeyPath := v\<rparr>)),
      (''reset'', BoolFlag (\<lambda>v f. f\<lparr>resetState := v\<rparr>)),
      (''watch-parent'', BoolFlag (\<lambda>v f. f\<lparr>watchParent := v\<rparr>)),
      (''version'', BoolFlag (\<lambda>v f. f\<lparr>showVersion := v\<rparr>)),
      (''skin'', StrFlag (\<lambda>v f. f\<lparr>skinPath := v\<rparr>)),
      (''skin-variant'', StrFlag (\<lambda>v f. f\<lparr>skinVariant := v\<rparr>)),
      (''no-update'', BoolFlag (\<lambda>v f. f\<lparr>noUpdate := v\<rparr>)),
      (''data-dir'', StrFlag (\<lambda>v f. f\<lparr>dataDir := v\<rparr>)),
      (''auth-file'', StrFlag (\<lambda>v f. f\<lparr>authFile := v\<rparr>)),
      (''target'', StrFlag (\<lambda>v f. f\<lparr>target := v\<rparr>)),
      (''interval-s'', IntFlag (\<lambda>v f. f\<lparr>intervalSec := v\<rparr>)),
      (''no-auto-accept'', BoolFlag (\<lambda>v f. f\<lparr>noAutoAccept := v\<rparr>)),
      (''announce-offline'', BoolFlag (\<lambda>v f. f\<lparr>announceOffline := v\<rparr>)),
      (''verbose'', BoolFlag (\<lambda>v f. f\<lparr>verbose := v\<rparr>)),
      (''join'', StrFlag (\<lambda>v f. f\<lparr>joinTarget := v\<rparr>)),
      (''listen'', StrFlag (\<lambda>v f. f\<lparr>listenAddr := v\<rparr>)),
      (''ipc-stdio'', BoolFlag (\<lambda>v f. f\<lparr>ipcStdio := v\<rparr>))]"

subsection \<open>Parsing\<close>

datatype flag_error = HelpWanted | BadSyntax string | Undefined string | NeedsArgument string | BadValue string string

definition setFlag :: "string \<Rightarrow> flag_kind \<Rightarrow> string \<Rightarrow> Flags \<Rightarrow> flag_error + Flags" where
  "setFlag name kind v f =
     (case kind of
        BoolFlag put \<Rightarrow> (case ParseBool v of None \<Rightarrow> Inl (BadValue name v) | Some b \<Rightarrow> Inr (put b f))
      | StrFlag put \<Rightarrow> Inr (put v f)
      | IntFlag put \<Rightarrow> (case ParseInt0 v of None \<Rightarrow> Inl (BadValue name v) | Some n \<Rightarrow> Inr (put (of_int n) f)))"

text \<open>The name of an option and the value after the first \<^verbatim>\<open>=\<close> that is not the first character.\<close>

definition splitEq :: "string \<Rightarrow> string \<times> string option" where
  "splitEq name =
     (let key = hd name # takeWhile (\<lambda>ch. ch \<noteq> CHR ''='') (tl name)
      in (key, if length key < length name then Some (drop (length key + 1) name) else None))"

text \<open>The text of an option without its hyphens; \<^verbatim>\<open>None\<close> for an argument that ends the options.\<close>

definition optionName :: "string \<Rightarrow> string option" where
  "optionName s =
     (if length s < 2 \<or> hd s \<noteq> CHR ''-'' then None
      else if s ! 1 = CHR ''-'' then (if length s = 2 then None else Some (drop 2 s))
      else Some (drop 1 s))"

datatype flag_step = StopParsing | FailParsing flag_error | Continue nat Flags

text \<open>\<^verbatim>\<open>parseOne\<close> on an argument and those after it; \<^verbatim>\<open>Continue k\<close> also used up k of those.\<close>

definition parseOne :: "string \<Rightarrow> string list \<Rightarrow> Flags \<Rightarrow> flag_step" where
  "parseOne s rest f =
     (case optionName s of
        None \<Rightarrow> StopParsing
      | Some name \<Rightarrow>
          if name = '''' \<or> hd name \<in> {CHR ''-'', CHR ''=''} then FailParsing (BadSyntax s)
          else let (key, val) = splitEq name
               in (case map_of formal key of
                     None \<Rightarrow> FailParsing (if key = ''help'' \<or> key = ''h'' then HelpWanted else Undefined key)
                   | Some kind \<Rightarrow>
                       (case (val, kind, rest) of
                          (Some v, _, _) \<Rightarrow> (case setFlag key kind v f of Inl e \<Rightarrow> FailParsing e | Inr f' \<Rightarrow> Continue 0 f')
                        | (None, BoolFlag _, _) \<Rightarrow>
                            (case setFlag key kind ''true'' f of Inl e \<Rightarrow> FailParsing e | Inr f' \<Rightarrow> Continue 0 f')
                        | (None, _, []) \<Rightarrow> FailParsing (NeedsArgument key)
                        | (None, _, v # _) \<Rightarrow>
                            (case setFlag key kind v f of Inl e \<Rightarrow> FailParsing e | Inr f' \<Rightarrow> Continue 1 f'))))"

function parseFlags :: "string list \<Rightarrow> Flags \<Rightarrow> flag_error + Flags" where
  "parseFlags [] f = Inr f"
| "parseFlags (s # rest) f =
     (case parseOne s rest f of
        StopParsing \<Rightarrow> Inr f
      | FailParsing e \<Rightarrow> Inl e
      | Continue k f' \<Rightarrow> parseFlags (drop k rest) f')"
  by pat_completeness auto
termination
  by (relation "measure (\<lambda>(args, f). length args)") auto

text \<open>\<^verbatim>\<open>flag.ExitOnError\<close>: the exit code of a failed parse.\<close>

definition exitCode :: "flag_error \<Rightarrow> nat" where
  "exitCode e = (if e = HelpWanted then 0 else 2)"

section \<open>The option that stops updates\<close>

text \<open>Every other option is set in the same way whatever \<^verbatim>\<open>-no-update\<close> says.\<close>

definition framed :: "string \<times> flag_kind \<Rightarrow> bool" where
  "framed = (\<lambda>(key, kind). \<forall>v f b.
     \<exists>b'. setFlag key kind v (f\<lparr>noUpdate := b\<rparr>) = map_sum id (\<lambda>f. f\<lparr>noUpdate := b'\<rparr>) (setFlag key kind v f) \<and>
       (key \<noteq> ''no-update'' \<longrightarrow> b' = b))"

lemma framed_kinds:
  "(\<And>v f b. put v (f\<lparr>noUpdate := b\<rparr>) = (put v f)\<lparr>noUpdate := b\<rparr>) \<Longrightarrow> framed (key, BoolFlag put)"
  "(\<And>v f b. put' v (f\<lparr>noUpdate := b\<rparr>) = (put' v f)\<lparr>noUpdate := b\<rparr>) \<Longrightarrow> framed (key, StrFlag put')"
  "(\<And>v f b. put'' v (f\<lparr>noUpdate := b\<rparr>) = (put'' v f)\<lparr>noUpdate := b\<rparr>) \<Longrightarrow> framed (key, IntFlag put'')"
  by (auto simp: framed_def setFlag_def split: option.split)

lemma framed_no_update: "framed (''no-update'', BoolFlag (\<lambda>v f. f\<lparr>noUpdate := v\<rparr>))"
  by (auto simp: framed_def setFlag_def split: option.split)

lemma framed_formal: "list_all framed formal"
  unfolding formal_def list.pred_inject
  by (intro conjI TrueI framed_no_update)
     (rule framed_no_update | (rule framed_kinds, simp) | simp)+

lemma setFlag_noUpdate:
  assumes "map_of formal key = Some kind"
  shows "\<exists>b'. setFlag key kind v (f\<lparr>noUpdate := b\<rparr>) = map_sum id (\<lambda>f. f\<lparr>noUpdate := b'\<rparr>) (setFlag key kind v f) \<and>
     (key \<noteq> ''no-update'' \<longrightarrow> b' = b)"
proof -
  have "framed (key, kind)" using framed_formal map_of_SomeD[OF assms] by (auto simp: list_all_iff)
  then show ?thesis by (simp add: framed_def)
qed

text \<open>Whether an argument may name the option.\<close>

definition mentions :: "string list \<Rightarrow> bool" where
  "mentions args \<longleftrightarrow> (\<exists>a\<in>set args. sublist ''no-update'' a)"

lemma optionName_sublist: "optionName s = Some name \<Longrightarrow> sublist name s"
  unfolding optionName_def by (auto split: if_splits intro: suffix_imp_sublist suffix_drop)

lemma splitEq_sublist:
  assumes "name \<noteq> ''''" shows "sublist (fst (splitEq name)) name"
proof -
  have "prefix (takeWhile (\<lambda>ch. ch \<noteq> CHR ''='') (tl name)) (tl name)" by (rule takeWhile_is_prefix)
  then have "prefix (hd name # takeWhile (\<lambda>ch. ch \<noteq> CHR ''='') (tl name)) name" using assms by (cases name) auto
  then show ?thesis by (simp add: splitEq_def Let_def prefix_imp_sublist)
qed

text \<open>One argument read with another value of \<^verbatim>\<open>noUpdate\<close>: the same verdict, and the same options but for that one, which
  is kept unless the argument names it.\<close>

lemma parseOne_noUpdate:
  "case parseOne s rest f of
     StopParsing \<Rightarrow> parseOne s rest (f\<lparr>noUpdate := b\<rparr>) = StopParsing
   | FailParsing e \<Rightarrow> parseOne s rest (f\<lparr>noUpdate := b\<rparr>) = FailParsing e
   | Continue k f' \<Rightarrow> \<exists>b'. parseOne s rest (f\<lparr>noUpdate := b\<rparr>) = Continue k (f'\<lparr>noUpdate := b'\<rparr>) \<and>
       (\<not> sublist ''no-update'' s \<longrightarrow> b' = b)"
proof (cases "optionName s")
  case (Some name)
  show ?thesis
  proof (cases "name = '''' \<or> hd name \<in> {CHR ''-'', CHR ''=''}")
    case False
    obtain key val where kv: "splitEq name = (key, val)" by fastforce
    have sub: "sublist key s"
      using splitEq_sublist[of name] optionName_sublist[OF Some] False kv by (metis fst_conv sublist_order.order_trans)
    show ?thesis
    proof (cases "map_of formal key")
      case (Some kind)
      have setp: "\<exists>b'. setFlag key kind v (f\<lparr>noUpdate := b\<rparr>) = map_sum id (\<lambda>f. f\<lparr>noUpdate := b'\<rparr>) (setFlag key kind v f) \<and>
          (\<not> sublist ''no-update'' s \<longrightarrow> b' = b)" for v
        using setFlag_noUpdate[OF Some, where v = v and f = f and b = b] sub by blast
      obtain w k where one: "parseOne s rest g =
           (case w of None \<Rightarrow> FailParsing (NeedsArgument key)
            | Some v \<Rightarrow> (case setFlag key kind v g of Inl e \<Rightarrow> FailParsing e | Inr f' \<Rightarrow> Continue k f'))" for g
      proof -
        let ?w = "case (val, kind, rest) of (Some v, _, _) \<Rightarrow> Some v | (None, BoolFlag _, _) \<Rightarrow> Some ''true''
            | (None, _, []) \<Rightarrow> None | (None, _, v # _) \<Rightarrow> Some v"
        let ?k = "case (val, kind, rest) of (Some v, _, _) \<Rightarrow> 0 | (None, BoolFlag _, _) \<Rightarrow> 0 | _ \<Rightarrow> (1 :: nat)"
        have "parseOne s rest g =
           (case ?w of None \<Rightarrow> FailParsing (NeedsArgument key)
            | Some v \<Rightarrow> (case setFlag key kind v g of Inl e \<Rightarrow> FailParsing e | Inr f' \<Rightarrow> Continue ?k f'))" for g
          using \<open>optionName s = Some name\<close> False kv Some
          by (auto simp: parseOne_def split: option.splits flag_kind.splits list.splits)
        then show thesis by (rule that)
      qed
      show ?thesis
      proof (cases w)
        case (Some v)
        obtain b' where "setFlag key kind v (f\<lparr>noUpdate := b\<rparr>) = map_sum id (\<lambda>f. f\<lparr>noUpdate := b'\<rparr>) (setFlag key kind v f)"
            "\<not> sublist ''no-update'' s \<longrightarrow> b' = b" using setp[where v = v] by blast
        then show ?thesis using Some by (cases "setFlag key kind v f") (auto simp: one)
      qed (simp add: one)
    qed (use \<open>optionName s = Some name\<close> False kv in \<open>simp add: parseOne_def\<close>)
  qed (use Some in \<open>simp add: parseOne_def\<close>)
qed (simp add: parseOne_def)

lemma parseFlags_noUpdate:
  "\<exists>b'. parseFlags args (f\<lparr>noUpdate := b\<rparr>) = map_sum id (\<lambda>f. f\<lparr>noUpdate := b'\<rparr>) (parseFlags args f) \<and>
     (\<not> mentions args \<longrightarrow> b' = b)"
proof (induction args f arbitrary: b rule: parseFlags.induct)
  case (2 s rest f)
  note one = parseOne_noUpdate[where s = s and rest = rest and f = f and b = b]
  show ?case
  proof (cases "parseOne s rest f")
    case (Continue k f')
    then obtain b1 where b1: "parseOne s rest (f\<lparr>noUpdate := b\<rparr>) = Continue k (f'\<lparr>noUpdate := b1\<rparr>)"
        "\<not> sublist ''no-update'' s \<longrightarrow> b1 = b" using one by auto
    obtain b2 where b2: "parseFlags (drop k rest) (f'\<lparr>noUpdate := b1\<rparr>) =
          map_sum id (\<lambda>f. f\<lparr>noUpdate := b2\<rparr>) (parseFlags (drop k rest) f')"
        "\<not> mentions (drop k rest) \<longrightarrow> b2 = b1" using 2[OF Continue, of b1] by blast
    have "\<not> mentions (s # rest) \<longrightarrow> b2 = b"
      using b1(2) b2(2) by (auto simp: mentions_def dest: in_set_dropD)
    then show ?thesis using Continue b1(1) b2(1) by (intro exI[of _ b2]) (simp add: id_def)
  qed (use one in auto)
qed (auto intro: exI[of _ b])

lemma parseFlags_no_update: "parseFlags (''--no-update'' # args) f = parseFlags args (f\<lparr>noUpdate := True\<rparr>)"
proof -
  have "parseOne ''--no-update'' args f = Continue 0 (f\<lparr>noUpdate := True\<rparr>)"
    by (simp add: parseOne_def optionName_def splitEq_def formal_def setFlag_def ParseBool_def Let_def)
  then show ?thesis by simp
qed

text \<open>Numbers as the option \<^verbatim>\<open>-interval-s\<close> takes them.\<close>

lemma interval_samples:
  "ParseInt0 ''30'' = Some 30" "ParseInt0 ''-1'' = Some (-1)" "ParseInt0 ''0x1_0'' = Some 16" "ParseInt0 ''010'' = Some 8"
  "ParseInt0 ''1__0'' = None" "ParseInt0 '''' = None"
  by (simp_all add: ParseInt0_def basePrefix_def digitOf_def asciiLower_def underscoreOK_def is_digit_def digit_val_def Let_def)

end
