(* ===== verification/GoPaths.thy ===== *)
theory GoPaths
  imports GoStrings
begin

text \<open>
  The parts of \<^verbatim>\<open>path/filepath\<close> the command uses, for paths with the separator \<^verbatim>\<open>/\<close>: a path is cleaned component by
  component; \<^verbatim>\<open>Join\<close>, \<^verbatim>\<open>Dir\<close>, \<^verbatim>\<open>Base\<close> and \<^verbatim>\<open>Abs\<close> rest on that. The lemmas say where the files beside the credentials are.
\<close>

section \<open>Definitions\<close>

text \<open>The components of a cleaned path, in reverse order.\<close>

fun cleanParts :: "bool \<Rightarrow> string list \<Rightarrow> string list \<Rightarrow> string list" where
  "cleanParts rooted acc [] = acc"
| "cleanParts rooted acc (p # ps) =
     (if p = '''' \<or> p = ''.'' then cleanParts rooted acc ps
      else if p = ''..''
      then (case acc of
              [] \<Rightarrow> cleanParts rooted (if rooted then [] else [p]) ps
            | q # qs \<Rightarrow> cleanParts rooted (if q = ''..'' then p # acc else qs) ps)
      else cleanParts rooted (p # acc) ps)"

definition isRooted :: "string \<Rightarrow> bool" where
  "isRooted path \<longleftrightarrow> (case path of [] \<Rightarrow> False | ch # _ \<Rightarrow> ch = CHR ''/'')"

definition showPath :: "bool \<Rightarrow> string list \<Rightarrow> string" where
  "showPath rooted parts =
     (if rooted then CHR ''/'' # Join (CHR ''/'') parts
      else if parts = [] then ''.'' else Join (CHR ''/'') parts)"

definition path_Clean :: "string \<Rightarrow> string" where
  "path_Clean path = showPath (isRooted path) (rev (cleanParts (isRooted path) [] (Split (CHR ''/'') path)))"

definition path_Join :: "string \<Rightarrow> string \<Rightarrow> string" where
  "path_Join a b =
     (if a = '''' \<and> b = '''' then ''''
      else if a = '''' then path_Clean b
      else path_Clean (a @ ''/'' @ b))"

definition path_Dir :: "string \<Rightarrow> string" where
  "path_Dir path = path_Clean (rev (dropWhile (\<lambda>ch. ch \<noteq> CHR ''/'') (rev path)))"

definition path_Base :: "string \<Rightarrow> string" where
  "path_Base path =
     (if path = '''' then ''.''
      else let p = rev (dropWhile (\<lambda>ch. ch = CHR ''/'') (rev path))
           in if p = '''' then ''/'' else rev (takeWhile (\<lambda>ch. ch \<noteq> CHR ''/'') (rev p)))"

text \<open>\<^verbatim>\<open>wd\<close> is the working directory, \<^verbatim>\<open>None\<close> when the system cannot tell it.\<close>

definition path_Abs :: "string option \<Rightarrow> string \<Rightarrow> string option" where
  "path_Abs wd path =
     (if isRooted path then Some (path_Clean path) else map_option (\<lambda>d. path_Join d path) wd)"

section \<open>Cleaned paths\<close>

text \<open>The form of a cleaned list of components: proper names, after leading \<^verbatim>\<open>..\<close> if the path is relative.\<close>

definition plainName :: "string \<Rightarrow> bool" where
  "plainName p \<longleftrightarrow> p \<noteq> '''' \<and> p \<noteq> ''.'' \<and> p \<noteq> ''..'' \<and> CHR ''/'' \<notin> set p"

definition cleanForm :: "bool \<Rightarrow> string list \<Rightarrow> bool" where
  "cleanForm rooted parts \<longleftrightarrow>
     (\<exists>n names. parts = replicate n ''..'' @ names \<and> list_all plainName names \<and> (rooted \<longrightarrow> n = 0))"

lemma cleanForm_snoc: "cleanForm rooted parts \<Longrightarrow> plainName p \<Longrightarrow> cleanForm rooted (parts @ [p])"
proof -
  assume f: "cleanForm rooted parts" and p: "plainName p"
  from f obtain n names where "parts = replicate n ''..'' @ names" "list_all plainName names" "rooted \<longrightarrow> n = 0"
    unfolding cleanForm_def by blast
  with p have "parts @ [p] = replicate n ''..'' @ (names @ [p]) \<and> list_all plainName (names @ [p]) \<and> (rooted \<longrightarrow> n = 0)"
    by simp
  then show ?thesis unfolding cleanForm_def by blast
qed

lemma cleanForm_up:
  assumes "cleanForm rooted (rev (q # qs))"
  shows "cleanForm rooted (rev (if q = ''..'' then ''..'' # q # qs else qs))"
proof -
  obtain n names where f: "rev (q # qs) = replicate n ''..'' @ names" "list_all plainName names" "rooted \<longrightarrow> n = 0"
    using assms by (auto simp: cleanForm_def)
  show ?thesis
  proof (cases names rule: rev_cases)
    case Nil
    then have "n \<noteq> 0" using f(1) by (metis (full_types) append_Nil2 replicate_0 rev_is_Nil_conv list.distinct(1))
    then obtain m where n: "n = Suc m" by (cases n) auto
    have "rev (q # qs) = replicate m ''..'' @ [''..'']" using f(1) Nil n by (simp add: replicate_append_same)
    then have q: "q = ''..''" "rev qs = replicate m ''..''" by auto
    have "rev (''..'' # q # qs) = replicate (Suc (Suc m)) ''..'' @ []"
      using q by (simp add: replicate_append_same flip: replicate_append_same)
    then show ?thesis unfolding cleanForm_def using f(3) n q by (metis (full_types) list.pred_inject(1) nat.distinct(1))
  next
    case (snoc ys y)
    then have q: "q = y" "rev qs = replicate n ''..'' @ ys" using f(1) by auto
    then have "q \<noteq> ''..''" using f(2) snoc by (simp add: plainName_def)
    then show ?thesis unfolding cleanForm_def using q f snoc by auto
  qed
qed

lemma cleanForm_cleanParts:
  assumes "cleanForm rooted (rev acc)" and "list_all (\<lambda>p. CHR ''/'' \<notin> set p) ps"
  shows "cleanForm rooted (rev (cleanParts rooted acc ps))"
  using assms
proof (induction rooted acc ps rule: cleanParts.induct)
  case (2 rooted acc p ps)
  show ?case
  proof (cases "p = '''' \<or> p = ''.''")
    case True then show ?thesis using 2 by auto
  next
    case False
    show ?thesis
    proof (cases "p = ''..''")
      case True
      show ?thesis
      proof (cases acc)
        case Nil
        have "cleanForm rooted (rev (if rooted then [] else [p]))"
          using True by (auto simp: cleanForm_def intro: exI[of _ "1::nat"] exI[of _ "0::nat"])
        then show ?thesis using 2 True False Nil by (cases rooted) simp_all
      next
        case (Cons q qs)
        then show ?thesis using 2 True False cleanForm_up[of rooted q qs] by (simp split: if_splits)
      qed
    next
      case nd: False
      have "cleanForm rooted (rev (p # acc))"
        using "2.prems" False nd cleanForm_snoc[of rooted "rev acc" p] by (simp add: plainName_def)
      then show ?thesis using 2 False nd by simp
    qed
  qed
qed simp

lemma cleanParts_append: "cleanParts r acc (ps @ qs) = cleanParts r (cleanParts r acc ps) qs"
  by (induction r acc ps rule: cleanParts.induct) (auto split: list.split)

lemma cleanParts_names: "list_all plainName ps \<Longrightarrow> cleanParts r acc ps = rev ps @ acc"
  by (induction ps arbitrary: acc) (auto simp: plainName_def)

lemma cleanParts_ups: "cleanParts False (replicate m ''..'') (replicate n ''..'') = replicate (m + n) ''..''"
proof (induction n arbitrary: m)
  case (Suc n)
  have "cleanParts False (replicate m ''..'') (replicate (Suc n) ''..'') =
      cleanParts False (replicate (Suc m) ''..'') (replicate n ''..'')"
    by (cases m) auto
  then show ?case by (simp only: Suc.IH) simp
qed simp

lemma cleanParts_cleanForm:
  assumes "cleanForm r parts"
  shows "cleanParts r [] parts = rev parts"
proof -
  obtain n names where f: "parts = replicate n ''..'' @ names" "list_all plainName names" "r \<longrightarrow> n = 0"
    using assms by (auto simp: cleanForm_def)
  have "cleanParts r [] (replicate n ''..'') = replicate n ''..''"
    using f(3) cleanParts_ups[of 0 n] by (cases r) auto
  then show ?thesis using f by (simp add: cleanParts_append cleanParts_names)
qed

lemma Split_append_sep: "Split sep (p @ sep # s) = Split sep p @ Split sep s"
proof (induction p)
  case (Cons a p)
  have "Split sep p \<noteq> []" by (cases p) (auto split: list.split)
  with Cons show ?case by (cases "Split sep p") auto
qed simp

lemma Split_slash_free: "list_all (\<lambda>p. sep \<notin> set p) (Split sep s)"
  by (induction s) (auto split: list.split)

lemma cleanForm_all:
  assumes "cleanForm r parts" and "Q ''..''" and "\<And>p. plainName p \<Longrightarrow> Q p"
  shows "list_all Q parts"
proof -
  obtain n names where "parts = replicate n ''..'' @ names" "list_all plainName names"
    using assms(1) unfolding cleanForm_def by blast
  moreover have "list_all Q (replicate n ''..'')" using assms(2) by (induction n) simp_all
  ultimately show ?thesis using assms(3) by (simp add: list.pred_mono_strong)
qed

lemma cleanForm_slash_free: "cleanForm r parts \<Longrightarrow> list_all (\<lambda>p. CHR ''/'' \<notin> set p) parts"
  by (erule cleanForm_all) (simp_all add: plainName_def)

lemma cleanForm_nonempty: "cleanForm r parts \<Longrightarrow> list_all (\<lambda>p. p \<noteq> []) parts"
  by (erule cleanForm_all) (simp_all add: plainName_def)

lemma Join_snoc: "ps \<noteq> [] \<Longrightarrow> Join sep (ps @ [p]) = Join sep ps @ sep # p"
proof (induction ps)
  case (Cons q qs)
  then show ?case by (cases qs) auto
qed simp

lemma isRooted_showPath:
  assumes "cleanForm r parts"
  shows "isRooted (showPath r parts) = r"
proof (cases parts)
  case (Cons p ps)
  then have "p \<noteq> []" "CHR ''/'' \<notin> set p"
    using cleanForm_nonempty[OF assms] cleanForm_slash_free[OF assms] by auto
  then show ?thesis using Cons by (cases p; cases ps) (auto simp: isRooted_def showPath_def)
qed (simp add: isRooted_def showPath_def)

lemma cleanParts_showPath:
  assumes "cleanForm r parts"
  shows "cleanParts r [] (Split (CHR ''/'') (showPath r parts)) = rev parts"
proof (cases "parts = []")
  case False
  then have "Split (CHR ''/'') (Join (CHR ''/'') parts) = parts"
    by (intro Split_Join cleanForm_slash_free[OF assms])
  then show ?thesis using False cleanParts_cleanForm[OF assms] by (cases r) (simp_all add: showPath_def)
qed (simp add: showPath_def)

definition cleaned :: "string \<Rightarrow> string list" where
  "cleaned path = rev (cleanParts (isRooted path) [] (Split (CHR ''/'') path))"

lemma path_Clean_cleaned: "path_Clean path = showPath (isRooted path) (cleaned path)"
  by (simp add: path_Clean_def cleaned_def)

lemma cleanForm_cleaned: "cleanForm (isRooted path) (cleaned path)"
  unfolding cleaned_def by (intro cleanForm_cleanParts Split_slash_free) (simp add: cleanForm_def)

lemma path_Clean_idem: "path_Clean (path_Clean path) = path_Clean path"
  by (simp add: path_Clean_cleaned isRooted_showPath cleanForm_cleaned cleaned_def[of "showPath _ _"]
      cleanParts_showPath)

lemma path_Clean_slash:
  assumes "path \<noteq> []"
  shows "path_Clean (path @ ''/'') = path_Clean path"
proof -
  have r: "isRooted (path @ ''/'') = isRooted path" using assms by (cases path) (auto simp: isRooted_def)
  have "Split (CHR ''/'') (path @ ''/'') = Split (CHR ''/'') path @ [[]]"
    using Split_append_sep[of "CHR ''/''" path "[]"] by simp
  then show ?thesis by (simp add: path_Clean_def r cleanParts_append)
qed

lemma path_Join_name:
  assumes "dir \<noteq> []" and "plainName name"
  shows "path_Join dir name = showPath (isRooted dir) (cleaned dir @ [name])"
proof -
  have r: "isRooted (dir @ CHR ''/'' # name) = isRooted dir" using assms(1) by (cases dir) (auto simp: isRooted_def)
  have "cleanParts (isRooted dir) [] (Split (CHR ''/'') (dir @ CHR ''/'' # name)) = name # rev (cleaned dir)"
    using assms(2)
    by (simp add: Split_append_sep Split_no_sep cleanParts_append cleaned_def plainName_def)
  then show ?thesis using assms(1) by (simp add: path_Join_def path_Clean_def r)
qed

text \<open>A name joined to a directory is in that directory.\<close>

lemma path_Dir_Join:
  assumes "dir \<noteq> []" and "plainName name"
  shows "path_Dir (path_Join dir name) = path_Clean dir"
proof -
  let ?r = "isRooted dir" and ?P = "cleaned dir"
  have slash: "CHR ''/'' \<notin> set name" using assms(2) by (simp add: plainName_def)
  then have cut: "rev (dropWhile (\<lambda>ch. ch \<noteq> CHR ''/'') (rev name @ CHR ''/'' # p)) = rev p @ ''/''" for p
    by (subst dropWhile_append2) auto
  have none: "dropWhile (\<lambda>ch. ch \<noteq> CHR ''/'') (rev name) = []"
    using slash by auto
  show ?thesis
  proof (cases "?P = []")
    case True
    have "path_Dir (path_Join dir name) = path_Clean (if ?r then ''/'' else '''')"
      using cut[of "[]"] by (simp add: path_Dir_def path_Join_name[OF assms] True showPath_def none del: dropWhile_eq_Nil_conv)
    also have "\<dots> = path_Clean dir"
    proof -
      have "path_Clean ''/'' = ''/''" "path_Clean '''' = ''.''" by (simp_all add: path_Clean_def isRooted_def showPath_def)
      then show ?thesis by (simp add: path_Clean_cleaned[of dir] True showPath_def)
    qed
    finally show ?thesis .
  next
    case False
    then have j: "path_Join dir name = path_Clean dir @ CHR ''/'' # name"
      by (simp add: path_Join_name[OF assms] showPath_def Join_snoc path_Clean_cleaned)
    obtain p ps where "?P = p # ps" using False by (cases ?P) auto
    then have "path_Clean dir \<noteq> []" using cleanForm_nonempty[OF cleanForm_cleaned[of dir]]
      by (cases ps) (auto simp: path_Clean_cleaned showPath_def)
    then show ?thesis
      unfolding path_Dir_def j using cut[of "rev (path_Clean dir)"] by (simp add: path_Clean_slash path_Clean_idem)
  qed
qed

lemma path_Join_inj:
  assumes "dir \<noteq> []" "plainName a" "plainName b" "path_Join dir a = path_Join dir b"
  shows "a = b"
  using assms(4) unfolding path_Join_name[OF assms(1,2)] path_Join_name[OF assms(1,3)]
  by (cases "cleaned dir = []") (auto simp: showPath_def Join_snoc split: if_splits)

end
