(* ===== verification/Messages.thy ===== *)
theory Messages
  imports GoStrings Complex_Main
begin

text \<open>
  JSON values and the signaling messages of \<^verbatim>\<open>src/internal/signaling/messages.go\<close>.

  A JSON text that the program has built or parsed is represented by its tree. A number is
  its rational value. An object keeps its members in order; Go's \<^verbatim>\<open>map[string]any\<close> takes the
  last member of a name, and \<^verbatim>\<open>json.Marshal\<close> of a map writes its keys in sorted order, which is
  the order the trees below have.
\<close>

section \<open>JSON\<close>

datatype json =
    JNull
  | JBool bool
  | JNum rat
  | JStr string
  | JArr "json list"
  | JObj "(string \<times> json) list"

type_synonym payload = "(string \<times> json) list"

definition jget :: "string \<Rightarrow> payload \<Rightarrow> json option" where
  "jget k m = map_of (rev m) k"

text \<open>\<^verbatim>\<open>v, _ := m[k].(string)\<close> and \<^verbatim>\<open>.(float64)\<close>: the zero value when the member is missing or has
  another type.\<close>

definition jstr :: "string \<Rightarrow> payload \<Rightarrow> string" where
  "jstr k m = (case jget k m of Some (JStr s) \<Rightarrow> s | _ \<Rightarrow> '''')"

definition jnum :: "string \<Rightarrow> payload \<Rightarrow> rat" where
  "jnum k m = (case jget k m of Some (JNum r) \<Rightarrow> r | _ \<Rightarrow> 0)"

text \<open>Go's conversion of a float to an integer type drops the fraction.\<close>

definition trunc :: "rat \<Rightarrow> int" where
  "trunc r = (if r < 0 then - \<lfloor>- r\<rfloor> else \<lfloor>r\<rfloor>)"

text \<open>
  \<^verbatim>\<open>encoding/json\<close> into a struct matches member names case-insensitively, lets a later member
  override an earlier one, leaves a string field alone on null and reports an error on another
  type. A \<^verbatim>\<open>json.RawMessage\<close> keeps whatever is there, null included.
\<close>

definition lower_char :: "char \<Rightarrow> char" where
  "lower_char ch = (if 65 \<le> (of_char ch :: nat) \<and> (of_char ch :: nat) \<le> 90 then char_of ((of_char ch :: nat) + 32) else ch)"

definition jfields :: "string \<Rightarrow> payload \<Rightarrow> json list" where
  "jfields name m = map snd (filter (\<lambda>(k, v). map lower_char k = map lower_char name) m)"

definition strField :: "json list \<Rightarrow> string option" where
  "strField vs =
     fold (\<lambda>v acc. case (v, acc) of (JStr s, Some _) \<Rightarrow> Some s | (JNull, _) \<Rightarrow> acc | _ \<Rightarrow> None) vs (Some '''')"

definition rawField :: "json list \<Rightarrow> json option" where
  "rawField vs = (if vs = [] then None else Some (last vs))"

definition unmarshalPayload :: "json \<Rightarrow> payload option" where
  "unmarshalPayload v = (case v of JObj m \<Rightarrow> Some m | JNull \<Rightarrow> Some [] | _ \<Rightarrow> None)"

section \<open>Messages\<close>

definition JoinRequest :: "string \<Rightarrow> payload" where
  "JoinRequest sessionID = [(''sessionId'', JStr sessionID), (''type'', JStr ''JOIN_REQUEST'')]"

definition Offer :: "string \<Rightarrow> string \<Rightarrow> payload" where
  "Offer sessionID sdp =
     [(''sdp'', JStr sdp), (''sessionId'', JStr sessionID), (''type'', JStr ''OFFER'')]"

definition JoinAccepted :: "string \<Rightarrow> payload" where
  "JoinAccepted sessionID = [(''sessionId'', JStr sessionID), (''type'', JStr ''JOIN_ACCEPTED'')]"

definition JoinRejected :: "string \<Rightarrow> payload" where
  "JoinRejected sessionID = [(''sessionId'', JStr sessionID), (''type'', JStr ''JOIN_REJECTED'')]"

definition Answer :: "string \<Rightarrow> string \<Rightarrow> payload" where
  "Answer sessionID sdp =
     [(''sdp'', JStr sdp), (''sessionId'', JStr sessionID), (''type'', JStr ''ANSWER'')]"

record IceCandidatePayload =
  ip_candidate :: string
  ip_sdpMid :: string
  ip_sdpMLineIndex :: int

definition iceObject :: "IceCandidatePayload \<Rightarrow> json" where
  "iceObject c = JObj [(''candidate'', JStr (ip_candidate c)), (''sdpMid'', JStr (ip_sdpMid c)),
                       (''sdpMLineIndex'', JNum (of_int (ip_sdpMLineIndex c)))]"

definition IceCandidate :: "string \<Rightarrow> string \<Rightarrow> string \<Rightarrow> int \<Rightarrow> payload" where
  "IceCandidate sessionID candidate sdpMid sdpMLineIndex =
     [(''iceCandidate'', iceObject \<lparr>ip_candidate = candidate, ip_sdpMid = sdpMid,
                                   ip_sdpMLineIndex = sdpMLineIndex\<rparr>),
      (''sessionId'', JStr sessionID), (''type'', JStr ''ICE_CANDIDATE'')]"

definition ParseIceCandidate :: "payload \<Rightarrow> IceCandidatePayload option" where
  "ParseIceCandidate payload =
     (case jget ''iceCandidate'' payload of
        Some (JObj m) \<Rightarrow>
          Some \<lparr>ip_candidate = jstr ''candidate'' m,
                ip_sdpMid = (case jget ''sdpMid'' m of Some (JStr v) \<Rightarrow> v | _ \<Rightarrow> ''0''),
                ip_sdpMLineIndex = trunc (jnum ''sdpMLineIndex'' m)\<rparr>
      | _ \<Rightarrow> None)"

definition GetSessionID :: "payload \<Rightarrow> string" where
  "GetSessionID payload = jstr ''sessionId'' payload"

definition GetSDP :: "payload \<Rightarrow> string" where
  "GetSDP payload = jstr ''sdp'' payload"

definition GetType :: "payload \<Rightarrow> string" where
  "GetType payload = jstr ''type'' payload"

section \<open>Messages read back\<close>

lemma trunc_of_int [simp]: "trunc (of_int i) = i"
  by (simp add: trunc_def)

lemmas payload_access = jget_def jstr_def jnum_def GetSessionID_def GetSDP_def GetType_def

lemma message_fields [simp]:
  "GetType (JoinRequest sid) = ''JOIN_REQUEST''" "GetSessionID (JoinRequest sid) = sid"
  "GetType (JoinAccepted sid) = ''JOIN_ACCEPTED''" "GetSessionID (JoinAccepted sid) = sid"
  "GetType (JoinRejected sid) = ''JOIN_REJECTED''" "GetSessionID (JoinRejected sid) = sid"
  "GetType (Offer sid sdp) = ''OFFER''" "GetSessionID (Offer sid sdp) = sid" "GetSDP (Offer sid sdp) = sdp"
  "GetType (Answer sid sdp) = ''ANSWER''" "GetSessionID (Answer sid sdp) = sid"
  "GetSDP (Answer sid sdp) = sdp"
  "GetType (IceCandidate sid c m i) = ''ICE_CANDIDATE''" "GetSessionID (IceCandidate sid c m i) = sid"
  by (simp_all add: payload_access JoinRequest_def JoinAccepted_def JoinRejected_def Offer_def Answer_def
      IceCandidate_def)

lemma ParseIceCandidate_IceCandidate [simp]:
  "ParseIceCandidate (IceCandidate sid c m i) =
     Some \<lparr>ip_candidate = c, ip_sdpMid = m, ip_sdpMLineIndex = i\<rparr>"
  by (simp add: ParseIceCandidate_def IceCandidate_def iceObject_def payload_access)

end
