(* ===== verification/ApiClient.thy ===== *)
theory ApiClient
  imports Messages
begin

text \<open>
  The client of the Minecraft services, \<^verbatim>\<open>src/internal/api\<close> and \<^verbatim>\<open>src/internal/util/uuid.go\<close>: requests
  with one retry after a token refresh, cooldown after rate limiting, ETags with the cached answers they
  stand for, the cache file, and the resolution of a friend's name to the id the signaling service uses.

  The services answer through the argument \<^verbatim>\<open>respond\<close>, which sees every request sent so far, the
  current one last; the JSON parser, google/uuid (\<^verbatim>\<open>uuid_parse\<close>, \<^verbatim>\<open>uuid_string\<close>), the RFC 3339 parser
  and \<^verbatim>\<open>strings.EqualFold\<close> are arguments too. Times are nanoseconds. The token of a request is
  represented by the number of refreshes before it. An id that is not a JSON string is refused.
\<close>

section \<open>Model\<close>

subsection \<open>Ids\<close>

definition uuid_nil :: uuid where
  "uuid_nil = ''00000000-0000-0000-0000-000000000000''"

definition slice :: "nat \<Rightarrow> nat \<Rightarrow> string \<Rightarrow> string" where
  "slice a b s = take (b - a) (drop a s)"

definition ParseUndashed :: "(string \<Rightarrow> uuid option) \<Rightarrow> string \<Rightarrow> uuid option" where
  "ParseUndashed uuid_parse s =
     (if length s = 32
      then uuid_parse (slice 0 8 s @ ''-'' @ slice 8 12 s @ ''-'' @ slice 12 16 s @ ''-'' @ slice 16 20 s @ ''-'' @ slice 20 32 s)
      else uuid_parse s)"

definition Undashed :: "(uuid \<Rightarrow> string) \<Rightarrow> uuid \<Rightarrow> string" where
  "Undashed uuid_string u = filter (\<lambda>ch. ch \<noteq> CHR ''-'') (uuid_string u)"

subsection \<open>Data\<close>

type_synonym PresenceStatus = string

definition StatusOnline :: PresenceStatus where "StatusOnline = ''ONLINE''"
definition StatusPlayingHostedServer :: PresenceStatus where "StatusPlayingHostedServer = ''PLAYING_HOSTED_SERVER''"
definition StatusOffline :: PresenceStatus where "StatusOffline = ''OFFLINE''"

record FriendDto =
  fd_ProfileID :: uuid
  fd_Name :: string

record FriendsListResponse =
  Friends :: "FriendDto list"
  IncomingRequests :: "FriendDto list"
  OutgoingRequests :: "FriendDto list"

record JoinInfoDto =
  ji_Value :: "string option"
  ji_Invited :: bool

record PresenceStatusDto =
  ps_ProfileID :: uuid
  ps_PMID :: uuid
  ps_Status :: PresenceStatus
  ps_JoinInfo :: "JoinInfoDto option"
  ps_LastUpdated :: int

type_synonym PresenceResponse = "PresenceStatusDto list"

record JoinInfoUpdate =
  ju_Value :: "string option"
  ju_Invites :: "uuid list"

record PresenceRequest =
  pr_Status :: PresenceStatus
  pr_JoinInfo :: "JoinInfoUpdate option"

record FriendActionRequest =
  fa_Name :: "string option"
  fa_ProfileID :: "uuid option"
  fa_UpdateType :: string

definition AddByName :: "string \<Rightarrow> FriendActionRequest" where
  "AddByName name = \<lparr>fa_Name = Some name, fa_ProfileID = None, fa_UpdateType = ''ADD''\<rparr>"

definition AddByID :: "uuid \<Rightarrow> FriendActionRequest" where
  "AddByID i = \<lparr>fa_Name = None, fa_ProfileID = Some i, fa_UpdateType = ''ADD''\<rparr>"

definition RemoveByID :: "uuid \<Rightarrow> FriendActionRequest" where
  "RemoveByID i = \<lparr>fa_Name = None, fa_ProfileID = Some i, fa_UpdateType = ''REMOVE''\<rparr>"

definition NewJoinInfoUpdate :: "uuid list \<Rightarrow> JoinInfoUpdate" where
  "NewJoinInfoUpdate invites = \<lparr>ju_Value = None, ju_Invites = invites\<rparr>"

subsection \<open>Decoding\<close>

text \<open>Every member of the field's name is decoded, in order; one that fails fails the whole.\<close>

definition idField :: "(string \<Rightarrow> uuid option) \<Rightarrow> json list \<Rightarrow> uuid option" where
  "idField uuid_parse vs =
     fold (\<lambda>v acc. case (v, acc) of (JStr s, Some _) \<Rightarrow> ParseUndashed uuid_parse s | _ \<Rightarrow> None) vs (Some uuid_nil)"

definition decodeList :: "(json \<Rightarrow> 'a option) \<Rightarrow> json option \<Rightarrow> 'a list option" where
  "decodeList f v =
     (case v of
        None \<Rightarrow> Some []
      | Some JNull \<Rightarrow> Some []
      | Some (JArr vs) \<Rightarrow> if list_all (\<lambda>x. f x \<noteq> None) vs then Some (map (the \<circ> f) vs) else None
      | _ \<Rightarrow> None)"

definition decodeFriend :: "(string \<Rightarrow> uuid option) \<Rightarrow> json \<Rightarrow> FriendDto option" where
  "decodeFriend uuid_parse v =
     (case unmarshalPayload v of
        None \<Rightarrow> None
      | Some m \<Rightarrow>
          (case (idField uuid_parse (jfields ''profileId'' m), strField (jfields ''name'' m)) of
             (Some i, Some n) \<Rightarrow> Some \<lparr>fd_ProfileID = i, fd_Name = n\<rparr>
           | _ \<Rightarrow> None))"

definition decodeFriends :: "(string \<Rightarrow> uuid option) \<Rightarrow> json \<Rightarrow> FriendsListResponse option" where
  "decodeFriends uuid_parse v =
     (case unmarshalPayload v of
        None \<Rightarrow> None
      | Some m \<Rightarrow>
          (case (decodeList (decodeFriend uuid_parse) (rawField (jfields ''friends'' m)),
                 decodeList (decodeFriend uuid_parse) (rawField (jfields ''incomingRequests'' m)),
                 decodeList (decodeFriend uuid_parse) (rawField (jfields ''outgoingRequests'' m))) of
             (Some f, Some i, Some out) \<Rightarrow> Some \<lparr>Friends = f, IncomingRequests = i, OutgoingRequests = out\<rparr>
           | _ \<Rightarrow> None))"

definition decodeJoinInfo :: "json option \<Rightarrow> JoinInfoDto option option" where
  "decodeJoinInfo v =
     (case v of
        None \<Rightarrow> Some None
      | Some JNull \<Rightarrow> Some None
      | Some (JObj m) \<Rightarrow>
          (case (rawField (jfields ''value'' m), rawField (jfields ''invited'' m)) of
             (val, invd) \<Rightarrow>
               (case (case val of None \<Rightarrow> Some None | Some JNull \<Rightarrow> Some None | Some (JStr s) \<Rightarrow> Some (Some s) | _ \<Rightarrow> None,
                      case invd of None \<Rightarrow> Some False | Some JNull \<Rightarrow> Some False | Some (JBool b) \<Rightarrow> Some b | _ \<Rightarrow> None) of
                  (Some s, Some b) \<Rightarrow> Some (Some \<lparr>ji_Value = s, ji_Invited = b\<rparr>)
                | _ \<Rightarrow> None))
      | _ \<Rightarrow> None)"

definition decodePresenceStatus ::
    "(string \<Rightarrow> uuid option) \<Rightarrow> (string \<Rightarrow> int option) \<Rightarrow> json \<Rightarrow> PresenceStatusDto option" where
  "decodePresenceStatus uuid_parse time_parse v =
     (case unmarshalPayload v of
        None \<Rightarrow> None
      | Some m \<Rightarrow>
          (case (idField uuid_parse (jfields ''profileId'' m), idField uuid_parse (jfields ''pmid'' m),
                 strField (jfields ''status'' m), decodeJoinInfo (rawField (jfields ''joinInfo'' m)),
                 case rawField (jfields ''lastUpdated'' m) of
                   None \<Rightarrow> Some 0 | Some JNull \<Rightarrow> Some 0 | Some (JStr s) \<Rightarrow> time_parse s | _ \<Rightarrow> None) of
             (Some i, Some p, Some st, Some ji, Some t) \<Rightarrow>
               Some \<lparr>ps_ProfileID = i, ps_PMID = p, ps_Status = st, ps_JoinInfo = ji, ps_LastUpdated = t\<rparr>
           | _ \<Rightarrow> None))"

definition decodePresence ::
    "(string \<Rightarrow> uuid option) \<Rightarrow> (string \<Rightarrow> int option) \<Rightarrow> json \<Rightarrow> PresenceResponse option" where
  "decodePresence uuid_parse time_parse v =
     (case unmarshalPayload v of
        None \<Rightarrow> None
      | Some m \<Rightarrow> decodeList (decodePresenceStatus uuid_parse time_parse) (rawField (jfields ''presence'' m)))"

subsection \<open>Requests\<close>

datatype endpoint = endpointPresence | endpointFriends

datatype req_body = NoBody | PresenceBody PresenceRequest | ActionBody FriendActionRequest

record http_request =
  rq_op :: string
  rq_token :: nat
  rq_etag :: string
  rq_body :: req_body

text \<open>An answer: a transport error, or status, ETag and Retry-After headers (empty when absent) and body.\<close>

datatype http_answer = NetErr string | Resp nat string string string

datatype api_error = APIError string nat string | DecodeError

definition briefErr :: "(string \<Rightarrow> json option) \<Rightarrow> string \<Rightarrow> string" where
  "briefErr parse body =
     (if body = '''' then ''''
      else let j = Option.bind (parse body) unmarshalPayload;
               member = (\<lambda>k. case Option.bind j (jget k) of Some (JStr v) \<Rightarrow> Some v | _ \<Rightarrow> None)
           in (case member ''error'' of
                 Some v \<Rightarrow> v
               | None \<Rightarrow>
                   (case member ''errorMessage'' of
                      Some v \<Rightarrow> v
                    | None \<Rightarrow> if length body > 200 then take 200 body @ ''...'' else body)))"

text \<open>The text of an error; \<^verbatim>\<open>decodeText\<close> is the JSON library's.\<close>

fun errorText :: "(string \<Rightarrow> json option) \<Rightarrow> string \<Rightarrow> api_error \<Rightarrow> string" where
  "errorText parse decodeText (APIError op status body) =
     op @ '' failed: '' @ show_nat status @ '' '' @ briefErr parse body"
| "errorText parse decodeText DecodeError = decodeText"

record diskCache =
  dk_FriendsETag :: string
  dk_FriendsResponse :: "FriendsListResponse option"
  dk_SavedAt :: int

record ApiClient =
  presenceETag :: string
  friendsETag :: string
  presenceCache :: "PresenceResponse option"
  friendsCache :: "FriendsListResponse option"
  presenceCooldownEnd :: int
  friendsCooldownEnd :: int
  cacheDir :: string
  tokenRefreshes :: nat
  sentLog :: "http_request list"
  cacheFile :: "diskCache option"

definition NewApiClient :: "diskCache option \<Rightarrow> ApiClient" where
  "NewApiClient file =
     \<lparr>presenceETag = '''', friendsETag = '''', presenceCache = None, friendsCache = None,
      presenceCooldownEnd = 0, friendsCooldownEnd = 0, cacheDir = '''', tokenRefreshes = 0, sentLog = [],
      cacheFile = file\<rparr>"

definition ClearPresenceETag :: "ApiClient \<Rightarrow> ApiClient" where
  "ClearPresenceETag c = c\<lparr>presenceETag := ''''\<rparr>"

definition PresenceInCooldown :: "int \<Rightarrow> ApiClient \<Rightarrow> bool" where
  "PresenceInCooldown now c \<longleftrightarrow> now < presenceCooldownEnd c"

definition FriendsInCooldown :: "int \<Rightarrow> ApiClient \<Rightarrow> bool" where
  "FriendsInCooldown now c \<longleftrightarrow> now < friendsCooldownEnd c"

definition PresenceCooldownRemaining :: "int \<Rightarrow> ApiClient \<Rightarrow> int" where
  "PresenceCooldownRemaining now c = presenceCooldownEnd c - now"

definition FriendsCooldownRemaining :: "int \<Rightarrow> ApiClient \<Rightarrow> int" where
  "FriendsCooldownRemaining now c = friendsCooldownEnd c - now"

text \<open>\<^verbatim>\<open>time.Duration(n) * time.Second\<close> is a 64-bit product.\<close>

definition parseRetryAfter :: "string \<Rightarrow> int64" where
  "parseRetryAfter h =
     (if h = '''' then 0
      else (case Atoi h of None \<Rightarrow> 0 | Some n \<Rightarrow> of_int n * 1000000000))"

definition etagIfEnabled :: "bool \<Rightarrow> string \<Rightarrow> string" where
  "etagIfEnabled enabled etag = (if \<not> enabled then '''' else etag)"

definition firstNonEmpty :: "string \<Rightarrow> string \<Rightarrow> string" where
  "firstNonEmpty a b = (if a \<noteq> '''' then a else b)"

definition coolDown :: "endpoint \<Rightarrow> int \<Rightarrow> string \<Rightarrow> ApiClient \<Rightarrow> ApiClient" where
  "coolDown ep now retryAfter c =
     (let d = parseRetryAfter retryAfter;
          d' = (if d = 0 then 60 * 1000000000 else d);
          e = now + sint d'
      in (case ep of
            endpointPresence \<Rightarrow> c\<lparr>presenceCooldownEnd := e\<rparr>
          | endpointFriends \<Rightarrow> c\<lparr>friendsCooldownEnd := e\<rparr>))"

text \<open>The loop of \<^verbatim>\<open>doWithRetry\<close>; \<^verbatim>\<open>retried\<close> is its flag. The result is status, ETag, body and error.\<close>

function (sequential) retryLoop ::
    "(http_request list \<Rightarrow> http_answer) \<Rightarrow> int \<Rightarrow> string \<Rightarrow> endpoint \<Rightarrow> bool \<Rightarrow> req_body \<Rightarrow> string \<Rightarrow> bool \<Rightarrow> ApiClient \<Rightarrow>
     (nat \<times> string \<times> string \<times> api_error option) \<times> ApiClient" where
  "retryLoop respond now op ep supportsEtag body etagIn retried c =
     (let req = \<lparr>rq_op = op, rq_token = tokenRefreshes c, rq_etag = etagIfEnabled supportsEtag etagIn, rq_body = body\<rparr>;
          c1 = c\<lparr>sentLog := sentLog c @ [req]\<rparr>
      in (case respond (sentLog c1) of
            NetErr e \<Rightarrow> ((0, etagIn, '''', Some (APIError op 0 e)), c1)
          | Resp status etag retryAfter raw \<Rightarrow>
              if status = 304 then ((304, etagIn, '''', None), c1)
              else if status < 400 then ((status, firstNonEmpty etag etagIn, raw, None), c1)
              else if status = 401 \<and> \<not> retried
              then retryLoop respond now op ep supportsEtag body etagIn True (c1\<lparr>tokenRefreshes := tokenRefreshes c1 + 1\<rparr>)
              else if status = 429 then ((status, etagIn, raw, Some (APIError op 429 raw)), coolDown ep now retryAfter c1)
              else ((status, etagIn, raw, Some (APIError op status raw)), c1)))"
  by pat_completeness auto
termination
  by (relation "measure (\<lambda>(_, _, _, _, _, _, _, retried, _). if retried then 0 else 1)") auto

declare retryLoop.simps [simp del]

definition doWithRetry ::
    "(http_request list \<Rightarrow> http_answer) \<Rightarrow> int \<Rightarrow> string \<Rightarrow> endpoint \<Rightarrow> bool \<Rightarrow> req_body \<Rightarrow> string \<Rightarrow> ApiClient \<Rightarrow>
     (nat \<times> string \<times> string \<times> api_error option) \<times> ApiClient" where
  "doWithRetry respond now op ep supportsEtag body etagIn c =
     retryLoop respond now op ep supportsEtag body etagIn False c"

subsection \<open>Friends\<close>

text \<open>The cache file, with its JSON read as the record it encodes; \<^verbatim>\<open>writeOk\<close> is whether it could be written.\<close>

definition SaveCacheToDisk :: "bool \<Rightarrow> int \<Rightarrow> string \<Rightarrow> ApiClient \<Rightarrow> ApiClient" where
  "SaveCacheToDisk writeOk now dir c =
     (if dir = '''' \<or> \<not> writeOk then c
      else c\<lparr>cacheFile := Some \<lparr>dk_FriendsETag = friendsETag c, dk_FriendsResponse = friendsCache c, dk_SavedAt = now\<rparr>\<rparr>)"

definition LoadCacheFromDisk :: "string \<Rightarrow> ApiClient \<Rightarrow> ApiClient" where
  "LoadCacheFromDisk dir c =
     (if dir = '''' then c
      else let c1 = c\<lparr>cacheDir := dir\<rparr>
           in (case cacheFile c of
                 None \<Rightarrow> c1
               | Some d \<Rightarrow> c1\<lparr>friendsETag := dk_FriendsETag d, friendsCache := dk_FriendsResponse d\<rparr>))"

definition ResetCache :: "ApiClient \<Rightarrow> ApiClient" where
  "ResetCache c = c\<lparr>friendsETag := '''', friendsCache := None, presenceETag := '''', presenceCache := None\<rparr>"

text \<open>What the operations need from outside: the services, the parsers and the file system.\<close>

record env =
  respond :: "http_request list \<Rightarrow> http_answer"
  json_parse :: "string \<Rightarrow> json option"
  uuid_parse :: "string \<Rightarrow> uuid option"
  time_parse :: "string \<Rightarrow> int option"
  write_ok :: bool

definition GetFriends :: "env \<Rightarrow> int \<Rightarrow> ApiClient \<Rightarrow> (api_error + FriendsListResponse option) \<times> ApiClient" where
  "GetFriends e now c =
     (if FriendsInCooldown now c
      then (case friendsCache c of
              Some cached \<Rightarrow> (Inr (Some cached), c)
            | None \<Rightarrow> (Inl (APIError ''GET /friends'' 429 ''client cooldown''), c))
      else (case doWithRetry (respond e) now ''GET /friends'' endpointFriends True NoBody (friendsETag c) c of
              ((status, etagOut, raw, Some err), c1) \<Rightarrow> (Inl err, c1)
            | ((status, etagOut, raw, None), c1) \<Rightarrow>
                if status = 304 \<or> raw = ''''
                then let c2 = (if etagOut \<noteq> '''' then c1\<lparr>friendsETag := etagOut\<rparr> else c1)
                     in (Inr (friendsCache c2), c2)
                else (case Option.bind (json_parse e raw) (decodeFriends (uuid_parse e)) of
                        None \<Rightarrow> (Inl DecodeError, c1)
                      | Some out \<Rightarrow>
                          let c2 = c1\<lparr>friendsETag := etagOut, friendsCache := Some out\<rparr>
                          in (Inr (Some out), SaveCacheToDisk (write_ok e) now (cacheDir c2) c2))))"

definition PutFriendAction ::
    "env \<Rightarrow> int \<Rightarrow> FriendActionRequest \<Rightarrow> ApiClient \<Rightarrow> (api_error + FriendsListResponse option) \<times> ApiClient" where
  "PutFriendAction e now body c =
     (if FriendsInCooldown now c then (Inl (APIError ''PUT /friends'' 429 ''client cooldown''), c)
      else (case doWithRetry (respond e) now ''PUT /friends'' endpointFriends False (ActionBody body) '''' c of
              ((status, etagOut, raw, Some err), c1) \<Rightarrow> (Inl err, c1)
            | ((status, etagOut, raw, None), c1) \<Rightarrow>
                let c2 = c1\<lparr>friendsETag := ''''\<rparr>
                in if raw = '''' then (Inr None, c2)
                   else (case Option.bind (json_parse e raw) (decodeFriends (uuid_parse e)) of
                           None \<Rightarrow> (Inl DecodeError, c2)
                         | Some out \<Rightarrow> (Inr (Some out), c2))))"

definition PostPresence ::
    "env \<Rightarrow> int \<Rightarrow> PresenceRequest \<Rightarrow> ApiClient \<Rightarrow> (api_error + PresenceResponse option) \<times> ApiClient" where
  "PostPresence e now body c =
     (if PresenceInCooldown now c
      then (case presenceCache c of
              Some cached \<Rightarrow> (Inr (Some cached), c)
            | None \<Rightarrow> (Inl (APIError ''POST /presence'' 429 ''client cooldown''), c))
      else (case doWithRetry (respond e) now ''POST /presence'' endpointPresence True (PresenceBody body) (presenceETag c) c of
              ((status, etagOut, raw, Some err), c1) \<Rightarrow> (Inl err, c1)
            | ((status, etagOut, raw, None), c1) \<Rightarrow>
                if status = 304 \<or> raw = ''''
                then let c2 = (if etagOut \<noteq> '''' then c1\<lparr>presenceETag := etagOut\<rparr> else c1)
                     in (Inr (presenceCache c2), c2)
                else (case Option.bind (json_parse e raw) (decodePresence (uuid_parse e) (time_parse e)) of
                        None \<Rightarrow> (Inl DecodeError, c1)
                      | Some out \<Rightarrow> (Inr (Some out), c1\<lparr>presenceETag := etagOut, presenceCache := Some out\<rparr>))))"

subsection \<open>Resolving a peer\<close>

record Peer =
  peer_Name :: string
  peer_ProfileID :: uuid
  peer_PMID :: uuid

datatype resolve_error =
    ListFriends api_error
  | FriendsUnavailable
  | NoSuchFriend
  | FetchPresence api_error
  | PresenceCached
  | NotSharingPresence

definition resolveByPmid :: "env \<Rightarrow> int \<Rightarrow> uuid \<Rightarrow> ApiClient \<Rightarrow> (resolve_error + Peer) \<times> ApiClient" where
  "resolveByPmid e now pmid c =
     (case PostPresence e now \<lparr>pr_Status = StatusOnline, pr_JoinInfo = None\<rparr> (ClearPresenceETag c) of
        (Inl err, c1) \<Rightarrow> (Inl (FetchPresence err), c1)
      | (Inr pres, c1) \<Rightarrow>
          let profile = (case Option.bind pres (find (\<lambda>p. ps_PMID p = pmid)) of
                           None \<Rightarrow> uuid_nil
                         | Some p \<Rightarrow> ps_ProfileID p);
              peer = \<lparr>peer_Name = '''', peer_ProfileID = profile, peer_PMID = pmid\<rparr>
          in if profile = uuid_nil then (Inr peer, c1)
             else (case GetFriends e now c1 of
                     (Inr (Some friends), c2) \<Rightarrow>
                       (Inr (case find (\<lambda>f. fd_ProfileID f = profile) (Friends friends) of
                               None \<Rightarrow> peer
                             | Some f \<Rightarrow> peer\<lparr>peer_Name := fd_Name f\<rparr>), c2)
                   | (_, c2) \<Rightarrow> (Inr peer, c2)))"

definition ResolvePeer ::
    "(string \<Rightarrow> string \<Rightarrow> bool) \<Rightarrow> env \<Rightarrow> int \<Rightarrow> string \<Rightarrow> ApiClient \<Rightarrow> (resolve_error + Peer) \<times> ApiClient" where
  "ResolvePeer equalFold e now query c =
     (case ParseUndashed (uuid_parse e) query of
        Some raw \<Rightarrow> resolveByPmid e now raw c
      | None \<Rightarrow>
          (case GetFriends e now c of
             (Inl err, c1) \<Rightarrow> (Inl (ListFriends err), c1)
           | (Inr None, c1) \<Rightarrow> (Inl FriendsUnavailable, c1)
           | (Inr (Some friends), c1) \<Rightarrow>
               (case find (\<lambda>f. equalFold (fd_Name f) query) (Friends friends) of
                  None \<Rightarrow> (Inl NoSuchFriend, c1)
                | Some m \<Rightarrow>
                    (case PostPresence e now \<lparr>pr_Status = StatusOnline, pr_JoinInfo = None\<rparr> (ClearPresenceETag c1) of
                       (Inl err, c2) \<Rightarrow> (Inl (FetchPresence err), c2)
                     | (Inr None, c2) \<Rightarrow> (Inl PresenceCached, c2)
                     | (Inr (Some pres), c2) \<Rightarrow>
                         (case find (\<lambda>p. ps_ProfileID p = fd_ProfileID m) pres of
                            None \<Rightarrow> (Inl NotSharingPresence, c2)
                          | Some p \<Rightarrow> (Inr \<lparr>peer_Name = fd_Name m, peer_ProfileID = fd_ProfileID m, peer_PMID = ps_PMID p\<rparr>, c2))))))"

subsection \<open>Uploading a skin\<close>

text \<open>\<^verbatim>\<open>UploadSkinBytes\<close> calls itself after every 401. \<^verbatim>\<open>fuel\<close> bounds the calls; \<^verbatim>\<open>None\<close> is a call that has not
  returned within it. \<^verbatim>\<open>answer n\<close> is the answer to the request made after n refreshes.\<close>

fun UploadSkinBytes :: "nat \<Rightarrow> (nat \<Rightarrow> http_answer) \<Rightarrow> ApiClient \<Rightarrow> (api_error option \<times> ApiClient) option" where
  "UploadSkinBytes 0 answer c = None"
| "UploadSkinBytes (Suc fuel) answer c =
     (case answer (tokenRefreshes c) of
        NetErr err \<Rightarrow> Some (Some (APIError ''skin upload'' 0 err), c)
      | Resp status _ _ raw \<Rightarrow>
          if status = 401 then UploadSkinBytes fuel answer (c\<lparr>tokenRefreshes := tokenRefreshes c + 1\<rparr>)
          else if status \<ge> 400 then Some (Some (APIError ''POST /minecraft/profile/skins'' status raw), c)
          else Some (None, c))"

section \<open>Requests and retries\<close>

definition request :: "string \<Rightarrow> bool \<Rightarrow> req_body \<Rightarrow> string \<Rightarrow> nat \<Rightarrow> http_request" where
  "request op supportsEtag body etagIn tok =
     \<lparr>rq_op = op, rq_token = tok, rq_etag = etagIfEnabled supportsEtag etagIn, rq_body = body\<rparr>"

lemma coolDown_frame [simp, frame_simps]:
  "sentLog (coolDown ep now h c) = sentLog c" "tokenRefreshes (coolDown ep now h c) = tokenRefreshes c"
  "friendsCache (coolDown ep now h c) = friendsCache c" "presenceCache (coolDown ep now h c) = presenceCache c"
  "friendsETag (coolDown ep now h c) = friendsETag c" "cacheDir (coolDown ep now h c) = cacheDir c"
  by (simp_all add: coolDown_def Let_def split: endpoint.split)

text \<open>What the loop does with the answer to a request that is not retried.\<close>

definition settle ::
    "int \<Rightarrow> string \<Rightarrow> endpoint \<Rightarrow> string \<Rightarrow> http_answer \<Rightarrow> ApiClient \<Rightarrow> (nat \<times> string \<times> string \<times> api_error option) \<times> ApiClient" where
  "settle now op ep etagIn answer c =
     (case answer of
        NetErr e \<Rightarrow> ((0, etagIn, '''', Some (APIError op 0 e)), c)
      | Resp status etag retryAfter raw \<Rightarrow>
          if status = 304 then ((304, etagIn, '''', None), c)
          else if status < 400 then ((status, firstNonEmpty etag etagIn, raw, None), c)
          else if status = 429 then ((status, etagIn, raw, Some (APIError op 429 raw)), coolDown ep now retryAfter c)
          else ((status, etagIn, raw, Some (APIError op status raw)), c))"

definition unauthorized :: "http_answer \<Rightarrow> bool" where
  "unauthorized a \<longleftrightarrow> (\<exists>etag ra raw. a = Resp 401 etag ra raw)"

definition logged :: "http_request \<Rightarrow> ApiClient \<Rightarrow> ApiClient" where
  "logged r c = c\<lparr>sentLog := sentLog c @ [r]\<rparr>"

lemma retryLoop_settle:
  assumes "retried \<or> \<not> unauthorized (answers (sentLog c @ [request op tagged body etagIn (tokenRefreshes c)]))"
  shows "retryLoop answers now op ep tagged body etagIn retried c =
     settle now op ep etagIn (answers (sentLog c @ [request op tagged body etagIn (tokenRefreshes c)]))
       (logged (request op tagged body etagIn (tokenRefreshes c)) c)"
  using assms
  by (subst retryLoop.simps) (auto simp: settle_def request_def logged_def unauthorized_def Let_def split: http_answer.split)

lemma doWithRetry_cases:
  fixes c :: ApiClient and op etagIn :: string and tagged :: bool and body :: req_body
  defines "r1 \<equiv> request op tagged body etagIn (tokenRefreshes c)"
    and "r2 \<equiv> request op tagged body etagIn (tokenRefreshes c + 1)"
  shows "doWithRetry answers now op ep tagged body etagIn c =
     (if unauthorized (answers (sentLog c @ [r1]))
      then settle now op ep etagIn (answers (sentLog c @ [r1, r2]))
             (logged r2 ((logged r1 c)\<lparr>tokenRefreshes := tokenRefreshes c + 1\<rparr>))
      else settle now op ep etagIn (answers (sentLog c @ [r1])) (logged r1 c))"
proof (cases "unauthorized (answers (sentLog c @ [r1]))")
  case True
  then obtain etag ra raw where a: "answers (sentLog c @ [r1]) = Resp 401 etag ra raw"
    by (auto simp: unauthorized_def)
  have "retryLoop answers now op ep tagged body etagIn False c =
     retryLoop answers now op ep tagged body etagIn True ((logged r1 c)\<lparr>tokenRefreshes := tokenRefreshes c + 1\<rparr>)"
    using a by (subst retryLoop.simps) (simp add: r1_def request_def logged_def Let_def)
  with True show ?thesis
    by (simp add: doWithRetry_def retryLoop_settle r2_def logged_def)
next
  case False
  then show ?thesis by (simp add: doWithRetry_def retryLoop_settle r1_def)
qed

lemma settle_frame [simp]:
  "sentLog (snd (settle now op ep etagIn a c)) = sentLog c"
  "tokenRefreshes (snd (settle now op ep etagIn a c)) = tokenRefreshes c"
  by (auto simp: settle_def split: http_answer.split)

text \<open>
  A request to the services is sent once, and a second time exactly when the first was answered
  401; in between the token is refreshed once, and the second request carries the new token and
  otherwise repeats the first. No answer makes the client ask a third time.
\<close>

theorem api_retry_once:
  "\<exists>reqs. sentLog (snd (doWithRetry answers now op ep tagged body etagIn c)) = sentLog c @ reqs \<and>
     tokenRefreshes (snd (doWithRetry answers now op ep tagged body etagIn c)) = tokenRefreshes c + (length reqs - 1) \<and>
     reqs = (if unauthorized (answers (sentLog c @ [request op tagged body etagIn (tokenRefreshes c)]))
             then [request op tagged body etagIn (tokenRefreshes c), request op tagged body etagIn (tokenRefreshes c + 1)]
             else [request op tagged body etagIn (tokenRefreshes c)])"
  by (simp add: doWithRetry_cases logged_def)

section \<open>Rate limiting\<close>

lemma parseRetryAfter_seconds:
  assumes "Atoi h = Some n" and "0 < n" and "n \<le> 9223372036"
  shows "sint (parseRetryAfter h) = n * 1000000000"
proof -
  have "h \<noteq> ''''" using assms(1) by (auto simp: Atoi_def)
  then have eq: "parseRetryAfter h = word_of_int (n * 1000000000)"
    using assms(1) by (simp add: parseRetryAfter_def)
  have "sint (word_of_int m :: int64) = m" if "0 \<le> m" "m < 2 ^ 63" for m
    using that by (simp add: signed_of_int signed_take_bit_int_eq_self)
  from this[of "n * 1000000000"] show ?thesis
    unfolding eq using assms(2,3) by (simp del: of_int_mult)
qed


definition sample_friends_json :: json where
  "sample_friends_json = JObj [(''friends'', JArr [JObj [(''profileId'', JStr ''u1''), (''name'', JStr ''Alice'')]])]"

definition sample_friends :: FriendsListResponse where
  "sample_friends =
     \<lparr>Friends = [\<lparr>fd_ProfileID = ''u1'', fd_Name = ''Alice''\<rparr>], IncomingRequests = [], OutgoingRequests = []\<rparr>"

lemma decode_sample_friends: "decodeFriends Some sample_friends_json = Some sample_friends"
  by (simp add: sample_friends_json_def sample_friends_def decodeFriends_def unmarshalPayload_def decodeList_def
      jfields_def lower_char_def rawField_def decodeFriend_def idField_def strField_def ParseUndashed_def)

definition sample_env :: "http_answer list \<Rightarrow> env" where
  "sample_env as = \<lparr>respond = (\<lambda>reqs. if length reqs \<le> length as then as ! (length reqs - 1) else NetErr ''none''),
     json_parse = (\<lambda>s. if s = ''ok'' then Some sample_friends_json else None),
     uuid_parse = Some, time_parse = (\<lambda>_. Some 0), write_ok = True\<rparr>"


section \<open>ETags and the cache\<close>

lemma doWithRetry_ok:
  assumes "answers (sentLog c @ [request op tagged body etagIn (tokenRefreshes c)]) = Resp status etag ra raw"
    and "status < 400" and "status \<noteq> 304"
  shows "doWithRetry answers now op ep tagged body etagIn c =
     ((status, firstNonEmpty etag etagIn, raw, None), logged (request op tagged body etagIn (tokenRefreshes c)) c)"
  using assms by (simp add: doWithRetry_cases unauthorized_def settle_def)

lemma doWithRetry_304:
  assumes "answers (sentLog c @ [request op tagged body etagIn (tokenRefreshes c)]) = Resp 304 etag ra raw"
  shows "doWithRetry answers now op ep tagged body etagIn c =
     ((304, etagIn, '''', None), logged (request op tagged body etagIn (tokenRefreshes c)) c)"
  using assms by (simp add: doWithRetry_cases unauthorized_def settle_def)

text \<open>
  C39. A friends list that came with an ETag is kept for it: the next request carries that ETag, and
  when the service answers 304 the caller gets the same list again. The list and its ETag also go
  to the cache file, from which a new client starts with the same list and the same ETag.
\<close>

theorem friends_etag_cache:
  assumes "respond e (sentLog c @ [r1]) = Resp 200 etag ra raw"
    and "r1 = request ''GET /friends'' True NoBody (friendsETag c) (tokenRefreshes c)"
    and "json_parse e raw = Some v" and "decodeFriends (uuid_parse e) v = Some friends" and "raw \<noteq> ''''" and "etag \<noteq> ''''"
    and "\<not> FriendsInCooldown now c" and "\<not> FriendsInCooldown now' c"
    and "respond e (sentLog c @ [r1, request ''GET /friends'' True NoBody etag (tokenRefreshes c)]) = Resp 304 etag' ra' raw'"
    and "write_ok e" and "cacheDir c = d # ir"
  shows "\<exists>c1 c2. GetFriends e now c = (Inr (Some friends), c1) \<and>
     GetFriends e now' c1 = (Inr (Some friends), c2) \<and>
     sentLog c2 = sentLog c @ [r1, request ''GET /friends'' True NoBody etag (tokenRefreshes c)] \<and>
     friendsCache (LoadCacheFromDisk (d # ir) (NewApiClient (cacheFile c2))) = Some friends \<and>
     friendsETag (LoadCacheFromDisk (d # ir) (NewApiClient (cacheFile c2))) = etag"
proof -
  let ?c = "(logged r1 c)\<lparr>friendsETag := etag, friendsCache := Some friends\<rparr>"
  let ?c1 = "SaveCacheToDisk True now (d # ir) ?c"
  let ?r2 = "request ''GET /friends'' True NoBody etag (tokenRefreshes c)"
  have g1: "GetFriends e now c = (Inr (Some friends), ?c1)"
    using assms(1-7,10,11) doWithRetry_ok[of "respond e" c "''GET /friends''" True NoBody "friendsETag c" 200 etag ra raw now endpointFriends]
    by (simp add: GetFriends_def firstNonEmpty_def logged_def)
  have fr: "friendsETag ?c1 = etag" "friendsCache ?c1 = Some friends" "tokenRefreshes ?c1 = tokenRefreshes c"
    "sentLog ?c1 = sentLog c @ [r1]" "\<not> FriendsInCooldown now' ?c1"
    "cacheFile ?c1 = Some \<lparr>dk_FriendsETag = etag, dk_FriendsResponse = Some friends, dk_SavedAt = now\<rparr>"
    using assms(8) by (simp_all add: SaveCacheToDisk_def logged_def FriendsInCooldown_def)
  have "doWithRetry (respond e) now' ''GET /friends'' endpointFriends True NoBody etag ?c1 = ((304, etag, '''', None), logged ?r2 ?c1)"
    using doWithRetry_304[of "respond e" ?c1 "''GET /friends''" True NoBody etag etag' ra' raw'] assms(9) by (simp add: fr(3,4))
  then have g2: "GetFriends e now' ?c1 = (Inr (Some friends), (logged ?r2 ?c1)\<lparr>friendsETag := etag\<rparr>)"
    using fr assms(6) by (simp add: GetFriends_def logged_def)
  show ?thesis
    using g1 g2 fr(4,6)
    by (intro exI[of _ ?c1] exI[of _ "(logged ?r2 ?c1)\<lparr>friendsETag := etag\<rparr>"] conjI)
       (simp_all add: logged_def LoadCacheFromDisk_def NewApiClient_def Let_def)
qed

definition sample_etag_env :: env where
  "sample_etag_env = sample_env [Resp 200 ''W1'' '''' ''ok'', Resp 304 '''' '''' '''']"

definition sample_client :: ApiClient where
  "sample_client = (NewApiClient None)\<lparr>cacheDir := ''d''\<rparr>"

theorem friends_etag_cache_witness:
  "\<exists>c1 c2. GetFriends sample_etag_env 0 sample_client = (Inr (Some sample_friends), c1) \<and>
     GetFriends sample_etag_env 1 c1 = (Inr (Some sample_friends), c2)"
proof -
  have c: "sentLog sample_client = []" "friendsETag sample_client = ''''" "tokenRefreshes sample_client = 0"
    "cacheDir sample_client = [CHR ''d'']" "\<not> FriendsInCooldown 0 sample_client" "\<not> FriendsInCooldown 1 sample_client"
    by (simp_all add: sample_client_def NewApiClient_def FriendsInCooldown_def)
  have e: "respond sample_etag_env [r] = Resp 200 ''W1'' '''' ''ok''" "respond sample_etag_env [r, r'] = Resp 304 '''' '''' ''''"
    "json_parse sample_etag_env ''ok'' = Some sample_friends_json" "uuid_parse sample_etag_env = Some" "write_ok sample_etag_env" for r r'
    by (simp_all add: sample_etag_env_def sample_env_def)
  show ?thesis
    using friends_etag_cache[of sample_etag_env sample_client, unfolded c append_Nil, OF e(1) refl e(3)
        decode_sample_friends[folded e(4)] _ _ c(5,6) e(2) e(5) refl] by simp blast
qed

section \<open>Ids without dashes\<close>

text \<open>What google/uuid documents of \<^verbatim>\<open>String\<close>: 36 characters, dashes at positions 8, 13, 18 and 23 and nowhere else.\<close>

definition canonical :: "string \<Rightarrow> bool" where
  "canonical s \<longleftrightarrow> (\<exists>a b c d f. s = a @ ''-'' @ b @ ''-'' @ c @ ''-'' @ d @ ''-'' @ f \<and>
     length a = 8 \<and> length b = 4 \<and> length c = 4 \<and> length d = 4 \<and> length f = 12 \<and>
     list_all (\<lambda>ch. ch \<noteq> CHR ''-'') (a @ b @ c @ d @ f))"

lemma filter_no_dash: "list_all (\<lambda>ch. ch \<noteq> CHR ''-'') s \<Longrightarrow> filter (\<lambda>ch. ch \<noteq> CHR ''-'') s = s"
  by (simp add: list_all_iff)

text \<open>
  An id written without its dashes, as the services want it, is read back as the same id; the
  written form is 32 characters long.
\<close>

theorem undashed_roundtrip:
  assumes "canonical (uuid_string u)" and "parse (uuid_string u) = Some u"
  shows "ParseUndashed parse (Undashed uuid_string u) = Some u \<and> length (Undashed uuid_string u) = 32"
proof -
  obtain a b c d f where s: "uuid_string u = a @ ''-'' @ b @ ''-'' @ c @ ''-'' @ d @ ''-'' @ f"
    and len: "length a = 8" "length b = 4" "length c = 4" "length d = 4" "length f = 12"
    and nd: "list_all (\<lambda>ch. ch \<noteq> CHR ''-'') (a @ b @ c @ d @ f)"
    using assms(1) unfolding canonical_def by blast
  have u: "Undashed uuid_string u = a @ b @ c @ d @ f"
    using nd by (simp add: Undashed_def s filter_no_dash)
  have "slice 0 8 (a @ b @ c @ d @ f) = a" "slice 8 12 (a @ b @ c @ d @ f) = b" "slice 12 16 (a @ b @ c @ d @ f) = c"
    "slice 16 20 (a @ b @ c @ d @ f) = d" "slice 20 32 (a @ b @ c @ d @ f) = f"
    using len by (simp_all add: slice_def)
  then show ?thesis using u len s assms(2) by (simp add: ParseUndashed_def)
qed

theorem undashed_roundtrip_witness:
  "ParseUndashed Some (Undashed (\<lambda>u. u) uuid_nil) = Some uuid_nil"
proof -
  have "canonical uuid_nil"
    unfolding canonical_def uuid_nil_def
    by (rule exI[of _ "''00000000''"], rule exI[of _ "''0000''"], rule exI[of _ "''0000''"], rule exI[of _ "''0000''"],
        rule exI[of _ "''000000000000''"]) simp
  then show ?thesis using undashed_roundtrip[of "\<lambda>u. u" uuid_nil Some] by simp
qed

text \<open>
  A skin upload whose token the service keeps rejecting never returns: however many requests it
  is given, the call is still retrying. It does return as soon as one request is answered otherwise.
\<close>

theorem skin_upload_unbounded:
  assumes "\<And>n. n < m \<Longrightarrow> unauthorized (answer (tokenRefreshes c + n))"
  shows "(fuel \<le> m \<longrightarrow> UploadSkinBytes fuel answer c = None) \<and>
     (\<not> unauthorized (answer (tokenRefreshes c + m)) \<longrightarrow>
        (\<exists>err c'. UploadSkinBytes (Suc m) answer c = Some (err, c') \<and> tokenRefreshes c' = tokenRefreshes c + m))"
proof -
  have stuck: "UploadSkinBytes fuel answer c = None"
    if "\<And>n. n < m \<Longrightarrow> unauthorized (answer (tokenRefreshes c + n))" "fuel \<le> m" for fuel m c
    using that
  proof (induction fuel arbitrary: m c)
    case (Suc fuel)
    obtain k where k: "m = Suc k" using Suc.prems(2) by (cases m) auto
    have "unauthorized (answer (tokenRefreshes c))" using Suc.prems(1)[of 0] k by simp
    moreover have "UploadSkinBytes fuel answer (c\<lparr>tokenRefreshes := tokenRefreshes c + 1\<rparr>) = None"
      using Suc.prems(1)[of "Suc _"] Suc.prems(2) k by (intro Suc.IH[of k]) simp_all
    ultimately show ?case by (auto simp: unauthorized_def)
  qed simp
  have "\<exists>err c'. UploadSkinBytes (Suc m) answer c = Some (err, c') \<and> tokenRefreshes c' = tokenRefreshes c + m"
    if "\<And>n. n < m \<Longrightarrow> unauthorized (answer (tokenRefreshes c + n))" "\<not> unauthorized (answer (tokenRefreshes c + m))" for m c
    using that
  proof (induction m arbitrary: c)
    case 0
    then show ?case by (auto simp: unauthorized_def split: http_answer.split)
  next
    case (Suc m)
    let ?c = "c\<lparr>tokenRefreshes := tokenRefreshes c + 1\<rparr>"
    have "unauthorized (answer (tokenRefreshes c))" using Suc.prems(1)[of 0] by simp
    then have "UploadSkinBytes (Suc (Suc m)) answer c = UploadSkinBytes (Suc m) answer ?c"
      by (subst UploadSkinBytes.simps(2)) (auto simp: unauthorized_def simp del: UploadSkinBytes.simps)
    moreover have "\<exists>err c'. UploadSkinBytes (Suc m) answer ?c = Some (err, c') \<and> tokenRefreshes c' = tokenRefreshes ?c + m"
      using Suc.prems(1)[of "Suc _"] Suc.prems(2) by (intro Suc.IH) simp_all
    ultimately show ?case by simp
  qed
  with stuck assms show ?thesis by blast
qed

theorem skin_upload_unbounded_witness:
  "UploadSkinBytes 1000 (\<lambda>_. Resp 401 '''' '''' '''') (NewApiClient None) = None"
  using skin_upload_unbounded[of 1000 "\<lambda>_. Resp 401 '''' '''' ''''" "NewApiClient None" 1000] by (auto simp: unauthorized_def)

end
