(* ===== verification/Auth.thy ===== *)
theory Auth
  imports ApiClient
begin

text \<open>
  Sign-in, \<^verbatim>\<open>src/internal/auth\<close>: the device code flow with its polling loop, the exchange of a Microsoft
  token for a Minecraft one through the Xbox services, the encrypted credentials file, and the session
  that hands the token to the other components.

  The services answer through \<^verbatim>\<open>au_answer\<close>, which sees every request sent so far, the current one last. Time is
  in nanoseconds; a request takes at least one. JSON text, google/uuid, the RFC 3339 format and
  AES-256-GCM are arguments, as are the machine's id and the random nonce. A PEM file is the list of its
  blocks. An error keeps its stage and its cause; texts that come from a library are not spelled out.
\<close>

section \<open>Model\<close>

subsection \<open>Data\<close>

record Tokens =
  ProfileID :: uuid
  tk_Name :: string
  MojangAccessToken :: string
  MojangExpiresAt :: int
  MsRefreshToken :: string

record MsToken =
  ms_AccessToken :: string
  ms_RefreshToken :: string
  ms_ExpiresAt :: int

record DeviceCodePrompt =
  UserCode :: string
  VerificationURI :: string
  dp_Message :: string
  DeviceCode :: string
  ExpiresIn :: int64
  Interval :: int64

datatype cause = NetCause string | JsonCause | UuidCause | TextCause string | XErrCause int string

datatype auth_error =
    StageError string cause
  | StatusError string int string
  | ErrNotAuthenticated

text \<open>The texts of the errors; \<^verbatim>\<open>causeText\<close> is what the wrapped error says. The body of an answer is cut after 200 bytes.\<close>

definition briefBody :: "string \<Rightarrow> nat \<Rightarrow> string" where
  "briefBody s n = (if length s \<le> n then s else take n s @ ''...'')"

definition Error_text :: "(cause \<Rightarrow> string) \<Rightarrow> auth_error \<Rightarrow> string" where
  "Error_text causeText e =
     (case e of
        StageError stage c \<Rightarrow> stage @ '': '' @ causeText c
      | StatusError stage status body \<Rightarrow>
          stage @ '': status='' @ (if status < 0 then ''-'' @ show_nat (nat (- status)) else show_nat (nat status)) @
            '' body='' @ briefBody body 200
      | ErrNotAuthenticated \<Rightarrow> ''not authenticated'')"

lemma briefBody_bound: "length (briefBody s n) \<le> n + 3" "length s \<le> n \<Longrightarrow> briefBody s n = s"
  by (auto simp: briefBody_def)

datatype auth_request =
    FormPost string "(string \<times> string) list"
  | JsonPost string json
  | ProfileGet string string

datatype auth_answer = AuthNetErr string | AuthResp int string

text \<open>The zero value of \<^verbatim>\<open>Tokens\<close>; the zero time is \<^verbatim>\<open>zeroTime\<close>, January 1 of year 1.\<close>

definition zeroTime :: int where
  "zeroTime = - 62135596800 * 1000000000"

definition emptyTokens :: Tokens where
  "emptyTokens = \<lparr>ProfileID = uuid_nil, tk_Name = '''', MojangAccessToken = '''', MojangExpiresAt = zeroTime, MsRefreshToken = ''''\<rparr>"

subsection \<open>Files\<close>

datatype nonce_header = NoNonce | BadNonce | Nonce bytes

record pem_block =
  pb_Type :: string
  pb_Cipher :: string
  pb_Nonce :: nonce_header
  pb_Bytes :: string

text \<open>A file holds PEM blocks or another text.\<close>

datatype content = Pem "pem_block list" | Plain string

type_synonym disk = "string \<rightharpoonup> content"

fun pem_blocks :: "content \<Rightarrow> pem_block list" where
  "pem_blocks (Pem bs) = bs"
| "pem_blocks (Plain s) = []"

text \<open>A write succeeds, is refused, or fails half-way and leaves another content.\<close>

datatype write_outcome = WriteOk | WriteRefused | WriteTorn content

record auth_env =
  au_answer :: "auth_request list \<Rightarrow> auth_answer"
  au_took :: "auth_request list \<Rightarrow> nat"
  au_json :: "string \<Rightarrow> json option"
  au_json_text :: "json \<Rightarrow> string"
  au_uuid :: "string \<Rightarrow> uuid option"
  au_uuid_text :: "uuid \<Rightarrow> string"
  au_time :: "string \<Rightarrow> int option"
  au_time_text :: "int \<Rightarrow> string"
  au_readable :: "string \<Rightarrow> bool"
  au_write :: "string \<Rightarrow> write_outcome"
  au_removable :: "string \<Rightarrow> bool"
  au_mkdir :: bool
  au_machine_id :: "string option"
  au_nonce :: "bytes option"
  au_seal :: "bytes \<Rightarrow> bytes \<Rightarrow> string \<Rightarrow> string"
  au_open :: "bytes \<Rightarrow> bytes \<Rightarrow> string \<Rightarrow> string option"

subsection \<open>Requests\<close>

record AuthNet =
  net_log :: "auth_request list"
  net_now :: int

definition exchange :: "auth_env \<Rightarrow> auth_request \<Rightarrow> AuthNet \<Rightarrow> auth_answer \<times> AuthNet" where
  "exchange e r n =
     (let l = net_log n @ [r] in (au_answer e l, n\<lparr>net_log := l, net_now := net_now n + 1 + int (au_took e l)\<rparr>))"

definition clientID :: string where "clientID = ''00000000402b5328''"
definition scope :: string where "scope = ''service::user.auth.xboxlive.com::MBI_SSL''"
definition deviceCodeURL :: string where "deviceCodeURL = ''https://login.live.com/oauth20_connect.srf''"
definition tokenURL :: string where "tokenURL = ''https://login.live.com/oauth20_token.srf''"
definition xblURL :: string where "xblURL = ''https://user.auth.xboxlive.com/user/authenticate''"
definition xstsURL :: string where "xstsURL = ''https://xsts.auth.xboxlive.com/xsts/authorize''"
definition mojangLogin :: string where
  "mojangLogin = ''https://api.minecraftservices.com/authentication/login_with_xbox''"
definition mcProfileURL :: string where "mcProfileURL = ''https://api.minecraftservices.com/minecraft/profile''"

definition postForm :: "auth_env \<Rightarrow> string \<Rightarrow> (string \<times> string) list \<Rightarrow> AuthNet \<Rightarrow> auth_answer \<times> AuthNet" where
  "postForm e endpoint form n = exchange e (FormPost endpoint form) n"

text \<open>\<^verbatim>\<open>time.Duration(x) * time.Second\<close> for a JSON number x: a 64-bit product of the truncated value.\<close>

definition seconds :: "rat \<Rightarrow> int64" where
  "seconds x = of_int (trunc x) * 1000000000"

text \<open>\<^verbatim>\<open>json.Unmarshal\<close> into a \<^verbatim>\<open>map[string]any\<close>.\<close>

definition unmarshalMap :: "auth_env \<Rightarrow> string \<Rightarrow> payload option" where
  "unmarshalMap e body = Option.bind (au_json e body) unmarshalPayload"

subsection \<open>Device code\<close>

definition StartDeviceCode :: "auth_env \<Rightarrow> AuthNet \<Rightarrow> (auth_error + DeviceCodePrompt) \<times> AuthNet" where
  "StartDeviceCode e n =
     (case postForm e deviceCodeURL [(''client_id'', clientID), (''scope'', scope), (''response_type'', ''device_code'')] n of
        (AuthNetErr err, n1) \<Rightarrow> (Inl (StageError ''device-code'' (NetCause err)), n1)
      | (AuthResp status body, n1) \<Rightarrow>
          if status \<noteq> 200 then (Inl (StatusError ''device-code'' status body), n1)
          else (case unmarshalMap e body of
                  None \<Rightarrow> (Inl (StageError ''device-code'' JsonCause), n1)
                | Some j \<Rightarrow>
                    let userCode = jstr ''user_code'' j;
                        verifyURI = (if jstr ''verification_uri'' j = '''' then jstr ''verification_url'' j
                                     else jstr ''verification_uri'' j);
                        msg = (if jstr ''message'' j = '''' then ''Visit '' @ verifyURI @ '' and enter '' @ userCode
                               else jstr ''message'' j)
                    in (Inr \<lparr>UserCode = userCode, VerificationURI = verifyURI, dp_Message = msg,
                             DeviceCode = jstr ''device_code'' j, ExpiresIn = seconds (jnum ''expires_in'' j),
                             Interval = seconds (jnum ''interval'' j)\<rparr>, n1)))"

definition pollForm :: "DeviceCodePrompt \<Rightarrow> (string \<times> string) list" where
  "pollForm prompt =
     [(''grant_type'', ''urn:ietf:params:oauth:grant-type:device_code''), (''client_id'', clientID),
      (''device_code'', DeviceCode prompt)]"

definition msToken :: "payload \<Rightarrow> int \<Rightarrow> MsToken" where
  "msToken j now =
     \<lparr>ms_AccessToken = jstr ''access_token'' j, ms_RefreshToken = jstr ''refresh_token'' j,
      ms_ExpiresAt = now + sint (seconds (jnum ''expires_in'' j))\<rparr>"

text \<open>\<^verbatim>\<open>time.Sleep\<close> of a duration that is not positive returns at once.\<close>

definition sleep :: "int64 \<Rightarrow> AuthNet \<Rightarrow> AuthNet" where
  "sleep d n = n\<lparr>net_now := net_now n + max 0 (sint d)\<rparr>"

lemma polled_later: "(a, n1) = postForm e u form (sleep d n) \<Longrightarrow> net_now n < net_now n1"
  by (auto simp: postForm_def exchange_def sleep_def Let_def)

function (sequential) pollLoop ::
    "auth_env \<Rightarrow> DeviceCodePrompt \<Rightarrow> int \<Rightarrow> int64 \<Rightarrow> AuthNet \<Rightarrow> (auth_error + MsToken) \<times> AuthNet" where
  "pollLoop e prompt deadline interval n =
     (if net_now n < deadline
      then (case postForm e tokenURL (pollForm prompt) (sleep interval n) of
              (AuthNetErr err, n1) \<Rightarrow> (Inl (StageError ''device-poll'' (NetCause err)), n1)
            | (AuthResp status body, n1) \<Rightarrow>
                let j = (case unmarshalMap e body of None \<Rightarrow> [] | Some m \<Rightarrow> m)
                in if status = 200 then (Inr (msToken j (net_now n1)), n1)
                   else let errCode = jstr ''error'' j
                        in if errCode = ''authorization_pending'' then pollLoop e prompt deadline interval n1
                           else if errCode = ''slow_down'' then pollLoop e prompt deadline (interval + 5000000000) n1
                           else if errCode = ''expired_token'' \<or> errCode = ''expired_device_code''
                           then (Inl (StageError ''device-poll'' (TextCause ''device code expired'')), n1)
                           else if errCode = ''authorization_declined''
                           then (Inl (StageError ''device-poll'' (TextCause ''user declined'')), n1)
                           else (Inl (StatusError ''device-poll'' status body), n1))
      else (Inl (StageError ''device-poll'' (TextCause ''timed out'')), n))"
  by pat_completeness auto
termination
  by (relation "measure (\<lambda>(e, prompt, deadline, interval, n). nat (deadline - net_now n))")
    (auto dest: polled_later)

declare pollLoop.simps [simp del]

definition PollForMsToken :: "auth_env \<Rightarrow> DeviceCodePrompt \<Rightarrow> AuthNet \<Rightarrow> (auth_error + MsToken) \<times> AuthNet" where
  "PollForMsToken e prompt n = pollLoop e prompt (net_now n + sint (ExpiresIn prompt)) (Interval prompt) n"

definition RefreshMsToken :: "auth_env \<Rightarrow> string \<Rightarrow> AuthNet \<Rightarrow> (auth_error + MsToken) \<times> AuthNet" where
  "RefreshMsToken e refreshToken n =
     (case postForm e tokenURL [(''grant_type'', ''refresh_token''), (''client_id'', clientID),
                                (''refresh_token'', refreshToken), (''scope'', scope)] n of
        (AuthNetErr err, n1) \<Rightarrow> (Inl (StageError ''ms-refresh'' (NetCause err)), n1)
      | (AuthResp status body, n1) \<Rightarrow>
          if status \<noteq> 200 then (Inl (StatusError ''ms-refresh'' status body), n1)
          else (case unmarshalMap e body of
                  None \<Rightarrow> (Inl (StageError ''ms-refresh'' JsonCause), n1)
                | Some j \<Rightarrow> (Inr (msToken j (net_now n1)), n1)))"

subsection \<open>Xbox and Mojang\<close>

record xblAuth =
  xa_Token :: string
  UserHash :: string

definition describeXErr :: "int \<Rightarrow> string" where
  "describeXErr x =
     (if x = 0x8015DC04 \<or> x = 0x8015DC09 then ''child account; must be added to a Family''
      else if x = 0x8015DC0E then ''account not linked to Xbox profile''
      else ''see Xbox XErr documentation'')"

text \<open>\<^verbatim>\<open>j[k].(map[string]any)\<close> and \<^verbatim>\<open>j[k].([]any)\<close>, empty when the member has another type.\<close>

definition jobj :: "string \<Rightarrow> payload \<Rightarrow> payload" where
  "jobj k m = (case jget k m of Some (JObj o') \<Rightarrow> o' | _ \<Rightarrow> [])"

definition jarr :: "string \<Rightarrow> payload \<Rightarrow> json list" where
  "jarr k m = (case jget k m of Some (JArr vs) \<Rightarrow> vs | _ \<Rightarrow> [])"

definition doXboxRequest :: "auth_env \<Rightarrow> string \<Rightarrow> payload \<Rightarrow> string \<Rightarrow> AuthNet \<Rightarrow> (auth_error + xblAuth) \<times> AuthNet" where
  "doXboxRequest e endpoint body stage n =
     (case exchange e (JsonPost endpoint (JObj body)) n of
        (AuthNetErr err, n1) \<Rightarrow> (Inl (StageError stage (NetCause err)), n1)
      | (AuthResp status raw, n1) \<Rightarrow>
          if status = 401 \<and> endpoint = xstsURL
          then let j = (case unmarshalMap e raw of None \<Rightarrow> [] | Some m \<Rightarrow> m);
                   xerr = sint (of_int (trunc (jnum ''XErr'' j)) :: int64)
               in (Inl (StageError stage (XErrCause xerr (describeXErr xerr))), n1)
          else if status \<noteq> 200 then (Inl (StatusError stage status raw), n1)
          else (case unmarshalMap e raw of
                  None \<Rightarrow> (Inl (StageError stage JsonCause), n1)
                | Some j \<Rightarrow>
                    (case jarr ''xui'' (jobj ''DisplayClaims'' j) of
                       [] \<Rightarrow> (Inl (StageError stage (TextCause ''missing DisplayClaims.xui'')), n1)
                     | first # _ \<Rightarrow>
                         (Inr \<lparr>xa_Token = jstr ''Token'' j,
                               UserHash = (case first of JObj m \<Rightarrow> jstr ''uhs'' m | _ \<Rightarrow> '''')\<rparr>, n1))))"

definition xboxLive :: "auth_env \<Rightarrow> string \<Rightarrow> AuthNet \<Rightarrow> (auth_error + xblAuth) \<times> AuthNet" where
  "xboxLive e msAccess n =
     doXboxRequest e xblURL
       [(''Properties'', JObj [(''AuthMethod'', JStr ''RPS''), (''RpsTicket'', JStr msAccess),
                               (''SiteName'', JStr ''user.auth.xboxlive.com'')]),
        (''RelyingParty'', JStr ''http://auth.xboxlive.com''), (''TokenType'', JStr ''JWT'')] ''xbl'' n"

definition xsts :: "auth_env \<Rightarrow> string \<Rightarrow> AuthNet \<Rightarrow> (auth_error + xblAuth) \<times> AuthNet" where
  "xsts e xblToken n =
     doXboxRequest e xstsURL
       [(''Properties'', JObj [(''SandboxId'', JStr ''RETAIL''), (''UserTokens'', JArr [JStr xblToken])]),
        (''RelyingParty'', JStr ''rp://api.minecraftservices.com/''), (''TokenType'', JStr ''JWT'')] ''xsts'' n"

definition fetchProfile :: "auth_env \<Rightarrow> string \<Rightarrow> AuthNet \<Rightarrow> (auth_error + uuid \<times> string) \<times> AuthNet" where
  "fetchProfile e mojangToken n =
     (case exchange e (ProfileGet mcProfileURL (''Bearer '' @ mojangToken)) n of
        (AuthNetErr err, n1) \<Rightarrow> (Inl (StageError ''mc-profile'' (NetCause err)), n1)
      | (AuthResp status raw, n1) \<Rightarrow>
          if status \<noteq> 200 then (Inl (StatusError ''mc-profile'' status raw), n1)
          else (case unmarshalMap e raw of
                  None \<Rightarrow> (Inl (StageError ''mc-profile'' JsonCause), n1)
                | Some j \<Rightarrow>
                    (case ParseUndashed (au_uuid e) (jstr ''id'' j) of
                       None \<Rightarrow> (Inl (StageError ''mc-profile'' UuidCause), n1)
                     | Some i \<Rightarrow> (Inr (i, jstr ''name'' j), n1))))"

definition loginWithXbox :: "auth_env \<Rightarrow> MsToken \<Rightarrow> xblAuth \<Rightarrow> AuthNet \<Rightarrow> (auth_error + Tokens) \<times> AuthNet" where
  "loginWithXbox e ms x n =
     (case exchange e (JsonPost mojangLogin (JObj [(''identityToken'', JStr (''XBL3.0 x='' @ UserHash x @ '';'' @ xa_Token x))])) n of
        (AuthNetErr err, n1) \<Rightarrow> (Inl (StageError ''mojang-login'' (NetCause err)), n1)
      | (AuthResp status raw, n1) \<Rightarrow>
          if status \<noteq> 200 then (Inl (StatusError ''mojang-login'' status raw), n1)
          else (case unmarshalMap e raw of
                  None \<Rightarrow> (Inl (StageError ''mojang-login'' JsonCause), n1)
                | Some j \<Rightarrow>
                    (case fetchProfile e (jstr ''access_token'' j) n1 of
                       (Inl err, n2) \<Rightarrow> (Inl err, n2)
                     | (Inr (i, name), n2) \<Rightarrow>
                         (Inr \<lparr>ProfileID = i, tk_Name = name, MojangAccessToken = jstr ''access_token'' j,
                               MojangExpiresAt = net_now n2 + sint (seconds (jnum ''expires_in'' j)),
                               MsRefreshToken = ms_RefreshToken ms\<rparr>, n2))))"

definition ExchangeForMojang :: "auth_env \<Rightarrow> MsToken \<Rightarrow> AuthNet \<Rightarrow> (auth_error + Tokens) \<times> AuthNet" where
  "ExchangeForMojang e ms n =
     (case xboxLive e (ms_AccessToken ms) n of
        (Inl err, n1) \<Rightarrow> (Inl err, n1)
      | (Inr xbl, n1) \<Rightarrow>
          (case xsts e (xa_Token xbl) n1 of
             (Inl err, n2) \<Rightarrow> (Inl err, n2)
           | (Inr x, n2) \<Rightarrow> loginWithXbox e ms x n2))"

definition SilentRefresh :: "auth_env \<Rightarrow> string \<Rightarrow> AuthNet \<Rightarrow> (auth_error + Tokens) \<times> AuthNet" where
  "SilentRefresh e refreshToken n =
     (case RefreshMsToken e refreshToken n of
        (Inl err, n1) \<Rightarrow> (Inl err, n1)
      | (Inr ms, n1) \<Rightarrow> ExchangeForMojang e ms n1)"

subsection \<open>Credentials file\<close>

definition pemType :: string where "pemType = ''OPENFRIEND CREDENTIALS''"
definition cipherMachineBound :: string where "cipherMachineBound = ''AES-256-GCM-MachineBound''"

datatype store_error =
    ReadError | NoBlock | UnsupportedCipher string | MissingNonce | InvalidNonce | ErrWrongMachine | TokensJson
  | MkdirError | WriteError

definition hex_val :: "char \<Rightarrow> nat option" where
  "hex_val ch =
     (let c = (of_char ch :: nat)
      in if 48 \<le> c \<and> c \<le> 57 then Some (c - 48)
         else if 97 \<le> c \<and> c \<le> 102 then Some (c - 87)
         else if 65 \<le> c \<and> c \<le> 70 then Some (c - 55)
         else None)"

fun hex_decode :: "string \<Rightarrow> bytes option" where
  "hex_decode [] = Some []"
| "hex_decode [ch] = None"
| "hex_decode (a # b # s) =
     (case (hex_val a, hex_val b, hex_decode s) of
        (Some x, Some y, Some r) \<Rightarrow> Some (of_nat (16 * x + y) # r)
      | _ \<Rightarrow> None)"

definition machineKey :: "auth_env \<Rightarrow> bytes option" where
  "machineKey e =
     (case Option.bind (au_machine_id e) hex_decode of
        None \<Rightarrow> None
      | Some raw \<Rightarrow> if length raw < 32 then None else Some (take 32 raw))"

text \<open>GCM's nonce has twelve bytes; \<^verbatim>\<open>Seal\<close> and \<^verbatim>\<open>Open\<close> panic on another length.\<close>

definition encryptMachineBound :: "auth_env \<Rightarrow> string \<Rightarrow> pem_block option" where
  "encryptMachineBound e plaintext =
     (case (machineKey e, au_nonce e) of
        (Some key, Some nonce) \<Rightarrow>
          Some \<lparr>pb_Type = pemType, pb_Cipher = cipherMachineBound, pb_Nonce = Nonce nonce,
                pb_Bytes = au_seal e key nonce plaintext\<rparr>
      | _ \<Rightarrow> None)"

text \<open>\<^verbatim>\<open>None\<close> is a panic, here and in what follows.\<close>

definition decryptMachineBound :: "auth_env \<Rightarrow> pem_block \<Rightarrow> (store_error + string) option" where
  "decryptMachineBound e block =
     (case pb_Nonce block of
        NoNonce \<Rightarrow> Some (Inl MissingNonce)
      | BadNonce \<Rightarrow> Some (Inl InvalidNonce)
      | Nonce nonce \<Rightarrow>
          (case machineKey e of
             None \<Rightarrow> Some (Inl ErrWrongMachine)
           | Some key \<Rightarrow>
               if length nonce \<noteq> 12 then None
               else (case au_open e key nonce (pb_Bytes block) of
                       None \<Rightarrow> Some (Inl ErrWrongMachine)
                     | Some plain \<Rightarrow> Some (Inr plain))))"

text \<open>A field whose type reads a JSON string; null leaves it alone.\<close>

definition parsedField :: "(string \<Rightarrow> 'a option) \<Rightarrow> 'a \<Rightarrow> json list \<Rightarrow> 'a option" where
  "parsedField p z vs =
     fold (\<lambda>v acc. case (v, acc) of (JStr s, Some _) \<Rightarrow> p s | (JNull, _) \<Rightarrow> acc | _ \<Rightarrow> None) vs (Some z)"

definition tokensJson :: "auth_env \<Rightarrow> Tokens \<Rightarrow> json" where
  "tokensJson e t =
     JObj [(''profileId'', JStr (au_uuid_text e (ProfileID t))), (''name'', JStr (tk_Name t)),
           (''mojangAccessToken'', JStr (MojangAccessToken t)),
           (''mojangExpiresAt'', JStr (au_time_text e (MojangExpiresAt t))),
           (''msRefreshToken'', JStr (MsRefreshToken t))]"

definition decodeTokens :: "auth_env \<Rightarrow> json \<Rightarrow> Tokens option" where
  "decodeTokens e v =
     (case unmarshalPayload v of
        None \<Rightarrow> None
      | Some m \<Rightarrow>
          (case (parsedField (au_uuid e) uuid_nil (jfields ''profileId'' m), strField (jfields ''name'' m),
                 strField (jfields ''mojangAccessToken'' m),
                 parsedField (au_time e) zeroTime (jfields ''mojangExpiresAt'' m),
                 strField (jfields ''msRefreshToken'' m)) of
             (Some i, Some name, Some access, Some expires, Some refresh) \<Rightarrow>
               Some \<lparr>ProfileID = i, tk_Name = name, MojangAccessToken = access, MojangExpiresAt = expires,
                     MsRefreshToken = refresh\<rparr>
           | _ \<Rightarrow> None))"

definition writeFile :: "auth_env \<Rightarrow> string \<Rightarrow> content \<Rightarrow> disk \<Rightarrow> store_error option \<times> disk" where
  "writeFile e path c d =
     (case au_write e path of
        WriteOk \<Rightarrow> (None, d(path \<mapsto> c))
      | WriteRefused \<Rightarrow> (Some WriteError, d)
      | WriteTorn c' \<Rightarrow> (Some WriteError, d(path \<mapsto> c')))"

definition removeFile :: "auth_env \<Rightarrow> string \<Rightarrow> disk \<Rightarrow> disk" where
  "removeFile e path d = (if au_removable e path then d(path := None) else d)"

definition legacyPath :: "string \<Rightarrow> string" where
  "legacyPath path = (if suffix ''.pem'' path then take (length path - 4) path @ ''.json'' else '''')"

definition Store_Save :: "auth_env \<Rightarrow> string \<Rightarrow> Tokens \<Rightarrow> disk \<Rightarrow> store_error option \<times> disk" where
  "Store_Save e path t d =
     (if \<not> au_mkdir e then (Some MkdirError, d)
      else let body = au_json_text e (tokensJson e t);
               block = (case encryptMachineBound e body of
                          Some enc \<Rightarrow> enc
                        | None \<Rightarrow> \<lparr>pb_Type = pemType, pb_Cipher = '''', pb_Nonce = NoNonce, pb_Bytes = body\<rparr>)
           in writeFile e path (Pem [block]) d)"

definition unmarshalTokens :: "auth_env \<Rightarrow> string \<Rightarrow> store_error + Tokens" where
  "unmarshalTokens e body =
     (case Option.bind (au_json e body) (decodeTokens e) of None \<Rightarrow> Inl TokensJson | Some t \<Rightarrow> Inr t)"

definition parsePEM :: "auth_env \<Rightarrow> content \<Rightarrow> (store_error + Tokens) option" where
  "parsePEM e raw =
     (case find (\<lambda>b. pb_Type b = pemType) (pem_blocks raw) of
        None \<Rightarrow> Some (Inl NoBlock)
      | Some block \<Rightarrow>
          if pb_Cipher block = cipherMachineBound
          then (case decryptMachineBound e block of
                  None \<Rightarrow> None
                | Some (Inl err) \<Rightarrow> Some (Inl err)
                | Some (Inr plain) \<Rightarrow> Some (unmarshalTokens e plain))
          else if pb_Cipher block \<noteq> '''' then Some (Inl (UnsupportedCipher (pb_Cipher block)))
          else Some (unmarshalTokens e (pb_Bytes block)))"

fun parseLegacyJSON :: "auth_env \<Rightarrow> content \<Rightarrow> store_error + Tokens" where
  "parseLegacyJSON e (Plain s) = unmarshalTokens e s"
| "parseLegacyJSON e (Pem bs) = Inl TokensJson"

definition Store_Load :: "auth_env \<Rightarrow> string \<Rightarrow> disk \<Rightarrow> ((store_error + Tokens option) \<times> disk) option" where
  "Store_Load e path d =
     (case d path of
        Some raw \<Rightarrow>
          if \<not> au_readable e path then Some (Inl ReadError, d)
          else (case parsePEM e raw of
                  None \<Rightarrow> None
                | Some (Inl err) \<Rightarrow> Some (Inl err, d)
                | Some (Inr t) \<Rightarrow> Some (Inr (Some t), d))
      | None \<Rightarrow>
          let legacy = legacyPath path
          in if legacy = '''' then Some (Inr None, d)
             else (case d legacy of
                     None \<Rightarrow> Some (Inr None, d)
                   | Some raw \<Rightarrow>
                       if \<not> au_readable e legacy then Some (Inr None, d)
                       else (case parseLegacyJSON e raw of
                               Inl err \<Rightarrow> Some (Inl err, d)
                             | Inr t \<Rightarrow>
                                 (case Store_Save e path t d of
                                    (None, d1) \<Rightarrow> Some (Inr (Some t), removeFile e legacy d1)
                                  | (Some _, d1) \<Rightarrow> Some (Inr (Some t), d1)))))"

subsection \<open>Session\<close>

text \<open>
  \<^verbatim>\<open>se_prompts\<close> records what \<^verbatim>\<open>onPrompt\<close> was given. \<^verbatim>\<open>EnsureFresh\<close> and \<^verbatim>\<open>EnsureFreshSilent\<close> read the tokens, unlock,
  and lock again to refresh; \<^verbatim>\<open>EnsureFresh_from\<close> and \<^verbatim>\<open>EnsureFreshSilent_from\<close> are what follows the first unlock,
  with the tokens read before it, so that another goroutine may run in between.
\<close>

record AuthSession =
  se_path :: string
  se_onPrompt :: bool
  se_tokens :: "Tokens option"
  se_disk :: disk
  se_net :: AuthNet
  se_prompts :: "DeviceCodePrompt list"

definition refreshMargin :: int where "refreshMargin = 5 * 60 * 1000000000"

definition NewAuthSession :: "string \<Rightarrow> bool \<Rightarrow> disk \<Rightarrow> AuthNet \<Rightarrow> AuthSession" where
  "NewAuthSession path prompt d n =
     \<lparr>se_path = path, se_onPrompt = prompt, se_tokens = None, se_disk = d, se_net = n, se_prompts = []\<rparr>"

definition save :: "auth_env \<Rightarrow> Tokens \<Rightarrow> AuthSession \<Rightarrow> AuthSession" where
  "save e t s = s\<lparr>se_disk := snd (Store_Save e (se_path s) t (se_disk s))\<rparr>"

definition keep :: "auth_env \<Rightarrow> Tokens \<Rightarrow> AuthSession \<Rightarrow> AuthSession" where
  "keep e t s = save e t (s\<lparr>se_tokens := Some t\<rparr>)"

definition deviceCode :: "auth_env \<Rightarrow> AuthSession \<Rightarrow> (auth_error + Tokens) \<times> AuthSession" where
  "deviceCode e s =
     (case StartDeviceCode e (se_net s) of
        (Inl err, n1) \<Rightarrow> (Inl err, s\<lparr>se_net := n1\<rparr>)
      | (Inr prompt, n1) \<Rightarrow>
          let s1 = s\<lparr>se_net := n1, se_prompts := (if se_onPrompt s then se_prompts s @ [prompt] else se_prompts s)\<rparr>
          in (case PollForMsToken e prompt n1 of
                (Inl err, n2) \<Rightarrow> (Inl err, s1\<lparr>se_net := n2\<rparr>)
              | (Inr ms, n2) \<Rightarrow>
                  let s2 = save e (emptyTokens\<lparr>MsRefreshToken := ms_RefreshToken ms\<rparr>) (s1\<lparr>se_net := n2\<rparr>)
                  in (case ExchangeForMojang e ms n2 of
                        (Inl err, n3) \<Rightarrow> (Inl err, s2\<lparr>se_net := n3\<rparr>)
                      | (Inr t, n3) \<Rightarrow> (Inr t, keep e t (s2\<lparr>se_net := n3\<rparr>)))))"

definition silently :: "auth_env \<Rightarrow> string \<Rightarrow> AuthSession \<Rightarrow> (auth_error + Tokens) \<times> AuthSession" where
  "silently e refreshToken s =
     (case SilentRefresh e refreshToken (se_net s) of
        (Inl err, n1) \<Rightarrow> (Inl err, s\<lparr>se_net := n1\<rparr>)
      | (Inr t, n1) \<Rightarrow> (Inr t, keep e t (s\<lparr>se_net := n1\<rparr>)))"

definition Authenticate :: "auth_env \<Rightarrow> AuthSession \<Rightarrow> ((auth_error + Tokens) \<times> AuthSession) option" where
  "Authenticate e s =
     (case Store_Load e (se_path s) (se_disk s) of
        None \<Rightarrow> None
      | Some (saved, d1) \<Rightarrow>
          let s1 = s\<lparr>se_disk := d1\<rparr>
          in (case saved of
                Inr (Some t) \<Rightarrow>
                  if MsRefreshToken t \<noteq> ''''
                  then (case silently e (MsRefreshToken t) s1 of
                          (Inr t', s2) \<Rightarrow> Some (Inr t', s2)
                        | (Inl err, s2) \<Rightarrow> Some (deviceCode e s2))
                  else Some (deviceCode e s1)
              | _ \<Rightarrow> Some (deviceCode e s1)))"

definition SetMojangSession :: "string \<Rightarrow> uuid \<Rightarrow> string \<Rightarrow> int \<Rightarrow> AuthSession \<Rightarrow> AuthSession" where
  "SetMojangSession accessToken profileID name expiresAt s =
     s\<lparr>se_tokens := Some \<lparr>ProfileID = profileID, tk_Name = name, MojangAccessToken = accessToken,
                          MojangExpiresAt = expiresAt, MsRefreshToken = ''''\<rparr>\<rparr>"

definition CurrentProfileID :: "AuthSession \<Rightarrow> uuid" where
  "CurrentProfileID s = (case se_tokens s of None \<Rightarrow> uuid_nil | Some t \<Rightarrow> ProfileID t)"

definition Session_ResetCache :: "auth_env \<Rightarrow> AuthSession \<Rightarrow> AuthSession" where
  "Session_ResetCache e s = save e emptyTokens (s\<lparr>se_tokens := None\<rparr>)"

definition fresh :: "int \<Rightarrow> Tokens \<Rightarrow> bool" where
  "fresh now t \<longleftrightarrow> now < MojangExpiresAt t - refreshMargin"

definition refreshLocked :: "auth_env \<Rightarrow> AuthSession \<Rightarrow> ((auth_error + Tokens) \<times> AuthSession) option" where
  "refreshLocked e s =
     (case se_tokens s of
        None \<Rightarrow> None
      | Some t \<Rightarrow>
          if fresh (net_now (se_net s)) t then Some (Inr t, s)
          else Some (silently e (MsRefreshToken t) s))"

definition EnsureFreshSilent_from ::
    "auth_env \<Rightarrow> Tokens option \<Rightarrow> AuthSession \<Rightarrow> ((auth_error + Tokens) \<times> AuthSession) option" where
  "EnsureFreshSilent_from e read s =
     (case read of
        Some t \<Rightarrow> if fresh (net_now (se_net s)) t then Some (Inr t, s) else refreshLocked e s
      | None \<Rightarrow>
          (case Store_Load e (se_path s) (se_disk s) of
             None \<Rightarrow> None
           | Some (saved, d1) \<Rightarrow>
               let s1 = s\<lparr>se_disk := d1\<rparr>
               in (case saved of
                     Inr (Some t) \<Rightarrow>
                       if MsRefreshToken t = '''' then Some (Inl ErrNotAuthenticated, s1)
                       else Some (silently e (MsRefreshToken t) s1)
                   | _ \<Rightarrow> Some (Inl ErrNotAuthenticated, s1))))"

definition EnsureFreshSilent :: "auth_env \<Rightarrow> AuthSession \<Rightarrow> ((auth_error + Tokens) \<times> AuthSession) option" where
  "EnsureFreshSilent e s = EnsureFreshSilent_from e (se_tokens s) s"

definition EnsureFresh_from ::
    "auth_env \<Rightarrow> Tokens option \<Rightarrow> AuthSession \<Rightarrow> ((auth_error + Tokens) \<times> AuthSession) option" where
  "EnsureFresh_from e read s =
     (case read of
        None \<Rightarrow> Authenticate e s
      | Some t \<Rightarrow> if fresh (net_now (se_net s)) t then Some (Inr t, s) else refreshLocked e s)"

definition EnsureFresh :: "auth_env \<Rightarrow> AuthSession \<Rightarrow> ((auth_error + Tokens) \<times> AuthSession) option" where
  "EnsureFresh e s = EnsureFresh_from e (se_tokens s) s"

definition Current :: "auth_env \<Rightarrow> AuthSession \<Rightarrow> (string \<times> AuthSession) option" where
  "Current e s =
     (case EnsureFresh e s of
        None \<Rightarrow> None
      | Some (Inr t, s1) \<Rightarrow> Some (MojangAccessToken t, s1)
      | Some (Inl err, s1) \<Rightarrow>
          Some (case se_tokens s1 of Some t \<Rightarrow> MojangAccessToken t | None \<Rightarrow> '''', s1))"

definition RefreshNow :: "auth_env \<Rightarrow> AuthSession \<Rightarrow> string \<times> AuthSession" where
  "RefreshNow e s =
     (case se_tokens s of
        None \<Rightarrow> ('''', s)
      | Some t \<Rightarrow>
          (case silently e (MsRefreshToken t) s of
             (Inl err, s1) \<Rightarrow> (MojangAccessToken t, s1)
           | (Inr nt, s1) \<Rightarrow> (MojangAccessToken nt, s1)))"

definition CurrentTokens :: "AuthSession \<Rightarrow> Tokens option" where
  "CurrentTokens s = se_tokens s"

section \<open>The polling loop\<close>

text \<open>An answer after which the loop asks again, and one that grants the token.\<close>

definition errorCode :: "auth_env \<Rightarrow> string \<Rightarrow> string" where
  "errorCode e body = jstr ''error'' (case unmarshalMap e body of None \<Rightarrow> [] | Some m \<Rightarrow> m)"

fun waiting :: "auth_env \<Rightarrow> auth_answer \<Rightarrow> bool" where
  "waiting e (AuthNetErr err) = False"
| "waiting e (AuthResp status body) \<longleftrightarrow>
     status \<noteq> 200 \<and> (errorCode e body = ''authorization_pending'' \<or> errorCode e body = ''slow_down'')"

fun granted :: "auth_answer \<Rightarrow> bool" where
  "granted (AuthNetErr err) = False"
| "granted (AuthResp status body) \<longleftrightarrow> status = 200"

abbreviation poll_request :: "DeviceCodePrompt \<Rightarrow> auth_request" where
  "poll_request prompt \<equiv> FormPost tokenURL (pollForm prompt)"

definition poll_once :: "auth_env \<Rightarrow> DeviceCodePrompt \<Rightarrow> int64 \<Rightarrow> AuthNet \<Rightarrow> AuthNet" where
  "poll_once e prompt interval n = snd (exchange e (poll_request prompt) (sleep interval n))"

definition next_interval :: "auth_env \<Rightarrow> auth_answer \<Rightarrow> int64 \<Rightarrow> int64" where
  "next_interval e a interval =
     (case a of
        AuthResp status body \<Rightarrow> if errorCode e body = ''slow_down'' then interval + 5000000000 else interval
      | _ \<Rightarrow> interval)"

lemma poll_once_log: "net_log (poll_once e prompt interval n) = net_log n @ [poll_request prompt]"
  by (simp add: poll_once_def exchange_def sleep_def Let_def)

lemma poll_once_now: "net_now n + max 0 (sint interval) < net_now (poll_once e prompt interval n)"
  by (simp add: poll_once_def exchange_def sleep_def Let_def)

lemma pollLoop_expired: "\<not> net_now n < deadline \<Longrightarrow>
    pollLoop e prompt deadline interval n = (Inl (StageError ''device-poll'' (TextCause ''timed out'')), n)"
  by (subst pollLoop.simps) simp

lemma pollLoop_waiting:
  assumes "net_now n < deadline" and "waiting e (au_answer e (net_log n @ [poll_request prompt]))"
  shows "pollLoop e prompt deadline interval n =
     pollLoop e prompt deadline (next_interval e (au_answer e (net_log n @ [poll_request prompt])) interval)
       (poll_once e prompt interval n)"
  using assms
  by (subst pollLoop.simps)
    (cases "au_answer e (net_log n @ [poll_request prompt])",
     auto simp: postForm_def exchange_def Let_def sleep_def errorCode_def poll_once_def next_interval_def)

lemma pollLoop_ends:
  assumes "net_now n < deadline" and "\<not> waiting e (au_answer e (net_log n @ [poll_request prompt]))"
  shows "snd (pollLoop e prompt deadline interval n) = poll_once e prompt interval n \<and>
    (isl (fst (pollLoop e prompt deadline interval n)) \<longleftrightarrow>
       \<not> granted (au_answer e (net_log n @ [poll_request prompt])))"
  using assms
  by (subst pollLoop.simps, subst (2) pollLoop.simps)
    (cases "au_answer e (net_log n @ [poll_request prompt])",
     auto simp: postForm_def exchange_def Let_def sleep_def errorCode_def poll_once_def)

text \<open>
  What the loop does: \<^verbatim>\<open>r\<close> polls, all but the last answered with a request to wait, each preceded by at least
  \<^verbatim>\<open>least\<close> nanoseconds of sleep and none begun after the deadline.
\<close>

definition polls ::
    "auth_env \<Rightarrow> DeviceCodePrompt \<Rightarrow> int \<Rightarrow> int \<Rightarrow> AuthNet \<Rightarrow> (auth_error + MsToken) \<times> AuthNet \<Rightarrow> nat \<Rightarrow> bool" where
  "polls e prompt deadline least n result r \<longleftrightarrow>
     net_log (snd result) = net_log n @ replicate r (poll_request prompt) \<and>
     (0 < r \<longrightarrow> net_now n + (int r - 1) * least < deadline) \<and>
     (\<forall>k\<in>{1..<r}. waiting e (au_answer e (net_log n @ replicate k (poll_request prompt)))) \<and>
     (\<not> isl (fst result) \<longleftrightarrow> 0 < r \<and> granted (au_answer e (net_log n @ replicate r (poll_request prompt))))"

lemma polls_none: "isl (fst result) \<Longrightarrow> net_log (snd result) = net_log n \<Longrightarrow> polls e prompt deadline least n result 0"
  by (simp add: polls_def)

lemma polls_Suc:
  assumes "polls e prompt deadline least n1 result r" and "net_log n1 = net_log n @ [poll_request prompt]"
    and "net_now n + least \<le> net_now n1" and "net_now n < deadline"
    and "waiting e (au_answer e (net_log n @ [poll_request prompt]))"
    and "0 < r \<or> isl (fst result)"
  shows "polls e prompt deadline least n result (Suc r)"
proof -
  have rep: "net_log n @ replicate (Suc k) (poll_request prompt) = net_log n1 @ replicate k (poll_request prompt)" for k
    using assms(2) by simp
  have ng: "\<not> granted a" if "waiting e a" for a
    using that by (cases a) auto
  have "waiting e (au_answer e (net_log n @ replicate k (poll_request prompt)))" if "k \<in> {1..<Suc r}" for k
  proof -
    from that obtain m where k: "k = Suc m" and "m < r" by (cases k) auto
    then have "m = 0 \<or> m \<in> {1..<r}" by auto
    then have "waiting e (au_answer e (net_log n1 @ replicate m (poll_request prompt)))"
      using assms(1,2,5) by (auto simp: polls_def)
    then show ?thesis using assms(2) k by simp
  qed
  moreover have "net_now n + (int (Suc r) - 1) * least < deadline"
    using assms(1,3,4) by (cases r) (auto simp: polls_def algebra_simps)
  moreover have "\<not> isl (fst result) \<longleftrightarrow> granted (au_answer e (net_log n @ replicate (Suc r) (poll_request prompt)))"
    using assms(1,2,5,6) ng by (cases r) (auto simp: polls_def)
  moreover have "net_log (snd result) = net_log n @ replicate (Suc r) (poll_request prompt)"
    using assms(1,2) by (simp add: polls_def)
  ultimately show ?thesis unfolding polls_def by simp
qed

lemma pollLoop_polls:
  "\<lbrakk>least \<le> sint interval; 0 < least; deadline - net_now n \<le> 2 ^ 62\<rbrakk> \<Longrightarrow>
   \<exists>r. polls e prompt deadline least n (pollLoop e prompt deadline interval n) r"
proof (induction "nat (deadline - net_now n)" arbitrary: interval n rule: less_induct)
  case less
  let ?a = "au_answer e (net_log n @ [poll_request prompt])"
  let ?n = "poll_once e prompt interval n"
  show ?case
  proof (cases "net_now n < deadline")
    case False
    then show ?thesis by (auto simp: pollLoop_expired intro!: exI[of _ 0] polls_none)
  next
    case early: True
    have later: "net_now n + sint interval < net_now ?n"
      using poll_once_now[of n interval e prompt] less.prems by simp
    show ?thesis
    proof (cases "waiting e ?a")
      case False
      with early have "polls e prompt deadline least n (pollLoop e prompt deadline interval n) 1"
        by (simp add: polls_def pollLoop_ends poll_once_log)
      then show ?thesis ..
    next
      case True
      have "\<exists>r. polls e prompt deadline least ?n (pollLoop e prompt deadline (next_interval e ?a interval) ?n) r \<and>
              (0 < r \<or> isl (fst (pollLoop e prompt deadline (next_interval e ?a interval) ?n)))"
      proof (cases "net_now ?n < deadline")
        case False
        then show ?thesis by (auto simp: pollLoop_expired intro!: exI[of _ 0] polls_none)
      next
        case go: True
        have "sint interval + 5000000000 < 2 ^ 63"
          using later go less.prems(3) by simp
        then have "sint (interval + 5000000000) = sint interval + 5000000000"
          using less.prems(1,2) by (simp add: signed_take_bit_int_eq_self sint_word_ariths)
        then have "least \<le> sint (next_interval e ?a interval)"
          using less.prems(1) by (auto simp: next_interval_def split: auth_answer.split)
        then have "\<exists>r. polls e prompt deadline least ?n (pollLoop e prompt deadline (next_interval e ?a interval) ?n) r"
          using less.hyps[of ?n "next_interval e ?a interval"] later go less.prems by simp
        then show ?thesis by (fastforce simp: polls_def)
      qed
      then obtain r where "polls e prompt deadline least ?n (pollLoop e prompt deadline (next_interval e ?a interval) ?n) r"
        "0 < r \<or> isl (fst (pollLoop e prompt deadline (next_interval e ?a interval) ?n))" by blast
      then have "polls e prompt deadline least n (pollLoop e prompt deadline interval n) (Suc r)"
        unfolding pollLoop_waiting[OF early True]
        using polls_Suc[of e prompt deadline least ?n _ r n] later early True less.prems by (simp add: poll_once_log)
      then show ?thesis ..
    qed
  qed
qed

text \<open>
  C16. Waiting for the player to approve a device code always ends. With a positive interval
  and a lifetime of at most 2^62 ns the loop sends the same request some number r of times, fewer than
  lifetime/interval + 1; every answer but the last asked it to wait, and it returns a token exactly when the
  last answer has status 200. Slowing down never wraps the interval.
\<close>

theorem device_poll_paced:
  assumes "0 < sint (Interval prompt)" and "0 \<le> sint (ExpiresIn prompt)" and "sint (ExpiresIn prompt) \<le> 2 ^ 62"
    and "PollForMsToken e prompt n = (result, n1)"
  shows "\<exists>r. net_log n1 = net_log n @ replicate r (poll_request prompt) \<and>
     int r * sint (Interval prompt) < sint (ExpiresIn prompt) + sint (Interval prompt) \<and>
     (\<forall>k\<in>{1..<r}. waiting e (au_answer e (net_log n @ replicate k (poll_request prompt)))) \<and>
     ((\<exists>ms. result = Inr ms) \<longleftrightarrow> 0 < r \<and> granted (au_answer e (net_log n @ replicate r (poll_request prompt))))"
proof -
  obtain r where r: "polls e prompt (net_now n + sint (ExpiresIn prompt)) (sint (Interval prompt)) n (result, n1) r"
    using pollLoop_polls[of "sint (Interval prompt)" "Interval prompt" "net_now n + sint (ExpiresIn prompt)" n e prompt] assms
    by (auto simp: PollForMsToken_def)
  have "(\<exists>ms. result = Inr ms) \<longleftrightarrow> \<not> isl result"
    by (cases result) auto
  moreover have "int r * sint (Interval prompt) < sint (ExpiresIn prompt) + sint (Interval prompt)"
    using r assms(1,2) by (cases r) (auto simp: polls_def algebra_simps)
  ultimately show ?thesis
    using r by (intro exI[of _ r]) (simp add: polls_def)
qed

definition pending_env :: auth_env where
  "pending_env =
     \<lparr>au_answer = (\<lambda>l. if length l < 2 then AuthResp 400 ''w'' else AuthResp 200 ''g''), au_took = (\<lambda>l. 0),
      au_json = (\<lambda>s. if s = ''w'' then Some (JObj [(''error'', JStr ''slow_down'')])
                     else if s = ''g'' then Some (JObj [(''refresh_token'', JStr ''r'')]) else None),
      au_json_text = (\<lambda>j. ''''), au_uuid = (\<lambda>s. None), au_uuid_text = (\<lambda>u. ''''), au_time = (\<lambda>s. None),
      au_time_text = (\<lambda>t. ''''), au_readable = (\<lambda>p. True), au_write = (\<lambda>p. WriteOk), au_removable = (\<lambda>p. True),
      au_mkdir = True, au_machine_id = None, au_nonce = None, au_seal = (\<lambda>k n s. s), au_open = (\<lambda>k n s. Some s)\<rparr>"

definition sample_prompt :: DeviceCodePrompt where
  "sample_prompt =
     \<lparr>UserCode = ''U'', VerificationURI = ''V'', dp_Message = ''M'', DeviceCode = ''D'',
      ExpiresIn = 60000000000, Interval = 5000000000\<rparr>"

theorem device_poll_paced_witness:
  "\<exists>r. net_log (snd (PollForMsToken pending_env sample_prompt \<lparr>net_log = [], net_now = 0\<rparr>)) =
         replicate r (poll_request sample_prompt) \<and> int r * 5000000000 < 65000000000 \<and>
       (\<exists>ms. fst (PollForMsToken pending_env sample_prompt \<lparr>net_log = [], net_now = 0\<rparr>) = Inr ms)"
proof -
  have "\<not> isl (fst (PollForMsToken pending_env sample_prompt \<lparr>net_log = [], net_now = 0\<rparr>))"
    by code_simp
  then have "\<exists>ms. fst (PollForMsToken pending_env sample_prompt \<lparr>net_log = [], net_now = 0\<rparr>) = Inr ms"
    by (cases "fst (PollForMsToken pending_env sample_prompt \<lparr>net_log = [], net_now = 0\<rparr>)") auto
  then show ?thesis
    using device_poll_paced[of sample_prompt pending_env "\<lparr>net_log = [], net_now = 0\<rparr>",
        OF _ _ _ surjective_pairing] by (auto simp: sample_prompt_def)
qed

section \<open>The credentials file\<close>

text \<open>
  What the store promises to the session: tokens that were saved are loaded again. The parsers and the cipher
  are the argument's, so the promise is for those that read back what they wrote.
\<close>

locale token_store =
  fixes save_tokens :: "'e \<Rightarrow> string \<Rightarrow> 't \<Rightarrow> disk \<Rightarrow> 'x option \<times> disk"
    and load_tokens :: "'e \<Rightarrow> string \<Rightarrow> disk \<Rightarrow> (('x + 't option) \<times> disk) option"
    and reads_back :: "'e \<Rightarrow> string \<Rightarrow> 't \<Rightarrow> bool"
  assumes load_saved: "reads_back e path t \<Longrightarrow> save_tokens e path t d = (None, d') \<Longrightarrow>
            load_tokens e path d' = Some (Inr (Some t), d')"
begin

lemma save_overwrites:
  assumes "reads_back e path t" "reads_back e path t'" "save_tokens e path t d = (None, d')"
    and "save_tokens e path t' d' = (None, d'')"
  shows "load_tokens e path d'' = Some (Inr (Some t'), d'')"
  using assms load_saved by blast

end

definition reads_back :: "auth_env \<Rightarrow> string \<Rightarrow> Tokens \<Rightarrow> bool" where
  "reads_back e path t \<longleftrightarrow>
     au_readable e path \<and>
     au_json e (au_json_text e (tokensJson e t)) = Some (tokensJson e t) \<and>
     au_uuid e (au_uuid_text e (ProfileID t)) = Some (ProfileID t) \<and>
     au_time e (au_time_text e (MojangExpiresAt t)) = Some (MojangExpiresAt t) \<and>
     (case (machineKey e, au_nonce e) of
        (Some key, Some nonce) \<Rightarrow>
          length nonce = 12 \<and>
          au_open e key nonce (au_seal e key nonce (au_json_text e (tokensJson e t))) = Some (au_json_text e (tokensJson e t))
      | _ \<Rightarrow> True)"

lemma decodeTokens_tokensJson:
  assumes "au_uuid e (au_uuid_text e (ProfileID t)) = Some (ProfileID t)"
    and "au_time e (au_time_text e (MojangExpiresAt t)) = Some (MojangExpiresAt t)"
  shows "decodeTokens e (tokensJson e t) = Some t"
  using assms
  by (simp add: decodeTokens_def tokensJson_def unmarshalPayload_def jfields_def parsedField_def strField_def
      lower_char_def)

lemma unmarshalTokens_tokensJson:
  "reads_back e path t \<Longrightarrow> unmarshalTokens e (au_json_text e (tokensJson e t)) = Inr t"
  by (simp add: unmarshalTokens_def reads_back_def decodeTokens_tokensJson)

definition credentials_block :: "auth_env \<Rightarrow> Tokens \<Rightarrow> pem_block" where
  "credentials_block e t =
     (case encryptMachineBound e (au_json_text e (tokensJson e t)) of
        Some enc \<Rightarrow> enc
      | None \<Rightarrow> \<lparr>pb_Type = pemType, pb_Cipher = '''', pb_Nonce = NoNonce, pb_Bytes = au_json_text e (tokensJson e t)\<rparr>)"

lemma parsePEM_credentials:
  assumes "reads_back e path t"
  shows "parsePEM e (Pem [credentials_block e t]) = Some (Inr t)"
  using assms unmarshalTokens_tokensJson[OF assms]
  by (auto simp: parsePEM_def credentials_block_def encryptMachineBound_def decryptMachineBound_def reads_back_def
      cipherMachineBound_def split: option.splits)

lemma Store_Save_writes:
  "Store_Save e path t d = (None, d') \<longleftrightarrow>
     au_mkdir e \<and> au_write e path = WriteOk \<and> d' = d(path \<mapsto> Pem [credentials_block e t])"
  by (auto simp: Store_Save_def writeFile_def credentials_block_def Let_def split: write_outcome.splits)

lemma Store_Save_ok:
  "au_mkdir e \<Longrightarrow> au_write e path = WriteOk \<Longrightarrow>
     Store_Save e path t d = (None, d(path \<mapsto> Pem [credentials_block e t]))"
  by (simp add: Store_Save_writes)

interpretation store: token_store Store_Save Store_Load reads_back
  by unfold_locales (auto simp: Store_Save_writes Store_Load_def parsePEM_credentials reads_back_def[of _ path for path])

text \<open>
  C18. Tokens that were saved are loaded again on the same machine, encrypted or, where no
  machine key is available, in the clear; and a later save replaces them.
\<close>

theorem credentials_roundtrip:
  assumes "reads_back e path t" and "reads_back e path t'"
    and "Store_Save e path t d = (None, d1)" and "Store_Save e path t' d1 = (None, d2)"
  shows "Store_Load e path d1 = Some (Inr (Some t), d1) \<and> Store_Load e path d2 = Some (Inr (Some t'), d2)"
  using store.load_saved[OF assms(1,3)] store.save_overwrites[OF assms] by blast

text \<open>A file system, parsers and a cipher that read back what they write for two sets of tokens.\<close>

definition tokensA :: Tokens where
  "tokensA = \<lparr>ProfileID = ''A'', tk_Name = ''n'', MojangAccessToken = ''a'', MojangExpiresAt = 0, MsRefreshToken = ''r''\<rparr>"

definition tokensB :: Tokens where
  "tokensB = \<lparr>ProfileID = ''B'', tk_Name = ''n'', MojangAccessToken = ''b'', MojangExpiresAt = 0, MsRefreshToken = ''s''\<rparr>"

definition machine_env :: auth_env where
  "machine_env =
     pending_env\<lparr>au_json := (\<lambda>s. if s = ''A'' then Some (JObj [(''profileId'', JStr ''A''), (''name'', JStr ''n''),
           (''mojangAccessToken'', JStr ''a''), (''mojangExpiresAt'', JStr ''0''), (''msRefreshToken'', JStr ''r'')])
         else if s = ''B'' then Some (JObj [(''profileId'', JStr ''B''), (''name'', JStr ''n''),
           (''mojangAccessToken'', JStr ''b''), (''mojangExpiresAt'', JStr ''0''), (''msRefreshToken'', JStr ''s'')])
         else None),
       au_json_text := (\<lambda>j. case j of JObj ((k, JStr s) # _) \<Rightarrow> s | _ \<Rightarrow> ''''),
       au_uuid := Some, au_uuid_text := (\<lambda>u. u), au_time := (\<lambda>s. Some 0), au_time_text := (\<lambda>t. ''0''),
       au_machine_id := Some (replicate 64 (CHR ''0'')), au_nonce := Some (replicate 12 0),
       au_seal := (\<lambda>k n s. rev s), au_open := (\<lambda>k n s. Some (rev s))\<rparr>"

lemma machine_env_reads_back: "reads_back machine_env path tokensA" "reads_back machine_env path tokensB"
  by (simp_all add: reads_back_def machine_env_def pending_env_def tokensA_def tokensB_def tokensJson_def
      split: option.split)

theorem credentials_roundtrip_witness:
  "\<exists>d1 d2. Store_Load machine_env ''x.pem'' d1 = Some (Inr (Some tokensA), d1) \<and>
           Store_Load machine_env ''x.pem'' d2 = Some (Inr (Some tokensB), d2)"
proof -
  have "Store_Save machine_env ''x.pem'' t d = (None, d(''x.pem'' \<mapsto> Pem [credentials_block machine_env t]))" for t d
    by (simp add: Store_Save_writes) (simp add: machine_env_def pending_env_def)
  then show ?thesis
    using credentials_roundtrip[OF machine_env_reads_back[of "''x.pem''"]] by blast
qed

text \<open>A file written on another machine is refused with an error and left as it is.\<close>

lemma credentials_other_machine:
  assumes "Store_Save e path t d = (None, d1)" and "machineKey e = Some key" and "au_nonce e = Some nonce"
    and "length nonce = 12" and "au_readable e' path"
    and "\<And>key'. machineKey e' = Some key' \<Longrightarrow>
           au_open e' key' nonce (au_seal e key nonce (au_json_text e (tokensJson e t))) = None"
  shows "Store_Load e' path d1 = Some (Inl ErrWrongMachine, d1)"
  using assms
  by (auto simp: Store_Save_writes Store_Load_def parsePEM_def credentials_block_def encryptMachineBound_def
      decryptMachineBound_def split: option.split)

text \<open>A nonce of another length makes the cipher panic instead.\<close>

lemma bad_nonce_panics:
  assumes "d path = Some (Pem [b])" and "au_readable e path" and "pb_Type b = pemType"
    and "pb_Cipher b = cipherMachineBound" and "pb_Nonce b = Nonce nonce" and "length nonce \<noteq> 12"
    and "machineKey e = Some key"
  shows "Store_Load e path d = None"
  using assms by (simp add: Store_Load_def parsePEM_def decryptMachineBound_def)

text \<open>
  A legacy JSON file next to an absent credentials file is read, rewritten in the new form and
  removed; from then on the same tokens are loaded from the new file and loading changes nothing more.
\<close>

theorem legacy_migration:
  assumes "path = base @ ''.pem''" and "d path = None" and "d (base @ ''.json'') = Some (Plain text)"
    and "au_readable e (base @ ''.json'')" and "unmarshalTokens e text = Inr t"
    and "reads_back e path t" and "Store_Save e path t d = (None, d1)" and "au_removable e (base @ ''.json'')"
  shows "\<exists>d2. Store_Load e path d = Some (Inr (Some t), d2) \<and> d2 (base @ ''.json'') = None \<and>
              Store_Load e path d2 = Some (Inr (Some t), d2)"
proof -
  let ?legacy = "base @ ''.json''" and ?d2 = "d1(base @ ''.json'' := None)"
  have legacy: "legacyPath path = ?legacy" and ne: "path \<noteq> ?legacy"
    using assms(1) by (simp_all add: legacyPath_def suffix_def)
  then have "Store_Load e path d = Some (Inr (Some t), ?d2)"
    using assms by (simp add: Store_Load_def removeFile_def)
  moreover have "?d2 path = Some (Pem [credentials_block e t])"
    using assms(7) ne by (simp add: Store_Save_writes)
  then have "Store_Load e path ?d2 = Some (Inr (Some t), ?d2)"
    using assms(6) parsePEM_credentials[OF assms(6)] by (simp add: Store_Load_def reads_back_def)
  ultimately show ?thesis by auto
qed

theorem legacy_migration_witness:
  "\<exists>d2. Store_Load machine_env ''x.pem'' [''x.json'' \<mapsto> Plain ''A''] = Some (Inr (Some tokensA), d2) \<and>
        d2 ''x.json'' = None \<and> Store_Load machine_env ''x.pem'' d2 = Some (Inr (Some tokensA), d2)"
proof -
  have "unmarshalTokens machine_env ''A'' = Inr tokensA"
    using unmarshalTokens_tokensJson[OF machine_env_reads_back(1)[of "''x.pem''"]]
    by (simp add: machine_env_def pending_env_def tokensA_def tokensJson_def)
  moreover have "Store_Save machine_env ''x.pem'' tokensA d =
      (None, d(''x.pem'' \<mapsto> Pem [credentials_block machine_env tokensA]))" for d
    by (simp add: Store_Save_writes) (simp add: machine_env_def pending_env_def)
  ultimately show ?thesis
    using legacy_migration[of "''x.pem''" "''x''" "[''x.json'' \<mapsto> Plain ''A'']" "''A''" machine_env tokensA]
      machine_env_reads_back(1)[of "''x.pem''"]
    by (simp add: machine_env_def pending_env_def)
qed

section \<open>The session\<close>

text \<open>What a call that returns tokens leaves behind: the tokens in memory and, when they can be written, in the file.\<close>

definition holds :: "auth_env \<Rightarrow> Tokens \<Rightarrow> AuthSession \<Rightarrow> bool" where
  "holds e t s \<longleftrightarrow>
     se_tokens s = Some t \<and>
     (reads_back e (se_path s) t \<and> au_mkdir e \<and> au_write e (se_path s) = WriteOk \<longrightarrow>
        Store_Load e (se_path s) (se_disk s) = Some (Inr (Some t), se_disk s))"

lemma keep_holds: "holds e t (keep e t s)"
proof -
  have "Store_Load e (se_path s) (snd (Store_Save e (se_path s) t (se_disk s))) =
      Some (Inr (Some t), snd (Store_Save e (se_path s) t (se_disk s)))"
    if "reads_back e (se_path s) t" "au_mkdir e" "au_write e (se_path s) = WriteOk"
    using that(2,3) store.load_saved[OF that(1) Store_Save_ok[OF that(2,3)], of "se_disk s"] by (simp add: Store_Save_ok)
  then show ?thesis by (simp add: holds_def keep_def save_def)
qed

lemma keep_frame [simp, frame_simps]:
  "se_prompts (keep e t s) = se_prompts s" "se_path (keep e t s) = se_path s" "se_net (keep e t s) = se_net s"
  "se_tokens (keep e t s) = Some t"
  by (simp_all add: keep_def save_def)

lemma silently_Inr: "silently e r s = (Inr t, s') \<Longrightarrow> holds e t s' \<and> se_prompts s' = se_prompts s"
  by (auto simp: silently_def keep_holds split: prod.splits sum.splits)

lemma silently_Inl:
  "silently e r s = (Inl err, s') \<Longrightarrow>
     se_tokens s' = se_tokens s \<and> se_disk s' = se_disk s \<and> se_path s' = se_path s \<and> se_prompts s' = se_prompts s"
  by (auto simp: silently_def split: prod.splits sum.splits)

lemma deviceCode_Inr: "deviceCode e s = (Inr t, s') \<Longrightarrow> holds e t s'"
  by (auto simp: deviceCode_def Let_def keep_holds split: prod.splits sum.splits)

lemma deviceCode_Inl: "deviceCode e s = (Inl err, s') \<Longrightarrow> se_tokens s' = se_tokens s"
  by (auto simp: deviceCode_def Let_def save_def split: prod.splits sum.splits)

lemma Authenticate_Inr: "Authenticate e s = Some (Inr t, s') \<Longrightarrow> holds e t s'"
  by (auto simp: Authenticate_def Let_def split: option.splits sum.splits prod.splits if_splits
      dest: silently_Inr deviceCode_Inr)

lemma Authenticate_Inl: "Authenticate e s = Some (Inl err, s') \<Longrightarrow> se_tokens s' = se_tokens s"
  by (auto simp: Authenticate_def Let_def split: option.splits sum.splits prod.splits if_splits
      dest!: silently_Inl deviceCode_Inl)

lemma refreshLocked_cases:
  assumes "refreshLocked e s = Some (r, s')" and "se_tokens s = Some u" and "\<not> fresh (net_now (se_net s)) u"
  shows "silently e (MsRefreshToken u) s = (r, s')"
  using assms by (simp add: refreshLocked_def)


definition signed_in :: AuthSession where
  "signed_in =
     \<lparr>se_path = ''x.pem'', se_onPrompt = True, se_tokens = Some tokensA, se_disk = Map.empty,
      se_net = \<lparr>net_log = [], net_now = 0\<rparr>, se_prompts = []\<rparr>"


text \<open>
  \<^verbatim>\<open>EnsureFresh\<close> and \<^verbatim>\<open>EnsureFreshSilent\<close> read the tokens again after locking a second time without
  checking for nil: if the cache is reset after they found their tokens near expiry, both panic.
\<close>

theorem ensure_fresh_race:
  assumes "se_tokens s = Some u" and "\<not> fresh (net_now (se_net s)) u"
  shows "EnsureFresh_from e (se_tokens s) (Session_ResetCache e s) = None \<and>
         EnsureFreshSilent_from e (se_tokens s) (Session_ResetCache e s) = None"
  using assms
  by (simp add: EnsureFresh_from_def EnsureFreshSilent_from_def refreshLocked_def Session_ResetCache_def save_def)

theorem ensure_fresh_race_witness:
  "EnsureFresh_from machine_env (Some tokensA) (Session_ResetCache machine_env signed_in) = None"
  using ensure_fresh_race[of signed_in tokensA machine_env]
  by (simp add: signed_in_def fresh_def refreshMargin_def tokensA_def)

lemma answers_frame [simp, frame_simps]:
  "machineKey (e\<lparr>au_answer := f\<rparr>) = machineKey e"
  "tokensJson (e\<lparr>au_answer := f\<rparr>) = tokensJson e"
  "encryptMachineBound (e\<lparr>au_answer := f\<rparr>) = encryptMachineBound e"
  "credentials_block (e\<lparr>au_answer := f\<rparr>) = credentials_block e"
  "reads_back (e\<lparr>au_answer := f\<rparr>) = reads_back e"
  unfolding fun_eq_iff
  by (simp_all add: machineKey_def tokensJson_def encryptMachineBound_def credentials_block_def reads_back_def
      cong: option.case_cong)


text \<open>Services whose Xbox part is down at first, and answers later.\<close>

definition approving_env :: auth_env where
  "approving_env =
     machine_env\<lparr>au_answer := (\<lambda>l. case last l of
           FormPost u f \<Rightarrow> if u = deviceCodeURL then AuthResp 200 ''D'' else AuthResp 200 ''G''
         | _ \<Rightarrow> AuthResp 500 ''''),
       au_json := (\<lambda>s. if s = ''D'' then Some (JObj [(''expires_in'', JNum 60), (''interval'', JNum 5)])
         else if s = ''G'' then Some (JObj [(''refresh_token'', JStr ''r'')])
         else if s = ''X'' then Some (JObj [(''DisplayClaims'', JObj [(''xui'', JArr [JNull])])])
         else if s = uuid_nil
         then Some (JObj [(''profileId'', JStr uuid_nil), (''name'', JStr ''''), (''mojangAccessToken'', JStr ''''),
                          (''mojangExpiresAt'', JStr ''0''), (''msRefreshToken'', JStr ''r'')])
         else Some (JObj [])),
       au_time := (\<lambda>s. Some zeroTime)\<rparr>"

definition working_answers :: "auth_request list \<Rightarrow> auth_answer" where
  "working_answers l =
     (case last l of
        FormPost u f \<Rightarrow> AuthResp 200 ''G''
      | JsonPost u b \<Rightarrow> AuthResp 200 (if u = mojangLogin then ''L'' else ''X'')
      | ProfileGet u a \<Rightarrow> AuthResp 200 ''P'')"

definition signed_out :: AuthSession where
  "signed_out = signed_in\<lparr>se_tokens := None\<rparr>"

lemmas auth_urls = deviceCodeURL_def tokenURL_def xblURL_def xstsURL_def mojangLogin_def mcProfileURL_def

lemma approving_reads_back:
  "reads_back approving_env path (emptyTokens\<lparr>MsRefreshToken := ''r''\<rparr>)"
  by (simp add: reads_back_def approving_env_def machine_env_def pending_env_def emptyTokens_def tokensJson_def uuid_nil_def
      split: option.split)


end
