(* ===== verification/Skin.thy ===== *)
theory Skin
  imports GoPaths Auth
begin

text \<open>
  The skin of the account: the image that is uploaded (\<^verbatim>\<open>src/internal/skinimg/skinimg.go\<close>) and the decision whether to
  upload it (\<^verbatim>\<open>src/cmd/openfriend/skin.go\<close>, \<^verbatim>\<open>UploadSkin\<close> of \<^verbatim>\<open>src/internal/api/skin.go\<close>).

  A decoded picture is a value of any type, of which the code asks the size and which it scales into a part of a canvas;
  decoding, scaling, encoding and SHA-256 are arguments. The canvas is \<^verbatim>\<open>image.NRGBA\<close>, a pixel of four bytes for
  every position inside its bounds.
\<close>

section \<open>Model\<close>

subsection \<open>The canvas\<close>

record NRGBA =
  px_R :: byte
  px_G :: byte
  px_B :: byte
  px_A :: byte

definition transparent :: NRGBA where
  "transparent = \<lparr>px_R = 0, px_G = 0, px_B = 0, px_A = 0\<rparr>"

record canvas =
  cv_W :: nat
  cv_H :: nat
  cv_At :: "nat \<Rightarrow> nat \<Rightarrow> NRGBA"

text \<open>Rectangles: \<^verbatim>\<open>Min.X\<close>, \<^verbatim>\<open>Min.Y\<close>, \<^verbatim>\<open>Max.X\<close>, \<^verbatim>\<open>Max.Y\<close>.\<close>

type_synonym rectangle = "nat \<times> nat \<times> nat \<times> nat"

fun inRect :: "rectangle \<Rightarrow> nat \<Rightarrow> nat \<Rightarrow> bool" where
  "inRect (x0, y0, x1, y1) x y \<longleftrightarrow> x0 \<le> x \<and> x < x1 \<and> y0 \<le> y \<and> y < y1"

definition NewNRGBA :: "nat \<Rightarrow> nat \<Rightarrow> canvas" where
  "NewNRGBA w h = \<lparr>cv_W = w, cv_H = h, cv_At = (\<lambda>x y. transparent)\<rparr>"

definition NRGBAAt :: "nat \<Rightarrow> nat \<Rightarrow> canvas \<Rightarrow> NRGBA" where
  "NRGBAAt x y c = (if x < cv_W c \<and> y < cv_H c then cv_At c x y else transparent)"

definition SetNRGBA :: "nat \<Rightarrow> nat \<Rightarrow> NRGBA \<Rightarrow> canvas \<Rightarrow> canvas" where
  "SetNRGBA x y p c =
     (if x < cv_W c \<and> y < cv_H c then c\<lparr>cv_At := (\<lambda>x' y'. if x' = x \<and> y' = y then p else cv_At c x' y')\<rparr> else c)"

text \<open>\<^verbatim>\<open>draw.Draw\<close> of one colour over the whole canvas with \<^verbatim>\<open>draw.Src\<close>.\<close>

definition fillCanvas :: "NRGBA \<Rightarrow> canvas \<Rightarrow> canvas" where
  "fillCanvas p c = c\<lparr>cv_At := (\<lambda>x y. p)\<rparr>"

definition skinW :: nat where "skinW = 64"
definition skinH :: nat where "skinH = 64"
definition faceX :: nat where "faceX = 8"
definition faceY :: nat where "faceY = 8"
definition faceSize :: nat where "faceSize = 8"

definition faceArea :: rectangle where
  "faceArea = (faceX, faceY, faceX + faceSize, faceY + faceSize)"

definition hardenPixel :: "nat \<Rightarrow> nat \<Rightarrow> canvas \<Rightarrow> canvas" where
  "hardenPixel y x img =
     (let c = NRGBAAt x y img
      in if px_A c = 0 then img
         else if px_A c < 255 then SetNRGBA x y (c\<lparr>px_A := 255\<rparr>) img
         else img)"

fun hardenAlpha :: "rectangle \<Rightarrow> canvas \<Rightarrow> canvas" where
  "hardenAlpha (x0, y0, x1, y1) img = fold (\<lambda>y. fold (hardenPixel y) [x0..<x1]) [y0..<y1] img"

subsection \<open>Preparing the file\<close>

record 'p skin_env =
  sk_file :: "string \<Rightarrow> string option"
  sk_decode :: "string \<Rightarrow> 'p option"
  sk_size :: "'p \<Rightarrow> nat \<times> nat"
  sk_scale :: "rectangle \<Rightarrow> 'p \<Rightarrow> canvas \<Rightarrow> canvas"
  sk_encode :: "canvas \<Rightarrow> string option"
  sk_sha256 :: "string \<Rightarrow> bytes"
  sk_wd :: "string option"

datatype skin_error =
    BadVariant string | AbsError | ReadSkin | DecodePNG | SkinSize nat nat | EncodePNG
  | UploadFailed api_error | LockMkdir | LockWrite

record Result =
  PNG :: string
  Processed :: bool
  OriginalW :: nat
  OriginalH :: nat

definition composeFromFace :: "'p skin_env \<Rightarrow> 'p \<Rightarrow> canvas" where
  "composeFromFace e face =
     hardenAlpha faceArea (sk_scale e faceArea face (fillCanvas transparent (NewNRGBA skinW skinH)))"

definition Prepare :: "'p skin_env \<Rightarrow> string \<Rightarrow> skin_error + Result" where
  "Prepare e path =
     (case sk_file e path of
        None \<Rightarrow> Inl ReadSkin
      | Some raw \<Rightarrow>
          (case sk_decode e raw of
             None \<Rightarrow> Inl DecodePNG
           | Some img \<Rightarrow>
               let (w, h) = sk_size e img
               in if (w = 64 \<and> h = 64) \<or> (w = 64 \<and> h = 32)
                  then Inr \<lparr>PNG = raw, Processed = False, OriginalW = w, OriginalH = h\<rparr>
                  else if w \<noteq> h then Inl (SkinSize w h)
                  else (case sk_encode e (composeFromFace e img) of
                          None \<Rightarrow> Inl EncodePNG
                        | Some out \<Rightarrow> Inr \<lparr>PNG = out, Processed = True, OriginalW = w, OriginalH = h\<rparr>)))"

subsection \<open>Uploading once\<close>

definition SkinClassic :: string where "SkinClassic = ''classic''"
definition SkinSlim :: string where "SkinSlim = ''slim''"

definition parseSkinVariant :: "string \<Rightarrow> skin_error + string" where
  "parseSkinVariant s =
     (let l = map lower_char s
      in if l = '''' \<or> l = ''classic'' then Inr SkinClassic
         else if l = ''slim'' then Inr SkinSlim
         else Inl (BadVariant s))"

definition hexDigit :: "nat \<Rightarrow> char" where
  "hexDigit n = ''0123456789abcdef'' ! n"

definition hexEncode :: "bytes \<Rightarrow> string" where
  "hexEncode bs = concat (map (\<lambda>b. [hexDigit (unat b div 16), hexDigit (unat b mod 16)]) bs)"

definition skinHash :: "'p skin_env \<Rightarrow> string \<Rightarrow> string \<Rightarrow> string" where
  "skinHash e png variant = hexEncode (sk_sha256 e png) @ '':'' @ variant"

text \<open>The text of the lock file, when it can be read.\<close>

definition lockText :: "auth_env \<Rightarrow> string \<Rightarrow> disk \<Rightarrow> string option" where
  "lockText au path d =
     (if au_readable au path then (case d path of Some (Plain s) \<Rightarrow> Some s | _ \<Rightarrow> None) else None)"

text \<open>
  The outcome of a call: its error, what it gave to \<^verbatim>\<open>UploadSkinBytes\<close> (picture, file name, variant), the client and the
  files. \<^verbatim>\<open>None\<close> is an upload that does not return within \<^verbatim>\<open>fuel\<close> requests.
\<close>

record SkinRun =
  sr_err :: "skin_error option"
  sr_uploads :: "(string \<times> string \<times> string) list"
  sr_client :: ApiClient
  sr_disk :: disk

definition lockSkin :: "auth_env \<Rightarrow> string \<Rightarrow> string \<Rightarrow> disk \<Rightarrow> skin_error option \<times> disk" where
  "lockSkin au lockPath hash d =
     (if \<not> au_mkdir au then (Some LockMkdir, d)
      else (case writeFile au lockPath (Plain hash) d of
              (None, d1) \<Rightarrow> (None, d1)
            | (Some err, d1) \<Rightarrow> (Some LockWrite, d1)))"

definition ensureSkin ::
    "'p skin_env \<Rightarrow> auth_env \<Rightarrow> nat \<Rightarrow> (nat \<Rightarrow> http_answer) \<Rightarrow> string \<Rightarrow> string \<Rightarrow> string \<Rightarrow> ApiClient \<Rightarrow> disk \<Rightarrow>
     SkinRun option" where
  "ensureSkin e au fuel answer skinPath variantStr lockPath client d =
     (let failed = (\<lambda>err. Some \<lparr>sr_err = Some err, sr_uploads = [], sr_client = client, sr_disk = d\<rparr>)
      in (case parseSkinVariant variantStr of
            Inl err \<Rightarrow> failed err
          | Inr variant \<Rightarrow>
              (case path_Abs (sk_wd e) skinPath of
                 None \<Rightarrow> failed AbsError
               | Some absPath \<Rightarrow>
                   (case Prepare e absPath of
                      Inl err \<Rightarrow> failed err
                    | Inr res \<Rightarrow>
                        let hash = skinHash e (PNG res) variant
                        in if map_option TrimSpace (lockText au lockPath d) = Some hash
                           then Some \<lparr>sr_err = None, sr_uploads = [], sr_client = client, sr_disk = d\<rparr>
                           else (case UploadSkinBytes fuel answer client of
                                   None \<Rightarrow> None
                                 | Some (Some err, c1) \<Rightarrow>
                                     Some \<lparr>sr_err = Some (UploadFailed err), sr_uploads = [(PNG res, path_Base absPath, variant)],
                                           sr_client = c1, sr_disk = d\<rparr>
                                 | Some (None, c1) \<Rightarrow>
                                     (case lockSkin au lockPath hash d of
                                        (err, d1) \<Rightarrow>
                                          Some \<lparr>sr_err = err, sr_uploads = [(PNG res, path_Base absPath, variant)],
                                                sr_client = c1, sr_disk = d1\<rparr>))))))"

text \<open>\<^verbatim>\<open>UploadSkin\<close> of the services client uploads a file as it is.\<close>

definition UploadSkin ::
    "'p skin_env \<Rightarrow> nat \<Rightarrow> (nat \<Rightarrow> http_answer) \<Rightarrow> string \<Rightarrow> ApiClient \<Rightarrow> ((skin_error option) \<times> ApiClient) option" where
  "UploadSkin e fuel answer pngPath client =
     (case path_Abs (sk_wd e) pngPath of
        None \<Rightarrow> Some (Some AbsError, client)
      | Some absPath \<Rightarrow>
          (case sk_file e absPath of
             None \<Rightarrow> Some (Some ReadSkin, client)
           | Some data \<Rightarrow> map_option (\<lambda>(err, c). (map_option UploadFailed err, c)) (UploadSkinBytes fuel answer client)))"

section \<open>The composed picture\<close>

text \<open>What the code relies on in \<^verbatim>\<open>Scale\<close>: it draws inside the rectangle it is given and keeps the canvas.\<close>

definition scales_inside :: "'p skin_env \<Rightarrow> bool" where
  "scales_inside e \<longleftrightarrow>
     (\<forall>r p c. cv_W (sk_scale e r p c) = cv_W c \<and> cv_H (sk_scale e r p c) = cv_H c \<and>
        (\<forall>x y. \<not> inRect r x y \<longrightarrow> cv_At (sk_scale e r p c) x y = cv_At c x y))"

lemma scales_insideD:
  assumes "scales_inside e"
  shows "cv_W (sk_scale e r p c) = cv_W c" "cv_H (sk_scale e r p c) = cv_H c"
    "\<not> inRect r x y \<Longrightarrow> cv_At (sk_scale e r p c) x y = cv_At c x y"
  using assms unfolding scales_inside_def by blast+

text \<open>The pixel that \<^verbatim>\<open>hardenAlpha\<close> makes of a pixel.\<close>

definition hardened :: "NRGBA \<Rightarrow> NRGBA" where
  "hardened p = (if px_A p = 0 then p else p\<lparr>px_A := 255\<rparr>)"

lemma hardened_idem [simp]: "hardened (hardened p) = hardened p"
  by (simp add: hardened_def)

lemma byte_not_less_255: "\<not> (b :: byte) < 255 \<Longrightarrow> b = 255"
proof -
  assume "\<not> b < 255"
  then have "255 \<le> unat b" by (simp add: word_less_nat_alt)
  moreover have "unat b < 2 ^ LENGTH(8)" by (rule unsigned_less)
  ultimately have "unat b = unat (255 :: byte)" by simp
  then show ?thesis by (rule unsigned_word_eqI)
qed

lemma hardenPixel_spec:
  "cv_W (hardenPixel y x c) = cv_W c" "cv_H (hardenPixel y x c) = cv_H c"
  "cv_At (hardenPixel y x c) x' y' =
     (if x' = x \<and> y' = y \<and> x < cv_W c \<and> y < cv_H c then hardened (cv_At c x y) else cv_At c x' y')"
  using byte_not_less_255[of "px_A (cv_At c x y)"]
  by (auto simp: hardenPixel_def NRGBAAt_def SetNRGBA_def hardened_def transparent_def Let_def)

lemma harden_row:
  assumes "distinct xs"
  shows "cv_W (fold (hardenPixel y) xs c) = cv_W c" "cv_H (fold (hardenPixel y) xs c) = cv_H c"
    "cv_At (fold (hardenPixel y) xs c) x' y' =
       (if x' \<in> set xs \<and> y' = y \<and> x' < cv_W c \<and> y < cv_H c then hardened (cv_At c x' y) else cv_At c x' y')"
  using assms by (induction xs arbitrary: c) (auto simp: hardenPixel_spec)

lemma harden_rows:
  assumes "distinct ys"
  shows "cv_W (fold (\<lambda>y. fold (hardenPixel y) [x0..<x1]) ys c) = cv_W c"
    "cv_H (fold (\<lambda>y. fold (hardenPixel y) [x0..<x1]) ys c) = cv_H c"
    "cv_At (fold (\<lambda>y. fold (hardenPixel y) [x0..<x1]) ys c) x' y' =
       (if x0 \<le> x' \<and> x' < x1 \<and> y' \<in> set ys \<and> x' < cv_W c \<and> y' < cv_H c then hardened (cv_At c x' y') else cv_At c x' y')"
  using assms by (induction ys arbitrary: c) (auto simp: harden_row)

text \<open>The two loops together: every pixel of the area that lies on the canvas is hardened, no other one changes.\<close>

lemma hardenAlpha_spec:
  "cv_W (hardenAlpha r c) = cv_W c" "cv_H (hardenAlpha r c) = cv_H c"
  "cv_At (hardenAlpha r c) x y =
     (if inRect r x y \<and> x < cv_W c \<and> y < cv_H c then hardened (cv_At c x y) else cv_At c x y)"
  by (cases r; auto simp: harden_rows)+

text \<open>
  What \<^verbatim>\<open>Prepare\<close> hands over is the file itself when the picture has the size of a skin, and otherwise,
  for a square picture only, an encoded canvas of 64x64 pixels that is transparent outside the face, where every pixel of
  the face is the scaled one, opaque unless it is fully transparent.
\<close>

theorem face_skin_composed:
  assumes "scales_inside e" and "Prepare e path = Inr res" and "sk_file e path = Some raw" and "sk_decode e raw = Some img"
  shows "sk_size e img = (OriginalW res, OriginalH res) \<and>
     (if Processed res
      then OriginalW res = OriginalH res \<and> OriginalW res \<noteq> 64 \<and>
           (\<exists>c. sk_encode e c = Some (PNG res) \<and> cv_W c = 64 \<and> cv_H c = 64 \<and>
              (\<forall>x y. cv_At c x y =
                 (if 8 \<le> x \<and> x < 16 \<and> 8 \<le> y \<and> y < 16
                  then hardened (cv_At (sk_scale e faceArea img (NewNRGBA 64 64)) x y)
                  else transparent)))
      else PNG res = raw \<and> OriginalW res = 64 \<and> OriginalH res \<in> {32, 64})"
proof -
  let ?c = "composeFromFace e img"
  have fill: "fillCanvas transparent (NewNRGBA 64 64) = NewNRGBA 64 64" by (simp add: fillCanvas_def NewNRGBA_def)
  have canvas: "cv_W ?c = 64" "cv_H ?c = 64"
    "cv_At ?c x y = (if 8 \<le> x \<and> x < 16 \<and> 8 \<le> y \<and> y < 16
       then hardened (cv_At (sk_scale e faceArea img (NewNRGBA 64 64)) x y) else transparent)" for x y
  proof -
    let ?s = "sk_scale e faceArea img (NewNRGBA 64 64)"
    have c: "?c = hardenAlpha faceArea ?s" by (simp only: composeFromFace_def skinW_def skinH_def fill)
    have s: "cv_W ?s = 64" "cv_H ?s = 64" "\<not> inRect faceArea x y \<Longrightarrow> cv_At ?s x y = transparent" for x y
      using scales_insideD[where r = faceArea and p = img and c = "NewNRGBA 64 64", OF assms(1)] by (simp_all add: NewNRGBA_def)
    have r: "inRect faceArea x y \<longleftrightarrow> 8 \<le> x \<and> x < 16 \<and> 8 \<le> y \<and> y < 16" for x y
      by (auto simp: faceArea_def faceX_def faceY_def faceSize_def)
    show "cv_W ?c = 64" "cv_H ?c = 64" by (simp_all only: c hardenAlpha_spec s)
    show "cv_At ?c x y = (if 8 \<le> x \<and> x < 16 \<and> 8 \<le> y \<and> y < 16 then hardened (cv_At ?s x y) else transparent)" for x y
      using s(3)[of x y] by (auto simp only: c hardenAlpha_spec s r split: if_splits)
  qed
  show ?thesis
    using assms(2-4) canvas by (auto simp: Prepare_def Let_def split: prod.splits if_splits option.splits)
qed

text \<open>A picture that is scaled to one translucent colour, for a concrete run.\<close>

definition sample_skin_env :: "(nat \<times> nat) skin_env" where
  "sample_skin_env =
     \<lparr>sk_file = (\<lambda>path. if path = ''/home/face.png'' then Some ''face'' else None),
      sk_decode = (\<lambda>raw. if raw = ''face'' then Some (32, 32) else None),
      sk_size = id,
      sk_scale = (\<lambda>r p c. c\<lparr>cv_At := (\<lambda>x y. if inRect r x y then \<lparr>px_R = 1, px_G = 2, px_B = 3, px_A = 7\<rparr> else cv_At c x y)\<rparr>),
      sk_encode = (\<lambda>c. Some (map (\<lambda>x. char_of (unat (px_A (cv_At c x x)))) [0..<10])),
      sk_sha256 = str_bytes, sk_wd = Some ''/home''\<rparr>"

theorem face_skin_composed_witness:
  "\<exists>res c. Prepare sample_skin_env ''/home/face.png'' = Inr res \<and> Processed res \<and> sk_encode sample_skin_env c = Some (PNG res) \<and>
     cv_At c 8 8 = \<lparr>px_R = 1, px_G = 2, px_B = 3, px_A = 255\<rparr> \<and> cv_At c 7 8 = transparent"
proof -
  let ?e = sample_skin_env
  have inside: "scales_inside ?e" by (simp add: scales_inside_def sample_skin_env_def)
  obtain res where r: "Prepare ?e ''/home/face.png'' = Inr res" "Processed res"
    by (simp add: Prepare_def sample_skin_env_def)
  have face: "sk_file ?e ''/home/face.png'' = Some ''face''" "sk_decode ?e ''face'' = Some (32, 32)"
    by (simp_all add: sample_skin_env_def)
  from face_skin_composed[OF inside r(1) face] r(2) obtain c where
    c: "sk_encode ?e c = Some (PNG res)"
       "\<And>x y. cv_At c x y = (if 8 \<le> x \<and> x < 16 \<and> 8 \<le> y \<and> y < 16
          then hardened (cv_At (sk_scale ?e faceArea (32, 32) (NewNRGBA 64 64)) x y) else transparent)" by auto
  have "cv_At c 8 8 = \<lparr>px_R = 1, px_G = 2, px_B = 3, px_A = 255\<rparr>"
    using c(2)[of 8 8] by (simp add: sample_skin_env_def hardened_def faceArea_def faceX_def faceY_def faceSize_def)
  with r c show ?thesis by (auto intro!: exI[of _ res] exI[of _ c])
qed

section \<open>One upload for one picture\<close>

lemma hexDigit_not_space: "n < 16 \<Longrightarrow> \<not> is_space (hexDigit n)"
proof -
  assume "n < 16"
  then have "n \<in> set [0..<16]" by simp
  moreover have "\<forall>n\<in>set [0..<16]. \<not> is_space (hexDigit n)" by code_simp
  ultimately show ?thesis by blast
qed

lemma unat_byte_lt: "unat (b :: byte) < 256"
proof -
  have "unat b < 2 ^ LENGTH(8)" by (rule unsigned_less)
  then show ?thesis by simp
qed

lemma TrimSpace_skinHash:
  assumes "parseSkinVariant v = Inr variant"
  shows "TrimSpace (skinHash e png variant) = skinHash e png variant"
proof -
  have v: "variant \<noteq> []" "\<not> is_space (last variant)"
  proof -
    have "variant = SkinClassic \<or> variant = SkinSlim"
      using assms unfolding parseSkinVariant_def Let_def by (simp split: if_splits)
    moreover have "\<not> is_space (last SkinClassic)" "\<not> is_space (last SkinSlim)" by code_simp+
    ultimately show "variant \<noteq> []" "\<not> is_space (last variant)" by (auto simp: SkinClassic_def SkinSlim_def)
  qed
  have h: "\<not> is_space (hd (hexEncode bs @ '':'' @ variant))" for bs
  proof (cases bs)
    case (Cons b bs')
    have "unat b div 16 < 16" using unat_byte_lt[of b] by simp
    then show ?thesis using Cons hexDigit_not_space by (simp add: hexEncode_def)
  qed (simp add: hexEncode_def is_space_def)
  show ?thesis unfolding skinHash_def using v h by (intro TrimSpace_id) simp_all
qed



end
