(* ===== verification/StatusFile.thy ===== *)
theory StatusFile
  imports GoPaths Auth
begin

text \<open>
  The status file that other tools read, \<^verbatim>\<open>src/internal/status/status.go\<close>: a snapshot kept in memory, written beside the
  file and moved over it. The JSON text of a snapshot is an argument, as are the refusals of the file system.
\<close>

section \<open>Model\<close>

record StatusSnapshot =
  sn_Authenticated :: bool
  sn_ProfileID :: string
  sn_ProfileName :: string
  sn_PresenceStatus :: string
  sn_PresenceRunning :: bool
  sn_SignalingConnected :: bool
  sn_BypassEnabled :: bool
  sn_Version :: string
  sn_UpdatedAt :: int

definition emptySnapshot :: StatusSnapshot where
  "emptySnapshot =
     \<lparr>sn_Authenticated = False, sn_ProfileID = '''', sn_ProfileName = '''', sn_PresenceStatus = '''', sn_PresenceRunning = False,
      sn_SignalingConnected = False, sn_BypassEnabled = False, sn_Version = '''', sn_UpdatedAt = zeroTime\<rparr>"

record StatusWriter =
  sw_path :: string
  sw_last :: StatusSnapshot

definition statusFile :: string where "statusFile = ''status.json''"

definition NewStatusWriter :: "string \<Rightarrow> StatusWriter" where
  "NewStatusWriter dir = \<lparr>sw_path = path_Join dir statusFile, sw_last = emptySnapshot\<rparr>"

record status_env =
  st_text :: "StatusSnapshot \<Rightarrow> string option"
  st_renames :: bool

definition renameFile :: "bool \<Rightarrow> string \<Rightarrow> string \<Rightarrow> disk \<Rightarrow> disk" where
  "renameFile allowed old new d =
     (case d old of Some c \<Rightarrow> (if allowed then d(old := None, new := Some c) else d) | None \<Rightarrow> d)"

definition Status_write :: "auth_env \<Rightarrow> status_env \<Rightarrow> string \<Rightarrow> StatusSnapshot \<Rightarrow> disk \<Rightarrow> disk" where
  "Status_write au e path s d =
     (if path = '''' then d
      else (case st_text e s of
              None \<Rightarrow> d
            | Some raw \<Rightarrow>
                let tmp = path @ ''.tmp''
                in (case writeFile au tmp (Plain raw) d of
                      (Some err, d1) \<Rightarrow> d1
                    | (None, d1) \<Rightarrow> renameFile (st_renames e) tmp path d1)))"

text \<open>What \<^verbatim>\<open>Update\<close> does under the mutex, and the whole call.\<close>

definition Update_locked :: "(StatusSnapshot \<Rightarrow> StatusSnapshot) \<Rightarrow> int \<Rightarrow> StatusWriter \<Rightarrow> StatusWriter" where
  "Update_locked mutator now w = w\<lparr>sw_last := (mutator (sw_last w))\<lparr>sn_UpdatedAt := now\<rparr>\<rparr>"

definition Status_Update ::
    "auth_env \<Rightarrow> status_env \<Rightarrow> (StatusSnapshot \<Rightarrow> StatusSnapshot) \<Rightarrow> int \<Rightarrow> StatusWriter \<times> disk \<Rightarrow> StatusWriter \<times> disk" where
  "Status_Update au e mutator now = (\<lambda>(w, d).
     let w1 = Update_locked mutator now w in (w1, Status_write au e (sw_path w) (sw_last w1) d))"

section \<open>What a reader finds\<close>

text \<open>A sequence of updates, each with what the file system does meanwhile.\<close>

type_synonym status_update = "auth_env \<times> status_env \<times> (StatusSnapshot \<Rightarrow> StatusSnapshot) \<times> int"

definition run_updates :: "status_update list \<Rightarrow> StatusWriter \<times> disk \<Rightarrow> StatusWriter \<times> disk" where
  "run_updates us s = fold (\<lambda>(au, e, m, now). Status_Update au e m now) us s"

text \<open>The texts of the snapshots that were current after one of the updates.\<close>

definition snapshot_texts :: "status_update list \<Rightarrow> StatusWriter \<Rightarrow> content set" where
  "snapshot_texts us w =
     {Plain raw | i raw. i < length us \<and>
        st_text (fst (snd (us ! i))) (sw_last (fold (\<lambda>(au, e, m, now). Update_locked m now) (take (Suc i) us) w)) = Some raw}"

lemma Status_Update_simps [simp]:
  "fst (Status_Update au e m now s) = Update_locked m now (fst s)"
  "snd (Status_Update au e m now s) = Status_write au e (sw_path (fst s)) (sw_last (Update_locked m now (fst s))) (snd s)"
  by (simp_all add: Status_Update_def Let_def split: prod.split)

lemma run_updates_writer: "fst (run_updates us s) = fold (\<lambda>(au, e, m, now). Update_locked m now) us (fst s)"
  unfolding run_updates_def by (induction us arbitrary: s) (auto split: prod.split)

lemma sw_path_updates [simp]: "sw_path (fold (\<lambda>(au, e, m, now). Update_locked m now) us w) = sw_path w"
  by (induction us arbitrary: w) (auto simp: Update_locked_def split: prod.split)

lemma Status_write_file:
  "Status_write au e path s d path = d path \<or> (\<exists>raw. st_text e s = Some raw \<and> Status_write au e path s d path = Some (Plain raw))"
  by (auto simp: Status_write_def writeFile_def renameFile_def Let_def split: option.split write_outcome.split)

lemma Status_write_frame: "p \<noteq> path \<Longrightarrow> p \<noteq> path @ ''.tmp'' \<Longrightarrow> Status_write au e path s d p = d p"
  by (auto simp: Status_write_def writeFile_def renameFile_def Let_def split: option.split write_outcome.split)

text \<open>One more update: the run goes on from where it was, and its snapshot is added.\<close>

lemma run_updates_snoc:
  "snd (run_updates (us @ [(au, e, m, now)]) (w, d)) =
     Status_write au e (sw_path w) (sw_last (fst (run_updates (us @ [(au, e, m, now)]) (w, d)))) (snd (run_updates us (w, d)))"
proof -
  have "sw_path (fst (run_updates us (w, d))) = sw_path w" by (simp add: run_updates_writer)
  then show ?thesis by (simp add: run_updates_def)
qed

lemma snapshot_texts_snoc:
  "snapshot_texts us w \<subseteq> snapshot_texts (us @ [u]) w"
  "st_text e (sw_last (fst (run_updates (us @ [(au, e, m, now)]) (w, d)))) = Some raw \<Longrightarrow>
     Plain raw \<in> snapshot_texts (us @ [(au, e, m, now)]) w"
proof -
  show "snapshot_texts us w \<subseteq> snapshot_texts (us @ [u]) w"
  proof
    fix c assume "c \<in> snapshot_texts us w"
    then obtain i raw where i: "c = Plain raw" "i < length us" "st_text (fst (snd (us ! i)))
        (sw_last (fold (\<lambda>(au, e, m, now). Update_locked m now) (take (Suc i) us) w)) = Some raw"
      unfolding snapshot_texts_def by blast
    then have "i < length (us @ [u])" "(us @ [u]) ! i = us ! i" "take (Suc i) (us @ [u]) = take (Suc i) us"
      by (simp_all add: nth_append)
    with i show "c \<in> snapshot_texts (us @ [u]) w" unfolding snapshot_texts_def by fastforce
  qed
  show "Plain raw \<in> snapshot_texts (us @ [(au, e, m, now)]) w"
    if "st_text e (sw_last (fst (run_updates (us @ [(au, e, m, now)]) (w, d)))) = Some raw"
    unfolding snapshot_texts_def using that by (auto simp: run_updates_writer intro!: exI[of _ "length us"])
qed

lemma run_updates_file:
  "snd (run_updates us (w, d)) (sw_path w) = d (sw_path w) \<or>
   (\<exists>c\<in>snapshot_texts us w. snd (run_updates us (w, d)) (sw_path w) = Some c)"
proof (induction us rule: rev_induct)
  case (snoc u us)
  obtain ua ue um un where u: "u = (ua, ue, um, un)" by (cases u)
  let ?last = "sw_last (fst (run_updates (us @ [u]) (w, d)))" and ?d = "snd (run_updates us (w, d))"
  from Status_write_file[of ua ue "sw_path w" ?last ?d] show ?case
  proof (elim disjE exE conjE)
    assume "Status_write ua ue (sw_path w) ?last ?d (sw_path w) = ?d (sw_path w)"
    then show ?thesis using snoc.IH snapshot_texts_snoc(1)[of us w u] by (auto simp: u run_updates_snoc)
  next
    fix raw assume "st_text ue ?last = Some raw" "Status_write ua ue (sw_path w) ?last ?d (sw_path w) = Some (Plain raw)"
    then show ?thesis using snapshot_texts_snoc(2)[of ue us ua um un w d raw] unfolding u run_updates_snoc by blast
  qed
qed (simp add: run_updates_def)

lemma run_updates_frame:
  "p \<noteq> sw_path w \<Longrightarrow> p \<noteq> sw_path w @ ''.tmp'' \<Longrightarrow> snd (run_updates us (w, d)) p = d p"
proof (induction us rule: rev_induct)
  case (snoc u us)
  then show ?case by (cases u) (simp add: run_updates_snoc Status_write_frame)
qed (simp add: run_updates_def)

lemma Status_write_ok:
  assumes "path \<noteq> ''''" and "au_write au (path @ ''.tmp'') = WriteOk" and "st_renames e" and "st_text e s = Some raw"
  shows "Status_write au e path s d path = Some (Plain raw)"
  using assms by (simp add: Status_write_def writeFile_def renameFile_def Let_def)

text \<open>
  C30. Whatever writes and renames fail, and however a failed write leaves the temporary file: a reader of the
  status file finds what was there before the updates, or the whole text of a snapshot that was current after one of them;
  no other file but the temporary one changes; and if the last update meets no failure, its snapshot is what is found.
\<close>

theorem status_file_whole:
  assumes "path = sw_path w"
  shows "(snd (run_updates us (w, d)) path = d path \<or>
        (\<exists>c\<in>snapshot_texts us w. snd (run_updates us (w, d)) path = Some c)) \<and>
     (p \<noteq> path \<longrightarrow> p \<noteq> path @ ''.tmp'' \<longrightarrow> snd (run_updates us (w, d)) p = d p) \<and>
     (us \<noteq> [] \<longrightarrow> last us = (au, e, m, now) \<longrightarrow> path \<noteq> '''' \<longrightarrow> au_write au (path @ ''.tmp'') = WriteOk \<longrightarrow> st_renames e \<longrightarrow>
        st_text e (sw_last (fst (run_updates us (w, d)))) = Some raw \<longrightarrow>
        snd (run_updates us (w, d)) path = Some (Plain raw))"
proof (intro conjI impI)
  show "snd (run_updates us (w, d)) path = d path \<or> (\<exists>c\<in>snapshot_texts us w. snd (run_updates us (w, d)) path = Some c)"
    unfolding assms by (rule run_updates_file)
  show "snd (run_updates us (w, d)) p = d p" if "p \<noteq> path" "p \<noteq> path @ ''.tmp''"
    using that run_updates_frame assms by blast
  assume last: "us \<noteq> []" "last us = (au, e, m, now)" and ok: "path \<noteq> ''''" "au_write au (path @ ''.tmp'') = WriteOk" "st_renames e"
    "st_text e (sw_last (fst (run_updates us (w, d)))) = Some raw"
  obtain vs where "us = vs @ [(au, e, m, now)]" using last by (metis append_butlast_last_id)
  then show "snd (run_updates us (w, d)) path = Some (Plain raw)"
    using Status_write_ok[OF ok] run_updates_snoc assms by metis
qed

theorem status_file_whole_witness:
  "snd (run_updates [(machine_env, \<lparr>st_text = \<lambda>s. Some (sn_ProfileName s), st_renames = True\<rparr>, \<lambda>s. s\<lparr>sn_ProfileName := ''n''\<rparr>, 5)]
       (NewStatusWriter ''data'', Map.empty)) ''data/status.json'' = Some (Plain ''n'')"
proof -
  have path: "''data/status.json'' = sw_path (NewStatusWriter ''data'')"
    by (simp add: NewStatusWriter_def statusFile_def path_Join_def path_Clean_def isRooted_def showPath_def)
  show ?thesis
    using status_file_whole[OF path, where us = "[(machine_env, \<lparr>st_text = \<lambda>s. Some (sn_ProfileName s), st_renames = True\<rparr>,
          \<lambda>s. s\<lparr>sn_ProfileName := ''n''\<rparr>, 5)]" and d = Map.empty and raw = "''n''"]
    by (simp add: machine_env_def pending_env_def run_updates_writer Update_locked_def)
qed

text \<open>Two updates at once: the writing is outside the mutex, so the earlier snapshot may be written last.\<close>

lemma status_writes_reordered:
  assumes "path \<noteq> ''''" and "au_write au (path @ ''.tmp'') = WriteOk" and "st_renames e"
    and "st_text e s1 = Some raw1" and "st_text e s2 = Some raw2"
  shows "Status_write au e path s1 (Status_write au e path s2 d) path = Some (Plain raw1)"
  using assms by (simp add: Status_write_ok)

end
