(* ===== verification/IpcServer.thy ===== *)
theory IpcServer
  imports Messages "HOL-Library.Multiset" "HOL-Library.AList"
begin

text \<open>
  The JSON-RPC server that a launcher drives over standard input and output: \<^verbatim>\<open>protocol.go\<close>, \<^verbatim>\<open>writer.go\<close>, \<^verbatim>\<open>server.go\<close>
  and \<^verbatim>\<open>blocklist.go\<close> of \<^verbatim>\<open>src/internal/ipc\<close>.

  A line of input is its text; \<^verbatim>\<open>parse\<close>, an argument, is the JSON parser. What was written is the list of lines
  \<^verbatim>\<open>lines\<close>. The state that methods work on extends the writer's record, so the server is independent of it. Requests
  are served by goroutines of their own: \<^verbatim>\<open>run_step\<close> interleaves them with the reading of further lines, one whole
  request at a time. Writing to standard output is taken to succeed.
\<close>

section \<open>Model\<close>

subsection \<open>Protocol and writer\<close>

record Request =
  rq_JSONRPC :: string
  rq_ID :: "json option"
  rq_Method :: string
  rq_Params :: "json option"

text \<open>\<^verbatim>\<open>Data\<close> holds an error's text, a JSON value, or what a panic carried.\<close>

datatype err_data = NoData | ErrText | DataJson json | PanicValue

record RPCError =
  er_Code :: int
  er_Message :: string
  er_Data :: err_data

definition CodeParseError :: int where "CodeParseError = -32700"
definition CodeInvalidRequest :: int where "CodeInvalidRequest = -32600"
definition CodeMethodNotFound :: int where "CodeMethodNotFound = -32601"
definition CodeInvalidParams :: int where "CodeInvalidParams = -32602"
definition CodeInternalError :: int where "CodeInternalError = -32603"
definition CodeNotAuthenticated :: int where "CodeNotAuthenticated = -32001"
definition CodeAlreadyRunning :: int where "CodeAlreadyRunning = -32002"
definition CodeAPIError :: int where "CodeAPIError = -32010"
definition CodeNotFound :: int where "CodeNotFound = -32011"

definition newError :: "int \<Rightarrow> string \<Rightarrow> RPCError" where
  "newError code msg = \<lparr>er_Code = code, er_Message = msg, er_Data = NoData\<rparr>"

definition newErrorf :: "int \<Rightarrow> string \<Rightarrow> err_data \<Rightarrow> RPCError" where
  "newErrorf code msg data = \<lparr>er_Code = code, er_Message = msg, er_Data = data\<rparr>"

datatype out_line =
    Response json json
  | ErrorResponse json RPCError
  | Notification string json

record Writer =
  lines :: "out_line list"

definition writeLine :: "out_line \<Rightarrow> 'a Writer_scheme \<Rightarrow> 'a Writer_scheme" where
  "writeLine l w = w\<lparr>lines := lines w @ [l]\<rparr>"

text \<open>A nil \<^verbatim>\<open>json.RawMessage\<close> is written as null.\<close>

definition rawID :: "json option \<Rightarrow> json" where
  "rawID i = (case i of None \<Rightarrow> JNull | Some v \<Rightarrow> v)"

definition Respond :: "json option \<Rightarrow> json \<Rightarrow> 'a Writer_scheme \<Rightarrow> 'a Writer_scheme" where
  "Respond i result w = writeLine (Response (rawID i) result) w"

definition RespondError :: "json option \<Rightarrow> RPCError \<Rightarrow> 'a Writer_scheme \<Rightarrow> 'a Writer_scheme" where
  "RespondError i err w = writeLine (ErrorResponse (rawID i) err) w"

definition Notify :: "string \<Rightarrow> json \<Rightarrow> 'a Writer_scheme \<Rightarrow> 'a Writer_scheme" where
  "Notify name params w = writeLine (Notification name params) w"

definition decodeRequest :: "json \<Rightarrow> Request option" where
  "decodeRequest v =
     (case unmarshalPayload v of
        None \<Rightarrow> None
      | Some m \<Rightarrow>
          (case (strField (jfields ''jsonrpc'' m), strField (jfields ''method'' m)) of
             (Some version, Some name) \<Rightarrow>
               Some \<lparr>rq_JSONRPC = version, rq_ID = rawField (jfields ''id'' m), rq_Method = name,
                     rq_Params = rawField (jfields ''params'' m)\<rparr>
           | _ \<Rightarrow> None))"

subsection \<open>Server\<close>

text \<open>A method returns an error or a result (\<^verbatim>\<open>None\<close> is nil), or panics, and leaves a state; it may also wait for ever.\<close>

datatype 's call = Returned "RPCError + json option" 's | Panicked 's | Blocked 's

type_synonym 's MethodFunc = "json option \<Rightarrow> 's \<Rightarrow> 's call"

type_synonym 's methods = "string \<Rightarrow> 's MethodFunc option"

definition Register :: "string \<Rightarrow> 's MethodFunc \<Rightarrow> 's methods \<Rightarrow> 's methods" where
  "Register name fn ms = ms(name \<mapsto> fn)"

definition dispatch ::
    "'a Writer_scheme methods \<Rightarrow> (string \<Rightarrow> json option) \<Rightarrow> string \<Rightarrow> 'a Writer_scheme \<Rightarrow> 'a Writer_scheme outcome" where
  "dispatch ms parse raw w =
     (case Option.bind (parse raw) decodeRequest of
        None \<Rightarrow> Done (RespondError None (newErrorf CodeParseError ''parse error'' ErrText) w)
      | Some req \<Rightarrow>
          if rq_JSONRPC req \<noteq> ''2.0''
          then Done (RespondError (rq_ID req) (newError CodeInvalidRequest ''jsonrpc must be \"2.0\"'') w)
          else (case ms (rq_Method req) of
                  None \<Rightarrow>
                    Done (RespondError (rq_ID req) (newError CodeMethodNotFound (''method not found: '' @ rq_Method req)) w)
                | Some fn \<Rightarrow>
                    (case fn (rq_Params req) w of
                       Panicked w1 \<Rightarrow>
                         Done (RespondError (rq_ID req) (newErrorf CodeInternalError ''internal panic'' PanicValue) w1)
                     | Blocked w1 \<Rightarrow> Hang w1
                     | Returned r w1 \<Rightarrow>
                         if rq_ID req = None then Done w1
                         else (case r of
                                 Inl err \<Rightarrow> Done (RespondError (rq_ID req) err w1)
                               | Inr result \<Rightarrow>
                                   Done (Respond (rq_ID req) (case result of None \<Rightarrow> JObj [] | Some v \<Rightarrow> v) w1)))))"

text \<open>
  \<^verbatim>\<open>Run\<close>: the scanner's remaining lines, the goroutines that have been started and not finished, whether the context is
  cancelled, and the loop's phase. A line longer than 4 MB ends the scan with an error. The context is looked at only
  after a line that is not empty has been handed out.
\<close>

datatype phase = Scanning | AwaitingCalls bool | RunEnded bool

record 's ServerRun =
  sr_input :: "string list"
  sr_serving :: "string list"
  sr_stuck :: "string list"
  sr_cancelled :: bool
  sr_phase :: phase
  sr_state :: 's
  sr_accepted :: "string list"

definition maxLine :: nat where "maxLine = 4 * 1024 * 1024"

definition NewRun :: "string list \<Rightarrow> 's \<Rightarrow> 's ServerRun" where
  "NewRun input s =
     \<lparr>sr_input = input, sr_serving = [], sr_stuck = [], sr_cancelled = False, sr_phase = Scanning, sr_state = s, sr_accepted = []\<rparr>"

definition scan :: "'s ServerRun \<Rightarrow> 's ServerRun" where
  "scan r =
     (case sr_input r of
        [] \<Rightarrow> r\<lparr>sr_phase := AwaitingCalls False\<rparr>
      | l # ls \<Rightarrow>
          if maxLine \<le> length l then r\<lparr>sr_phase := AwaitingCalls True\<rparr>
          else if l = '''' then r\<lparr>sr_input := ls\<rparr>
          else r\<lparr>sr_input := ls, sr_serving := sr_serving r @ [l], sr_accepted := sr_accepted r @ [l],
                 sr_phase := (if sr_cancelled r then AwaitingCalls False else Scanning)\<rparr>)"

definition serve ::
    "'a Writer_scheme methods \<Rightarrow> (string \<Rightarrow> json option) \<Rightarrow> string \<Rightarrow> 'a Writer_scheme ServerRun \<Rightarrow> 'a Writer_scheme ServerRun" where
  "serve ms parse l r =
     (case dispatch ms parse l (sr_state r) of
        Done s \<Rightarrow> r\<lparr>sr_serving := remove1 l (sr_serving r), sr_state := s\<rparr>
      | Hang s \<Rightarrow> r\<lparr>sr_serving := remove1 l (sr_serving r), sr_stuck := l # sr_stuck r, sr_state := s\<rparr>
      | Panic s \<Rightarrow> r\<lparr>sr_state := s\<rparr>)"

text \<open>\<^verbatim>\<open>s.Quit\<close> closes \<^verbatim>\<open>quitCh\<close> once, and the goroutine beside the loop cancels the context; \<^verbatim>\<open>s.quit\<close> of the methods and
  the signal handler both call it at any time.\<close>

inductive run_step ::
    "'a Writer_scheme methods \<Rightarrow> (string \<Rightarrow> json option) \<Rightarrow> 'a Writer_scheme ServerRun \<Rightarrow> 'a Writer_scheme ServerRun \<Rightarrow> bool"
  for ms parse where
  scanned: "sr_phase r = Scanning \<Longrightarrow> run_step ms parse r (scan r)"
| served: "l \<in> set (sr_serving r) \<Longrightarrow> run_step ms parse r (serve ms parse l r)"
| read_failed: "sr_phase r = Scanning \<Longrightarrow> run_step ms parse r (r\<lparr>sr_phase := AwaitingCalls True\<rparr>)"
| cancelled: "run_step ms parse r (r\<lparr>sr_cancelled := True\<rparr>)"
| finished: "sr_phase r = AwaitingCalls err \<Longrightarrow> sr_serving r = [] \<Longrightarrow> sr_stuck r = [] \<Longrightarrow>
     run_step ms parse r (r\<lparr>sr_phase := RunEnded err\<rparr>)"

inductive_cases run_stepE: "run_step ms parse r r'"

subsection \<open>Blocklist\<close>

text \<open>The file: absent, unreadable, not JSON, or a JSON value. The map is an association list with distinct keys.\<close>

datatype bl_file = Absent | Unreadable | NotJson | FileJson json

datatype bl_error = BlReadError | BlJsonError | BlWriteError

record Blocklist =
  bl_ids :: "(uuid \<times> string) list"
  bl_file :: bl_file

definition blockRow :: "json \<Rightarrow> (string \<times> string) option" where
  "blockRow v =
     (case unmarshalPayload v of
        None \<Rightarrow> None
      | Some m \<Rightarrow>
          (case (strField (jfields ''profileId'' m), strField (jfields ''name'' m)) of
             (Some i, Some n) \<Rightarrow> Some (i, n)
           | _ \<Rightarrow> None))"

definition blockRows :: "json \<Rightarrow> (string \<times> string) list option" where
  "blockRows v =
     (case v of
        JNull \<Rightarrow> Some []
      | JArr vs \<Rightarrow> if list_all (\<lambda>x. blockRow x \<noteq> None) vs then Some (map (the \<circ> blockRow) vs) else None
      | _ \<Rightarrow> None)"

definition LoadBlocklist :: "(string \<Rightarrow> uuid option) \<Rightarrow> bl_file \<Rightarrow> bl_error + Blocklist" where
  "LoadBlocklist parse_uuid file =
     (case file of
        Absent \<Rightarrow> Inr \<lparr>bl_ids = [], bl_file = file\<rparr>
      | Unreadable \<Rightarrow> Inl BlReadError
      | NotJson \<Rightarrow> Inl BlJsonError
      | FileJson v \<Rightarrow>
          (case blockRows v of
             None \<Rightarrow> Inl BlJsonError
           | Some rows \<Rightarrow>
               Inr \<lparr>bl_ids = fold (\<lambda>(i, n) m. case parse_uuid i of None \<Rightarrow> m | Some u \<Rightarrow> AList.update u n m) rows [],
                    bl_file = file\<rparr>))"

definition Snapshot :: "(uuid \<Rightarrow> string) \<Rightarrow> Blocklist \<Rightarrow> json list" where
  "Snapshot uuid_text b =
     map (\<lambda>(i, name). JObj [(''name'', JStr name), (''profileId'', JStr (uuid_text i))]) (bl_ids b)"

text \<open>\<^verbatim>\<open>torn\<close> is the file a failed \<^verbatim>\<open>os.WriteFile\<close> left, \<^verbatim>\<open>None\<close> when it succeeded.\<close>

definition Blocklist_save :: "(uuid \<Rightarrow> string) \<Rightarrow> bl_file option \<Rightarrow> Blocklist \<Rightarrow> bl_error option \<times> Blocklist" where
  "Blocklist_save uuid_text torn b =
     (case torn of
        None \<Rightarrow> (None, b\<lparr>bl_file := FileJson (JArr (Snapshot uuid_text b))\<rparr>)
      | Some f \<Rightarrow> (Some BlWriteError, b\<lparr>bl_file := f\<rparr>))"

definition Has :: "uuid \<Rightarrow> Blocklist \<Rightarrow> bool" where
  "Has i b \<longleftrightarrow> map_of (bl_ids b) i \<noteq> None"

definition Blocklist_Add :: "(uuid \<Rightarrow> string) \<Rightarrow> bl_file option \<Rightarrow> uuid \<Rightarrow> string \<Rightarrow> Blocklist \<Rightarrow> bl_error option \<times> Blocklist" where
  "Blocklist_Add uuid_text torn i name b = Blocklist_save uuid_text torn (b\<lparr>bl_ids := AList.update i name (bl_ids b)\<rparr>)"

definition Blocklist_Remove :: "(uuid \<Rightarrow> string) \<Rightarrow> bl_file option \<Rightarrow> uuid \<Rightarrow> Blocklist \<Rightarrow> bl_error option \<times> Blocklist" where
  "Blocklist_Remove uuid_text torn i b = Blocklist_save uuid_text torn (b\<lparr>bl_ids := AList.delete i (bl_ids b)\<rparr>)"

section \<open>Every request is answered once\<close>

text \<open>The ids of the answers among the lines written, and the id a line of input is owed an answer to.\<close>

definition answered :: "out_line \<Rightarrow> json option" where
  "answered l = (case l of Response i r \<Rightarrow> Some i | ErrorResponse i err \<Rightarrow> Some i | Notification name p \<Rightarrow> None)"

definition answers :: "'a Writer_scheme \<Rightarrow> json list" where
  "answers w = List.map_filter answered (lines w)"

definition owed :: "(string \<Rightarrow> json option) \<Rightarrow> string \<Rightarrow> json option" where
  "owed parse raw = (case Option.bind (parse raw) decodeRequest of None \<Rightarrow> Some JNull | Some req \<Rightarrow> rq_ID req)"

primrec call_state :: "'s call \<Rightarrow> 's" where
  "call_state (Returned r s) = s"
| "call_state (Panicked s) = s"
| "call_state (Blocked s) = s"

lemma map_filter_single [simp]: "List.map_filter f [x] = (case f x of None \<Rightarrow> [] | Some y \<Rightarrow> [y])"
  by (simp add: List.map_filter_def split: option.split)

lemma answers_write [simp]:
  "answers (Respond i r w) = answers w @ [rawID i]"
  "answers (RespondError i err w) = answers w @ [rawID i]"
  "answers (Notify name p w) = answers w"
  by (simp_all add: answers_def Respond_def RespondError_def Notify_def writeLine_def answered_def)

lemma answers_cong: "lines w = lines w' \<Longrightarrow> answers w = answers w'"
  by (simp add: answers_def)

text \<open>The contract of a table of methods: they write notifications only. What the server promises rests on it.\<close>

locale rpc_methods =
  fixes ms :: "'a Writer_scheme methods"
  assumes quiet: "ms name = Some fn \<Longrightarrow> answers (call_state (fn params w)) = answers w"
begin

lemma dispatch_never_panics: "dispatch ms parse raw w \<noteq> Panic w'"
  by (auto simp: dispatch_def split: option.splits sum.splits call.splits)

lemma quiet_calls:
  "ms name = Some fn \<Longrightarrow> fn p w = Returned r s \<Longrightarrow> answers s = answers w"
  "ms name = Some fn \<Longrightarrow> fn p w = Panicked s \<Longrightarrow> answers s = answers w"
  "ms name = Some fn \<Longrightarrow> fn p w = Blocked s \<Longrightarrow> answers s = answers w"
  using quiet[of name fn p w] by simp_all

lemma dispatch_Done:
  assumes "dispatch ms parse raw w = Done w'"
  shows "(case owed parse raw of
            Some v \<Rightarrow> answers w' = answers w @ [v]
          | None \<Rightarrow> answers w' = answers w \<or> answers w' = answers w @ [JNull])"
  using assms
  by (auto simp: dispatch_def owed_def rawID_def split: option.splits sum.splits call.splits if_splits
      dest: quiet_calls)

lemma dispatch_Hang: "dispatch ms parse raw w = Hang w' \<Longrightarrow> answers w' = answers w"
  by (auto simp: dispatch_def split: option.splits sum.splits call.splits if_splits dest: quiet_calls)

end

text \<open>For each id but null: answers given plus answers still owed are the answers asked for.\<close>

definition owing :: "(string \<Rightarrow> json option) \<Rightarrow> string list \<Rightarrow> json list" where
  "owing parse ls = List.map_filter (owed parse) ls"

definition run_inv :: "(string \<Rightarrow> json option) \<Rightarrow> string list \<Rightarrow> 'a Writer_scheme \<Rightarrow> 'a Writer_scheme ServerRun \<Rightarrow> bool" where
  "run_inv parse input w0 r \<longleftrightarrow>
     (\<forall>v. v \<noteq> JNull \<longrightarrow>
        count_list (answers (sr_state r)) v + count_list (owing parse (sr_serving r @ sr_stuck r)) v =
        count_list (answers w0) v + count_list (owing parse (sr_accepted r)) v) \<and>
     filter (\<lambda>l. l \<noteq> '''') input = sr_accepted r @ filter (\<lambda>l. l \<noteq> '''') (sr_input r) \<and>
     (\<forall>err. sr_phase r = RunEnded err \<longrightarrow> sr_serving r = [] \<and> sr_stuck r = []) \<and>
     (sr_phase r = AwaitingCalls False \<or> sr_phase r = RunEnded False \<longrightarrow> sr_input r = [] \<or> sr_cancelled r)"

lemma owing_append [simp]: "owing parse (xs @ ys) = owing parse xs @ owing parse ys"
  by (simp add: owing_def)

lemma owing_Nil [simp]: "owing parse [] = []"
  by (simp add: owing_def List.map_filter_def)

lemma owing_Cons: "owing parse (x # xs) = (case owed parse x of None \<Rightarrow> [] | Some v \<Rightarrow> [v]) @ owing parse xs"
  by (simp add: owing_def List.map_filter_def split: option.split)

lemma count_owing_remove1:
  "l \<in> set ls \<Longrightarrow>
     count_list (owing parse ls) v = count_list (owing parse (remove1 l ls)) v + count_list (owing parse [l]) v"
  by (induction ls) (auto simp: owing_Cons split: option.split)

lemma run_inv_scan:
  assumes "run_inv parse input w0 r" and "sr_phase r = Scanning"
  shows "run_inv parse input w0 (scan r)"
proof (cases "sr_input r")
  case Nil
  with assms show ?thesis by (simp add: run_inv_def scan_def)
next
  case (Cons l ls)
  show ?thesis
  proof (cases "maxLine \<le> length l \<or> l = ''''")
    case True
    with assms Cons show ?thesis by (auto simp: run_inv_def scan_def)
  next
    case False
    with assms Cons show ?thesis by (auto simp: run_inv_def scan_def owing_Cons)
  qed
qed

context rpc_methods
begin

lemma run_inv_serve:
  assumes inv: "run_inv parse input w0 r" and l: "l \<in> set (sr_serving r)"
  shows "run_inv parse input w0 (serve ms parse l r)"
proof -
  have "\<forall>err. sr_phase r \<noteq> RunEnded err" using inv l by (auto simp: run_inv_def)
  moreover have "count_list (answers (sr_state (serve ms parse l r))) v +
      count_list (owing parse (sr_serving (serve ms parse l r) @ sr_stuck (serve ms parse l r))) v =
      count_list (answers (sr_state r)) v + count_list (owing parse (sr_serving r @ sr_stuck r)) v" if "v \<noteq> JNull" for v
  proof (cases "dispatch ms parse l (sr_state r)")
    case (Done s)
    then show ?thesis
      using dispatch_Done[OF Done] count_owing_remove1[OF l, of parse v] that
      by (auto simp: serve_def owing_Cons split: option.splits)
  next
    case (Hang s)
    then show ?thesis
      using dispatch_Hang[OF Hang] count_owing_remove1[OF l, of parse v]
      by (simp add: serve_def owing_Cons)
  next
    case (Panic s)
    then show ?thesis using dispatch_never_panics by blast
  qed
  ultimately show ?thesis
    using inv dispatch_never_panics[of parse l "sr_state r"]
    by (auto simp: run_inv_def serve_def split: outcome.splits)
qed

lemma run_inv_step: "run_step ms parse r r' \<Longrightarrow> run_inv parse input w0 r \<Longrightarrow> run_inv parse input w0 r'"
proof (induction rule: run_step.induct)
  case (scanned r)
  then show ?case by (blast intro: run_inv_scan)
next
  case (served l r)
  then show ?case by (blast intro: run_inv_serve)
next
  case (read_failed r)
  then show ?case by (simp add: run_inv_def)
next
  case (cancelled r)
  then show ?case by (auto simp: run_inv_def)
next
  case (finished r err)
  then show ?case by (auto simp: run_inv_def)
qed

lemma run_reachable: "(run_step ms parse)\<^sup>*\<^sup>* (NewRun input w0) r \<Longrightarrow> run_inv parse input w0 r"
  by (induction rule: rtranclp_induct) (simp_all add: run_inv_step, simp add: run_inv_def NewRun_def)

text \<open>When \<^verbatim>\<open>Run\<close> has returned, every id but null was answered as often as it was asked.\<close>

lemma run_answers:
  assumes "(run_step ms parse)\<^sup>*\<^sup>* (NewRun input w0) r" and "sr_phase r = RunEnded err" and "v \<noteq> JNull"
  shows "count_list (answers (sr_state r)) v = count_list (answers w0) v + count_list (owing parse (sr_accepted r)) v"
  using run_reachable[OF assms(1)] assms(2,3) by (auto simp: run_inv_def)

lemma run_accepts:
  assumes "(run_step ms parse)\<^sup>*\<^sup>* (NewRun input w0) r"
  shows "\<exists>rest. filter (\<lambda>l. l \<noteq> '''') input = sr_accepted r @ rest \<and>
          (sr_phase r = RunEnded False \<and> \<not> sr_cancelled r \<longrightarrow> rest = [])"
  using run_reachable[OF assms] by (auto simp: run_inv_def)

end

section \<open>The blocklist\<close>

text \<open>What a blocklist promises: membership follows the operations.\<close>

locale block_set =
  fixes has :: "'i \<Rightarrow> 'b \<Rightarrow> bool"
    and add :: "'i \<Rightarrow> 'n \<Rightarrow> 'b \<Rightarrow> 'b"
    and remove :: "'i \<Rightarrow> 'b \<Rightarrow> 'b"
  assumes has_add: "has j (add i n b) \<longleftrightarrow> j = i \<or> has j b"
    and has_remove: "has j (remove i b) \<longleftrightarrow> j \<noteq> i \<and> has j b"
begin

lemma add_remove: "has j (remove i (add i n b)) \<longleftrightarrow> j \<noteq> i \<and> has j b"
  by (auto simp: has_add has_remove)

lemma has_fold_add: "has j (fold (\<lambda>(i, n). add i n) xs b) \<longleftrightarrow> j \<in> fst ` set xs \<or> has j b"
  by (induction xs arbitrary: b) (auto simp: has_add)

end

interpretation blocks: block_set Has "\<lambda>i n b. snd (Blocklist_Add uuid_text torn i n b)"
    "\<lambda>i b. snd (Blocklist_Remove uuid_text torn i b)" for uuid_text torn
  by unfold_locales
    (auto simp: Has_def Blocklist_Add_def Blocklist_Remove_def Blocklist_save_def update_conv' delete_conv'
      split: option.splits)

definition bl_wf :: "Blocklist \<Rightarrow> bool" where
  "bl_wf b \<longleftrightarrow> distinct (map fst (bl_ids b))"

lemma bl_wf_load: "LoadBlocklist parse_uuid f = Inr b \<Longrightarrow> bl_wf b"
proof -
  have "distinct (map fst (fold (\<lambda>(i, n) m. case parse_uuid i of None \<Rightarrow> m | Some u \<Rightarrow> AList.update u n m) rows m))"
    if "distinct (map fst m)" for rows :: "(string \<times> string) list" and m :: "(uuid \<times> string) list"
    using that by (induction rows arbitrary: m) (auto simp: distinct_update split: option.split)
  then show "LoadBlocklist parse_uuid f = Inr b \<Longrightarrow> bl_wf b"
    by (auto simp: LoadBlocklist_def bl_wf_def split: bl_file.splits option.splits)
qed

lemma bl_wf_save [simp]: "bl_wf (snd (Blocklist_save uuid_text torn b)) = bl_wf b"
  by (simp add: Blocklist_save_def bl_wf_def split: option.split)

lemma bl_wf_ops:
  "bl_wf b \<Longrightarrow> bl_wf (snd (Blocklist_Add uuid_text torn i n b))"
  "bl_wf b \<Longrightarrow> bl_wf (snd (Blocklist_Remove uuid_text torn i b))"
  by (simp_all add: Blocklist_Add_def Blocklist_Remove_def) (simp_all add: bl_wf_def distinct_update distinct_delete)

lemma blockRows_Snapshot:
  "blockRows (JArr (Snapshot uuid_text b)) = Some (map (\<lambda>(i, n). (uuid_text i, n)) (bl_ids b))"
proof -
  have row: "blockRow (JObj [(''name'', JStr n), (''profileId'', JStr i)]) = Some (i, n)" for n i
    by (simp add: blockRow_def unmarshalPayload_def jfields_def strField_def lower_char_def)
  show ?thesis
    by (auto simp: blockRows_def Snapshot_def list_all_iff row split_beta)
qed

text \<open>Loading the file that was written gives the same map.\<close>

lemma load_saved_blocklist:
  assumes "bl_wf b" and "\<And>u. parse_uuid (uuid_text u) = Some u"
    and "Blocklist_save uuid_text None b = (err, b')"
  shows "\<exists>b''. LoadBlocklist parse_uuid (bl_file b') = Inr b'' \<and> map_of (bl_ids b'') = map_of (bl_ids b')"
proof -
  have fold_rows: "map_of (fold (\<lambda>(i, n) m. case parse_uuid i of None \<Rightarrow> m | Some u \<Rightarrow> AList.update u n m)
      (map (\<lambda>(i, n). (uuid_text i, n)) rows) m) = map_of m ++ map_of rows" if "distinct (map fst rows)"
    for rows m :: "(uuid \<times> string) list"
    using that
  proof (induction rows arbitrary: m)
    case Nil
    then show ?case by simp
  next
    case (Cons row rows)
    then have "map_of rows (fst row) = None" by (auto simp: map_of_eq_None_iff)
    with Cons show ?case
      by (cases row) (auto simp: assms(2) update_conv' map_add_def fun_eq_iff split: option.split)
  qed
  have b': "b' = b\<lparr>bl_file := FileJson (JArr (Snapshot uuid_text b))\<rparr>"
    using assms(3) by (simp add: Blocklist_save_def)
  with fold_rows[of "bl_ids b" "[]"] assms(1) show ?thesis
    by (simp add: LoadBlocklist_def blockRows_Snapshot bl_wf_def)
qed

datatype block_op = BlockAdd uuid string | BlockRemove uuid

fun apply_op :: "(uuid \<Rightarrow> string) \<Rightarrow> block_op \<Rightarrow> Blocklist \<Rightarrow> Blocklist" where
  "apply_op uuid_text (BlockAdd i n) b = snd (Blocklist_Add uuid_text None i n b)"
| "apply_op uuid_text (BlockRemove i) b = snd (Blocklist_Remove uuid_text None i b)"

fun abs_op :: "block_op \<Rightarrow> uuid set \<Rightarrow> uuid set" where
  "abs_op (BlockAdd i n) S = insert i S"
| "abs_op (BlockRemove i) S = S - {i}"

lemma apply_ops_wf: "bl_wf b \<Longrightarrow> bl_wf (fold (apply_op uuid_text) ops b)"
proof (induction ops arbitrary: b)
  case (Cons p ops)
  then show ?case by (cases p) (simp_all add: bl_wf_ops)
qed simp

lemma apply_ops_abs: "{i. Has i (fold (apply_op uuid_text) ops b)} = fold abs_op ops {i. Has i b}"
proof (induction ops arbitrary: b)
  case (Cons p ops)
  have "{i. Has i (apply_op uuid_text p b)} = abs_op p {i. Has i b}"
    by (cases p) (auto simp: blocks.has_add blocks.has_remove)
  with Cons show ?case by simp
qed simp

lemma apply_op_saves:
  "\<exists>b1 err. Blocklist_save uuid_text None b1 = (err, apply_op uuid_text p b) \<and> (bl_wf b \<longrightarrow> bl_wf b1)"
proof (cases p)
  case (BlockAdd i n)
  then show ?thesis
    by (intro exI[of _ "b\<lparr>bl_ids := AList.update i n (bl_ids b)\<rparr>"])
      (auto simp: Blocklist_Add_def Blocklist_save_def bl_wf_def distinct_update)
next
  case (BlockRemove i)
  then show ?thesis
    by (intro exI[of _ "b\<lparr>bl_ids := AList.delete i (bl_ids b)\<rparr>"])
      (auto simp: Blocklist_Remove_def Blocklist_save_def bl_wf_def distinct_delete)
qed

text \<open>
  C19. After any sequence of additions and removals that were written, the players blocked are those
  the set operations give, and a later run that loads the file blocks exactly the same players under the same names.
\<close>

theorem blocklist_persistent:
  assumes "\<And>u. parse_uuid (uuid_text u) = Some u" and "LoadBlocklist parse_uuid f = Inr b0" and "ops \<noteq> []"
    and "b = fold (apply_op uuid_text) ops b0"
  shows "{i. Has i b} = fold abs_op ops {i. Has i b0} \<and>
         (\<exists>b'. LoadBlocklist parse_uuid (bl_file b) = Inr b' \<and> map_of (bl_ids b') = map_of (bl_ids b))"
proof -
  obtain p ps where ops: "ops = ps @ [p]" using assms(3) by (cases ops rule: rev_cases) auto
  let ?b = "fold (apply_op uuid_text) ps b0"
  obtain b1 err where "Blocklist_save uuid_text None b1 = (err, apply_op uuid_text p ?b)" "bl_wf b1"
    using apply_op_saves[of uuid_text p ?b] apply_ops_wf[OF bl_wf_load[OF assms(2)]] by blast
  then have "\<exists>b'. LoadBlocklist parse_uuid (bl_file b) = Inr b' \<and> map_of (bl_ids b') = map_of (bl_ids b)"
    using load_saved_blocklist[of b1 parse_uuid uuid_text] assms(1,4) ops by simp
  then show ?thesis using assms(4) apply_ops_abs by simp
qed

theorem blocklist_persistent_witness:
  "\<exists>b'. LoadBlocklist Some (bl_file (apply_op (\<lambda>u. u) (BlockAdd ''a'' ''x'') \<lparr>bl_ids = [], bl_file = Absent\<rparr>)) = Inr b' \<and>
        map_of (bl_ids b') = [''a'' \<mapsto> ''x'']"
proof -
  have "LoadBlocklist Some Absent = Inr \<lparr>bl_ids = [], bl_file = Absent\<rparr>" by (simp add: LoadBlocklist_def)
  from blocklist_persistent[of Some "\<lambda>u. u", OF _ this, of "[BlockAdd ''a'' ''x'']"] show ?thesis
    by (auto simp: Blocklist_Add_def Blocklist_save_def)
qed

end
