(* ===== verification/Presence.thy ===== *)
theory Presence
  imports ApiClient "HOL-Library.AList"
begin

text \<open>
  The friends refresher and the presence broadcaster, \<^verbatim>\<open>src/internal/presence\<close>. The refresher polls the
  friends list, tells its observer what changed since the last poll and accepts new requests; the
  broadcaster posts the player's presence at an interval.

  The refresher's maps are association lists with distinct keys; Go ranges over a map in any order,
  the model in the list's. What the observer is told is recorded in \<^verbatim>\<open>rf_events\<close>.
\<close>

section \<open>Model\<close>

subsection \<open>Refresher\<close>

datatype obs_event =
    OnFriendAdded FriendDto
  | OnFriendRemoved uuid
  | OnIncomingRequest FriendDto
  | OnIncomingResolved uuid
  | OnOutgoingRequest FriendDto
  | OnOutgoingResolved uuid
  | OnInitialSnapshot FriendsListResponse

type_synonym id_map = "(uuid \<times> FriendDto) list"

record Refresher =
  rf_autoAccept :: bool
  rf_observer :: bool
  rf_primed :: bool
  knownFriends :: id_map
  knownIncoming :: id_map
  knownOutgoing :: id_map
  rf_events :: "obs_event list"

definition NewRefresher :: "bool \<Rightarrow> Refresher" where
  "NewRefresher autoAccept =
     \<lparr>rf_autoAccept = autoAccept, rf_observer = False, rf_primed = False, knownFriends = [], knownIncoming = [],
      knownOutgoing = [], rf_events = []\<rparr>"

definition SetObserver :: "bool \<Rightarrow> Refresher \<Rightarrow> Refresher" where
  "SetObserver obs r = r\<lparr>rf_observer := obs\<rparr>"

definition SetAutoAccept :: "bool \<Rightarrow> Refresher \<Rightarrow> Refresher" where
  "SetAutoAccept v r = r\<lparr>rf_autoAccept := v\<rparr>"

definition idMap :: "FriendDto list \<Rightarrow> id_map" where
  "idMap xs = fold (\<lambda>d m. AList.update (fd_ProfileID d) d m) xs []"

definition diffWithObserver ::
    "FriendDto list \<Rightarrow> id_map \<Rightarrow> id_map \<Rightarrow> (FriendDto \<Rightarrow> obs_event) \<Rightarrow> (uuid \<Rightarrow> obs_event) \<Rightarrow> obs_event list" where
  "diffWithObserver current known currentIDs onAdd onRemove =
     map onAdd (filter (\<lambda>d. map_of known (fd_ProfileID d) = None) current) @
     map onRemove (filter (\<lambda>i. map_of currentIDs i = None) (map fst known))"

definition autoAcceptOne :: "env \<Rightarrow> int \<Rightarrow> FriendDto \<Rightarrow> ApiClient \<Rightarrow> ApiClient" where
  "autoAcceptOne e now d c = snd (PutFriendAction e now (AddByID (fd_ProfileID d)) c)"

definition notify :: "obs_event list \<Rightarrow> Refresher \<Rightarrow> Refresher" where
  "notify evs r = (if rf_observer r then r\<lparr>rf_events := rf_events r @ evs\<rparr> else r)"

definition applyDiff ::
    "env \<Rightarrow> int \<Rightarrow> FriendsListResponse \<Rightarrow> Refresher \<Rightarrow> ApiClient \<Rightarrow> Refresher \<times> ApiClient" where
  "applyDiff e now resp r c =
     (let curF = idMap (Friends resp); curIn = idMap (IncomingRequests resp); curOut = idMap (OutgoingRequests resp);
          r1 = (if rf_primed r
                then notify (diffWithObserver (Friends resp) (knownFriends r) curF OnFriendAdded OnFriendRemoved @
                             diffWithObserver (IncomingRequests resp) (knownIncoming r) curIn OnIncomingRequest OnIncomingResolved @
                             diffWithObserver (OutgoingRequests resp) (knownOutgoing r) curOut OnOutgoingRequest OnOutgoingResolved) r
                else notify [OnInitialSnapshot resp] r);
          c1 = (if rf_autoAccept r
                then fold (autoAcceptOne e now)
                       (filter (\<lambda>d. map_of (knownIncoming r) (fd_ProfileID d) = None) (IncomingRequests resp)) c
                else c)
      in (r1\<lparr>knownFriends := curF, knownIncoming := curIn, knownOutgoing := curOut, rf_primed := True\<rparr>, c1))"

definition Refresher_tick :: "env \<Rightarrow> int \<Rightarrow> Refresher \<Rightarrow> ApiClient \<Rightarrow> Refresher \<times> ApiClient" where
  "Refresher_tick e now r c =
     (if FriendsInCooldown now c then (r, c)
      else (case GetFriends e now c of
              (Inl err, c1) \<Rightarrow> (r, c1)
            | (Inr None, c1) \<Rightarrow> (r, c1)
            | (Inr (Some resp), c1) \<Rightarrow> applyDiff e now resp r c1))"

text \<open>The ticks of the loop, each with what the services answer at that time.\<close>

definition Refresher_loop :: "(env \<times> int) list \<Rightarrow> Refresher \<times> ApiClient \<Rightarrow> Refresher \<times> ApiClient" where
  "Refresher_loop ts s = fold (\<lambda>(e, now) (r, c). Refresher_tick e now r c) ts s"

definition TickNow :: "env \<Rightarrow> int \<Rightarrow> Refresher \<Rightarrow> ApiClient \<Rightarrow> Refresher \<times> ApiClient" where
  "TickNow e now r c = Refresher_tick e now r c"

text \<open>
  The channel \<^verbatim>\<open>r.stop\<close>: nil, or whether it is closed; and the number of loops. Every loop reads \<^verbatim>\<open>r.stop\<close> anew at each of
  its turns, so closing the current channel ends all of them; \<^verbatim>\<open>Close\<close> waits for the one that was started last, and
  closing a closed channel panics.
\<close>

record RefresherLife =
  rl_stop :: "bool option"
  rl_loops :: nat

definition Refresher_Start :: "RefresherLife \<Rightarrow> RefresherLife" where
  "Refresher_Start l = l\<lparr>rl_stop := Some False, rl_loops := rl_loops l + 1\<rparr>"

definition Refresher_Close :: "RefresherLife \<Rightarrow> RefresherLife outcome" where
  "Refresher_Close l =
     (case rl_stop l of
        None \<Rightarrow> Done l
      | Some False \<Rightarrow> Done (l\<lparr>rl_stop := Some True, rl_loops := 0\<rparr>)
      | Some True \<Rightarrow> Panic l)"

lemma refresher_closed_twice:
  "Refresher_Close \<lparr>rl_stop = None, rl_loops = 0\<rparr> = Done \<lparr>rl_stop = None, rl_loops = 0\<rparr>"
  "\<exists>l'. Refresher_Close (Refresher_Start l) = Done l' \<and> rl_loops l' = 0 \<and> Refresher_Close l' = Panic l'"
  by (simp_all add: Refresher_Start_def Refresher_Close_def)

subsection \<open>Broadcaster\<close>

record Broadcaster =
  bc_status :: PresenceStatus
  bc_interval :: int64
  bc_invitePmids :: "uuid list"
  bc_running :: bool
  bc_stopped :: bool

definition NewBroadcaster :: "PresenceStatus \<Rightarrow> int64 \<Rightarrow> uuid list \<Rightarrow> Broadcaster" where
  "NewBroadcaster status interval invites =
     \<lparr>bc_status = status, bc_interval = interval, bc_invitePmids = invites, bc_running = False, bc_stopped = True\<rparr>"

text \<open>\<^verbatim>\<open>bc_stopped\<close>: the channel \<^verbatim>\<open>b.stop\<close> of the current loop is closed, or there is no loop.\<close>

definition Broadcaster_Start :: "Broadcaster \<Rightarrow> Broadcaster" where
  "Broadcaster_Start b = (if bc_running b then b else b\<lparr>bc_running := True, bc_stopped := False\<rparr>)"

definition presenceBody :: "Broadcaster \<Rightarrow> PresenceRequest" where
  "presenceBody b =
     \<lparr>pr_Status = bc_status b,
      pr_JoinInfo = (if bc_status b = StatusPlayingHostedServer then Some (NewJoinInfoUpdate (bc_invitePmids b)) else None)\<rparr>"

definition Broadcaster_tick :: "env \<Rightarrow> int \<Rightarrow> Broadcaster \<Rightarrow> ApiClient \<Rightarrow> ApiClient" where
  "Broadcaster_tick e now b c =
     (if PresenceInCooldown now c then c else snd (PostPresence e now (presenceBody b) c))"

text \<open>
  The goroutine: a tick at once, then one whenever the ticker fires, until \<^verbatim>\<open>stop\<close> is closed. \<^verbatim>\<open>time.NewTicker\<close> panics unless
  its interval, a number of nanoseconds of 64 bits, is positive.
\<close>

definition Broadcaster_loop :: "env \<times> int \<Rightarrow> (env \<times> int) list \<Rightarrow> Broadcaster \<Rightarrow> ApiClient \<Rightarrow> ApiClient outcome" where
  "Broadcaster_loop start fires b c =
     (let c1 = Broadcaster_tick (fst start) (snd start) b c
      in if sint (bc_interval b) \<le> 0 then Panic c1
         else Done (fold (\<lambda>(e, now). Broadcaster_tick e now b) fires c1))"

definition AnnounceOffline :: "env \<Rightarrow> int \<Rightarrow> ApiClient \<Rightarrow> (api_error + PresenceResponse option) \<times> ApiClient" where
  "AnnounceOffline e now c = PostPresence e now \<lparr>pr_Status = StatusOffline, pr_JoinInfo = None\<rparr> c"

definition Broadcaster_Close :: "Broadcaster \<Rightarrow> Broadcaster" where
  "Broadcaster_Close b = (if \<not> bc_running b then b else b\<lparr>bc_running := False, bc_stopped := True\<rparr>)"

section \<open>The observer's picture\<close>

text \<open>An observer that keeps the three sets of ids up to date from what it is told.\<close>

type_synonym picture = "uuid set \<times> uuid set \<times> uuid set"

definition ids :: "FriendDto list \<Rightarrow> uuid set" where
  "ids xs = fd_ProfileID ` set xs"

fun observe :: "obs_event \<Rightarrow> picture \<Rightarrow> picture" where
  "observe (OnFriendAdded d) (f, i, out) = (insert (fd_ProfileID d) f, i, out)"
| "observe (OnFriendRemoved u) (f, i, out) = (f - {u}, i, out)"
| "observe (OnIncomingRequest d) (f, i, out) = (f, insert (fd_ProfileID d) i, out)"
| "observe (OnIncomingResolved u) (f, i, out) = (f, i - {u}, out)"
| "observe (OnOutgoingRequest d) (f, i, out) = (f, i, insert (fd_ProfileID d) out)"
| "observe (OnOutgoingResolved u) (f, i, out) = (f, i, out - {u})"
| "observe (OnInitialSnapshot resp) _ = (ids (Friends resp), ids (IncomingRequests resp), ids (OutgoingRequests resp))"

definition known :: "Refresher \<Rightarrow> picture" where
  "known r = (dom (map_of (knownFriends r)), dom (map_of (knownIncoming r)), dom (map_of (knownOutgoing r)))"

lemma dom_idMap: "dom (map_of (idMap xs)) = ids xs"
proof -
  have "dom (map_of (fold (\<lambda>d m. AList.update (fd_ProfileID d) d m) xs m)) = ids xs \<union> dom (map_of m)" for m
    by (induction xs arbitrary: m) (auto simp: ids_def update_conv')
  from this[of "[]"] show ?thesis by (simp add: idMap_def)
qed

lemma fold_insert: "fold (\<lambda>d. insert (fd_ProfileID d)) ds A = A \<union> ids ds"
  by (induction ds arbitrary: A) (auto simp: ids_def)

lemma fold_remove: "fold (\<lambda>u B. B - {u}) us A = A - set us"
  by (induction us arbitrary: A) auto

lemma observe_friends:
  "fold observe (map OnFriendAdded ds) (f, i, out) = (f \<union> ids ds, i, out)"
  "fold observe (map OnFriendRemoved us) (f, i, out) = (f - set us, i, out)"
  by (induction ds arbitrary: f; auto simp: ids_def) (induction us arbitrary: f; auto)

lemma observe_incoming:
  "fold observe (map OnIncomingRequest ds) (f, i, out) = (f, i \<union> ids ds, out)"
  "fold observe (map OnIncomingResolved us) (f, i, out) = (f, i - set us, out)"
  by (induction ds arbitrary: i; auto simp: ids_def) (induction us arbitrary: i; auto)

lemma observe_outgoing:
  "fold observe (map OnOutgoingRequest ds) (f, i, out) = (f, i, out \<union> ids ds)"
  "fold observe (map OnOutgoingResolved us) (f, i, out) = (f, i, out - set us)"
  by (induction ds arbitrary: out; auto simp: ids_def) (induction us arbitrary: out; auto)

lemma diff_sets:
  "(dom (map_of k) \<union> ids (filter (\<lambda>d. map_of k (fd_ProfileID d) = None) current)) -
     set (filter (\<lambda>u. map_of (idMap current) u = None) (map fst k)) = ids current"
proof -
  let ?K = "dom (map_of k)"
  have added: "ids (filter (\<lambda>d. map_of k (fd_ProfileID d) = None) current) = ids current - ?K"
    by (auto simp: ids_def domIff)
  have "set (map fst k) = ?K" by (simp add: dom_map_of_conv_image_fst)
  then have gone: "set (filter (\<lambda>u. map_of (idMap current) u = None) (map fst k)) = ?K - ids current"
    using dom_idMap[of current] by (auto simp: domIff)
  show ?thesis unfolding added gone by blast
qed

lemma applyDiff_observed:
  assumes "rf_observer r" and "fold observe (rf_events r) ({}, {}, {}) = known r"
  shows "rf_observer (fst (applyDiff e now resp r c)) \<and>
     fold observe (rf_events (fst (applyDiff e now resp r c))) ({}, {}, {}) = known (fst (applyDiff e now resp r c))"
proof -
  have k: "known (fst (applyDiff e now resp r c)) =
      (ids (Friends resp), ids (IncomingRequests resp), ids (OutgoingRequests resp))"
    by (simp add: applyDiff_def known_def Let_def dom_idMap)
  show ?thesis
  proof (cases "rf_primed r")
    case True
    have "fold observe (rf_events (fst (applyDiff e now resp r c))) ({}, {}, {}) =
        (ids (Friends resp), ids (IncomingRequests resp), ids (OutgoingRequests resp))"
      using True assms
      by (simp add: applyDiff_def notify_def Let_def diffWithObserver_def known_def observe_friends observe_incoming
          observe_outgoing diff_sets del: set_filter)
    with k assms(1) show ?thesis by (simp add: applyDiff_def notify_def Let_def)
  next
    case False
    then show ?thesis using k assms(1) by (simp add: applyDiff_def notify_def Let_def)
  qed
qed


section \<open>Accepting requests\<close>

definition put_accepted :: "env \<Rightarrow> bool" where
  "put_accepted e \<longleftrightarrow> (\<forall>reqs r. rq_op r = ''PUT /friends'' \<longrightarrow> respond e (reqs @ [r]) = Resp 200 '''' '''' '''')"

lemma autoAcceptOne_accepted:
  assumes "put_accepted e" and "\<not> FriendsInCooldown now c"
  shows "autoAcceptOne e now d c =
     (logged (request ''PUT /friends'' False (ActionBody (AddByID (fd_ProfileID d))) '''' (tokenRefreshes c)) c)\<lparr>friendsETag := ''''\<rparr>"
proof -
  let ?r = "request ''PUT /friends'' False (ActionBody (AddByID (fd_ProfileID d))) '''' (tokenRefreshes c)"
  have "respond e (sentLog c @ [?r]) = Resp 200 '''' '''' ''''" using assms(1) by (simp add: put_accepted_def request_def)
  then show ?thesis
    using assms(2) doWithRetry_ok[of "respond e" c "''PUT /friends''" False "ActionBody (AddByID (fd_ProfileID d))" "''''" 200
        "''''" "''''" "''''" now endpointFriends] by (simp add: autoAcceptOne_def PutFriendAction_def firstNonEmpty_def Let_def)
qed

lemma fold_autoAccept:
  assumes "put_accepted e" and "\<not> FriendsInCooldown now c"
  shows "sentLog (fold (autoAcceptOne e now) ds c) = sentLog c @
     map (\<lambda>d. request ''PUT /friends'' False (ActionBody (AddByID (fd_ProfileID d))) '''' (tokenRefreshes c)) ds"
  using assms(2)
proof (induction ds arbitrary: c)
  case (Cons d ds)
  let ?c = "autoAcceptOne e now d c"
  have c: "?c = (logged (request ''PUT /friends'' False (ActionBody (AddByID (fd_ProfileID d))) '''' (tokenRefreshes c)) c)\<lparr>friendsETag := ''''\<rparr>"
    using autoAcceptOne_accepted[OF assms(1) Cons.prems] .
  then have "\<not> FriendsInCooldown now ?c" using Cons.prems by (simp add: logged_def FriendsInCooldown_def)
  from Cons.IH[OF this] show ?case by (simp add: c logged_def)
qed simp

text \<open>
  With auto-accept on, a poll accepts exactly the incoming requests that were not there at the poll before,
  each with one request that names the sender's id, in the order of the list; with auto-accept off it
  sends nothing.
\<close>

theorem auto_accept_new_requests:
  assumes "put_accepted e" and "\<not> FriendsInCooldown now c"
  shows "sentLog (snd (applyDiff e now resp r c)) = sentLog c @
     (if rf_autoAccept r
      then map (\<lambda>d. request ''PUT /friends'' False (ActionBody (AddByID (fd_ProfileID d))) '''' (tokenRefreshes c))
             (filter (\<lambda>d. fd_ProfileID d \<notin> fst ` set (knownIncoming r)) (IncomingRequests resp))
      else [])"
  using fold_autoAccept[OF assms] by (simp add: applyDiff_def Let_def map_of_eq_None_iff)

theorem auto_accept_new_requests_witness:
  "\<exists>e. sentLog (snd (applyDiff e 0 \<lparr>Friends = [], IncomingRequests = [\<lparr>fd_ProfileID = ''u'', fd_Name = ''Bob''\<rparr>], OutgoingRequests = []\<rparr>
       (NewRefresher True) (NewApiClient None))) = [request ''PUT /friends'' False (ActionBody (AddByID ''u'')) '''' 0]"
proof -
  let ?e = "(sample_env [])\<lparr>respond := (\<lambda>_. Resp 200 '''' '''' '''')\<rparr>"
  have "put_accepted ?e" by (simp add: put_accepted_def)
  from auto_accept_new_requests[OF this, of 0 "NewApiClient None"] show ?thesis
    by (intro exI[of _ ?e]) (simp add: NewApiClient_def NewRefresher_def FriendsInCooldown_def)
qed

section \<open>Broadcasting\<close>

interpretation bc_close: once_guarded Broadcaster_Close "\<lambda>b. \<not> bc_running b"
  by unfold_locales (simp_all add: Broadcaster_Close_def)

interpretation bc_start: once_guarded Broadcaster_Start bc_running
  by unfold_locales (simp_all add: Broadcaster_Start_def)

lemma tick_posts_presence:
  assumes "\<not> PresenceInCooldown now c"
  shows "\<exists>reqs. sentLog (Broadcaster_tick e now b c) = sentLog c @ reqs \<and> reqs \<noteq> [] \<and>
     list_all (\<lambda>r. rq_body r = PresenceBody (presenceBody b)) reqs"
proof -
  let ?d = "doWithRetry (respond e) now ''POST /presence'' endpointPresence True (PresenceBody (presenceBody b)) (presenceETag c) c"
  have log: "sentLog (Broadcaster_tick e now b c) = sentLog (snd ?d)"
    using assms
    by (auto simp: Broadcaster_tick_def PostPresence_def Let_def split: prod.split option.split)
  show ?thesis
    unfolding log by (auto simp: doWithRetry_cases logged_def request_def)
qed

end
