(* ===== verification/IpcMethods.thy ===== *)
theory IpcMethods
  imports IpcServer Presence Auth
begin

text \<open>
  The methods of \<^verbatim>\<open>src/internal/ipc/methods.go\<close>: sign-in, friends and blocks, with the parameters of
  \<^verbatim>\<open>cmd/openfriend/ipc.go\<close>, which wires them.

  The record \<^verbatim>\<open>Handlers\<close> extends the writer's and holds the session, the services client, the refresher and the
  blocklist. The client asks the session for tokens through an interface of its own, which its model represents
  by the number of refreshes; so a method changes the session only by the calls it makes itself. A method runs as
  one step. What comes from outside is collected in \<^verbatim>\<open>ipc_env\<close>.
\<close>

section \<open>Model\<close>

record ipc_env =
  ie_auth :: auth_env
  ie_api :: env
  ie_now :: int
  ie_uuid_text :: "uuid \<Rightarrow> string"
  ie_time_text :: "int \<Rightarrow> string"
  ie_fold :: "string \<Rightarrow> string \<Rightarrow> bool"
  ie_decode_text :: string
  ie_resolve_text :: "resolve_error \<Rightarrow> string"
  ie_torn :: "bl_file option"
  ie_removable :: bool

record Handlers = Writer +
  h_version :: string
  h_session :: AuthSession
  h_api :: ApiClient
  h_refresher :: Refresher
  h_authPath :: string
  h_blocklist :: "Blocklist option"
  h_authRun :: bool

subsection \<open>Parameters\<close>

text \<open>An \<^verbatim>\<open>int\<close> field: an integer in 64 bits; null leaves it alone.\<close>

definition intField :: "int \<Rightarrow> json list \<Rightarrow> int option" where
  "intField z vs =
     fold (\<lambda>v acc. case (v, acc) of
             (JNum r, Some _) \<Rightarrow> if of_int (trunc r) = r \<and> - (2 ^ 63) \<le> trunc r \<and> trunc r < 2 ^ 63 then Some (trunc r) else None
           | (JNull, _) \<Rightarrow> acc
           | _ \<Rightarrow> None) vs (Some z)"

record idParams =
  ip_ProfileID :: string
  ip_Name :: string

definition invalidParams :: RPCError where
  "invalidParams = newErrorf CodeInvalidParams ''invalid params'' ErrText"

definition parseIDParams :: "json option \<Rightarrow> RPCError + idParams" where
  "parseIDParams raw =
     (case raw of
        None \<Rightarrow> Inr \<lparr>ip_ProfileID = '''', ip_Name = ''''\<rparr>
      | Some v \<Rightarrow>
          (case unmarshalPayload v of
             None \<Rightarrow> Inl invalidParams
           | Some m \<Rightarrow>
               (case (strField (jfields ''profileId'' m), strField (jfields ''name'' m)) of
                  (Some i, Some n) \<Rightarrow> Inr \<lparr>ip_ProfileID = i, ip_Name = n\<rparr>
                | _ \<Rightarrow> Inl invalidParams)))"

definition ok :: "json option" where
  "ok = Some (JObj [(''ok'', JBool True)])"

subsection \<open>Session\<close>

definition version :: "json option \<Rightarrow> 'a Handlers_scheme \<Rightarrow> 'a Handlers_scheme call" where
  "version raw h =
     Returned (Inr (Some (JObj [(''protocolVersion'', JNum 1), (''version'', JStr (h_version h))]))) h"

definition authStatus :: "ipc_env \<Rightarrow> json option \<Rightarrow> 'a Handlers_scheme \<Rightarrow> 'a Handlers_scheme call" where
  "authStatus e raw h =
     Returned (Inr (Some
       (case CurrentTokens (h_session h) of
          None \<Rightarrow> JObj [(''authenticated'', JBool False)]
        | Some t \<Rightarrow>
            if ProfileID t = uuid_nil then JObj [(''authenticated'', JBool False)]
            else JObj [(''authenticated'', JBool True), (''expiresAt'', JStr (ie_time_text e (MojangExpiresAt t))),
                       (''name'', JStr (tk_Name t)), (''profileId'', JStr (ie_uuid_text e (ProfileID t)))]))) h"

text \<open>What both sign-in methods do when the account differs from the cached one.\<close>

definition forgetAccount :: "ipc_env \<Rightarrow> 'a Handlers_scheme \<Rightarrow> 'a Handlers_scheme" where
  "forgetAccount e h =
     (let s = h_session h;
          s1 = (if h_authPath h \<noteq> '''' then s\<lparr>se_disk := removeFile (ie_auth e) (h_authPath h) (se_disk s)\<rparr> else s);
          c = h_api h;
          c1 = (if h_authPath h \<noteq> '''' \<and> ie_removable e then c\<lparr>cacheFile := None\<rparr> else c)
      in h\<lparr>h_session := Session_ResetCache (ie_auth e) s1, h_api := ResetCache c1\<rparr>)"

text \<open>The prompts that a sign-in showed, which \<^verbatim>\<open>ipc.go\<close> passes on to the launcher.\<close>

definition promptNote :: "DeviceCodePrompt \<Rightarrow> json" where
  "promptNote p =
     JObj [(''expiresInSeconds'', JNum (of_int (trunc (of_int (sint (ExpiresIn p)) / 1000000000)))),
           (''message'', JStr (dp_Message p)), (''userCode'', JStr (UserCode p)),
           (''verificationUri'', JStr (VerificationURI p))]"

definition emitPrompts :: "DeviceCodePrompt list \<Rightarrow> 'a Writer_scheme \<Rightarrow> 'a Writer_scheme" where
  "emitPrompts ps h = fold (\<lambda>p. Notify ''auth.deviceCode'' (promptNote p)) ps h"

definition expectedProfile :: "ipc_env \<Rightarrow> json option \<Rightarrow> uuid option" where
  "expectedProfile e raw =
     (case Option.bind raw unmarshalPayload of
        None \<Rightarrow> None
      | Some m \<Rightarrow>
          (case strField (jfields ''expectedProfileId'' m) of
             None \<Rightarrow> None
           | Some s \<Rightarrow> if s = '''' then None else uuid_parse (ie_api e) s))"

text \<open>\<^verbatim>\<open>auth.signIn\<close> in three steps: taking the flag, the work, and the deferred release of the flag.\<close>

definition signInEnter :: "'a Handlers_scheme \<Rightarrow> (RPCError + 'a Handlers_scheme)" where
  "signInEnter h =
     (if h_authRun h then Inl (newError CodeAlreadyRunning ''sign-in already in progress'')
      else Inr (h\<lparr>h_authRun := True\<rparr>))"

definition signedInNote :: "ipc_env \<Rightarrow> uuid \<Rightarrow> string \<Rightarrow> json" where
  "signedInNote e i name = JObj [(''name'', JStr name), (''profileId'', JStr (ie_uuid_text e i))]"

definition signInBody :: "ipc_env \<Rightarrow> json option \<Rightarrow> 'a Handlers_scheme \<Rightarrow> 'a Handlers_scheme call" where
  "signInBody e raw h =
     (let cur = CurrentProfileID (h_session h);
          h1 = (case expectedProfile e raw of
                  None \<Rightarrow> h
                | Some expected \<Rightarrow> if cur \<noteq> uuid_nil \<and> cur \<noteq> expected then forgetAccount e h else h)
      in (case Authenticate (ie_auth e) (h_session h1) of
            None \<Rightarrow> Panicked h1
          | Some (r, s) \<Rightarrow>
              let h2 = emitPrompts (drop (length (se_prompts (h_session h1))) (se_prompts s)) (h1\<lparr>h_session := s\<rparr>)
              in (case r of
                    Inl err \<Rightarrow> Returned (Inl (newErrorf CodeAPIError ''authentication failed'' ErrText)) h2
                  | Inr t \<Rightarrow>
                      Returned (Inr (Some (signedInNote e (ProfileID t) (tk_Name t))))
                        (Notify ''auth.signedIn'' (signedInNote e (ProfileID t) (tk_Name t)) h2))))"

fun signInLeave :: "'a Handlers_scheme call \<Rightarrow> 'a Handlers_scheme call" where
  "signInLeave (Returned r h) = Returned r (h\<lparr>h_authRun := False\<rparr>)"
| "signInLeave (Panicked h) = Panicked (h\<lparr>h_authRun := False\<rparr>)"
| "signInLeave (Blocked h) = Blocked h"

definition authSignIn :: "ipc_env \<Rightarrow> json option \<Rightarrow> 'a Handlers_scheme \<Rightarrow> 'a Handlers_scheme call" where
  "authSignIn e raw h =
     (case signInEnter h of
        Inl err \<Rightarrow> Returned (Inl err) h
      | Inr h1 \<Rightarrow> signInLeave (signInBody e raw h1))"

record mojangParams =
  mp_AccessToken :: string
  mp_ProfileID :: string
  mp_Name :: string
  mp_TTLSeconds :: int

definition parseMojangParams :: "json option \<Rightarrow> RPCError + mojangParams" where
  "parseMojangParams raw =
     (case raw of
        None \<Rightarrow> Inr \<lparr>mp_AccessToken = '''', mp_ProfileID = '''', mp_Name = '''', mp_TTLSeconds = 0\<rparr>
      | Some v \<Rightarrow>
          (case unmarshalPayload v of
             None \<Rightarrow> Inl invalidParams
           | Some m \<Rightarrow>
               (case (strField (jfields ''accessToken'' m), strField (jfields ''profileId'' m), strField (jfields ''name'' m),
                      intField 0 (jfields ''ttlSeconds'' m)) of
                  (Some a, Some i, Some n, Some ttl) \<Rightarrow>
                    Inr \<lparr>mp_AccessToken = a, mp_ProfileID = i, mp_Name = n, mp_TTLSeconds = ttl\<rparr>
                | _ \<Rightarrow> Inl invalidParams)))"

text \<open>\<^verbatim>\<open>time.Duration(ttl) * time.Second\<close> is a 64-bit product.\<close>

definition ttlNanos :: "int \<Rightarrow> int" where
  "ttlNanos ttl = sint (of_int (if ttl \<le> 0 then 23 * 3600 else ttl) * 1000000000 :: int64)"

definition authUseMojangSession :: "ipc_env \<Rightarrow> json option \<Rightarrow> 'a Handlers_scheme \<Rightarrow> 'a Handlers_scheme call" where
  "authUseMojangSession e raw h =
     (case parseMojangParams raw of
        Inl err \<Rightarrow> Returned (Inl err) h
      | Inr p \<Rightarrow>
          if mp_AccessToken p = '''' \<or> mp_ProfileID p = ''''
          then Returned (Inl (newError CodeInvalidParams ''accessToken and profileId required'')) h
          else (case uuid_parse (ie_api e) (mp_ProfileID p) of
                  None \<Rightarrow> Returned (Inl (newError CodeInvalidParams ''invalid profileId'')) h
                | Some i \<Rightarrow>
                    let cur = CurrentProfileID (h_session h);
                        h1 = (if cur \<noteq> uuid_nil \<and> cur \<noteq> i then forgetAccount e h else h);
                        h2 = h1\<lparr>h_session := SetMojangSession (mp_AccessToken p) i (mp_Name p)
                                              (net_now (se_net (h_session h1)) + ttlNanos (mp_TTLSeconds p)) (h_session h1)\<rparr>
                    in Returned (Inr (Some (JObj [(''authenticated'', JBool True), (''name'', JStr (mp_Name p)),
                                                  (''profileId'', JStr (ie_uuid_text e i))])))
                         (Notify ''auth.signedIn'' (signedInNote e i (mp_Name p)) h2)))"

text \<open>\<^verbatim>\<open>OnReset\<close> of \<^verbatim>\<open>ipc.go\<close> removes the credentials file; removing a file that is not there is an error.\<close>

definition onReset :: "ipc_env \<Rightarrow> 'a Handlers_scheme \<Rightarrow> bool \<times> 'a Handlers_scheme" where
  "onReset e h =
     (let d = se_disk (h_session h); path = h_authPath h
      in if d path = None \<or> \<not> au_removable (ie_auth e) path then (False, h)
         else (True, h\<lparr>h_session := (h_session h)\<lparr>se_disk := removeFile (ie_auth e) path d\<rparr>\<rparr>))"

definition authSignOut :: "ipc_env \<Rightarrow> json option \<Rightarrow> 'a Handlers_scheme \<Rightarrow> 'a Handlers_scheme call" where
  "authSignOut e raw h =
     (case onReset e h of
        (False, h1) \<Rightarrow> Returned (Inl (newErrorf CodeInternalError ''reset failed'' ErrText)) h1
      | (True, h1) \<Rightarrow> Returned (Inr ok) h1)"

text \<open>\<^verbatim>\<open>requireAuth\<close>, with what the method does next.\<close>

definition requireAuth ::
    "ipc_env \<Rightarrow> 'a Handlers_scheme \<Rightarrow> ('a Handlers_scheme \<Rightarrow> 'a Handlers_scheme call) \<Rightarrow> 'a Handlers_scheme call" where
  "requireAuth e h k =
     (case EnsureFreshSilent (ie_auth e) (h_session h) of
        None \<Rightarrow> Panicked h
      | Some (Inl err, s) \<Rightarrow>
          Returned (Inl (newErrorf CodeNotAuthenticated ''not authenticated'' ErrText)) (h\<lparr>h_session := s\<rparr>)
      | Some (Inr t, s) \<Rightarrow> k (h\<lparr>h_session := s\<rparr>))"

subsection \<open>Friends\<close>

definition apiError :: "string \<Rightarrow> RPCError" where
  "apiError msg = newErrorf CodeAPIError msg ErrText"

definition blocked :: "'a Handlers_scheme \<Rightarrow> uuid \<Rightarrow> bool" where
  "blocked h i = (case h_blocklist h of None \<Rightarrow> False | Some b \<Rightarrow> Has i b)"

definition dtoMap :: "ipc_env \<Rightarrow> 'a Handlers_scheme \<Rightarrow> FriendDto list \<Rightarrow> json" where
  "dtoMap e h ds =
     JArr (map (\<lambda>d. JObj [(''blocked'', JBool (blocked h (fd_ProfileID d))), (''name'', JStr (fd_Name d)),
                          (''profileId'', JStr (ie_uuid_text e (fd_ProfileID d)))]) ds)"

definition friendsList :: "ipc_env \<Rightarrow> json option \<Rightarrow> 'a Handlers_scheme \<Rightarrow> 'a Handlers_scheme call" where
  "friendsList e raw h =
     requireAuth e h (\<lambda>h1.
       case GetFriends (ie_api e) (ie_now e) (h_api h1) of
         (Inl err, c) \<Rightarrow> Returned (Inl (apiError ''GET /friends failed'')) (h1\<lparr>h_api := c\<rparr>)
       | (Inr None, c) \<Rightarrow>
           Returned (Inr (Some (JObj [(''friends'', JArr []), (''incoming'', JArr []), (''outgoing'', JArr [])])))
             (h1\<lparr>h_api := c\<rparr>)
       | (Inr (Some resp), c) \<Rightarrow>
           Returned (Inr (Some (JObj [(''friends'', dtoMap e h1 (Friends resp)),
                                      (''incoming'', dtoMap e h1 (IncomingRequests resp)),
                                      (''outgoing'', dtoMap e h1 (OutgoingRequests resp))])))
             (h1\<lparr>h_api := c\<rparr>))"

fun friendActionRPCError :: "ipc_env \<Rightarrow> api_error \<Rightarrow> RPCError" where
  "friendActionRPCError e (APIError op status body) =
     (let lower = map lower_char body
      in if status = 403
         then (if sublist ''does not have friends enabled'' lower \<or> sublist ''accept invites'' lower
               then newError CodeAPIError ''Xbox account privacy settings may need to be adjusted on the other side.''
               else if sublist ''privacy'' lower then newError CodeAPIError ''Blocked by Xbox Live privacy settings.''
               else if sublist ''blocked'' lower then newError CodeAPIError ''Blocked by Xbox block list.''
               else newError CodeAPIError ''Mojang refused the request (403).'')
         else if status = 404 then newError CodeAPIError ''Player not found. Check the gamertag.''
         else if status = 409 then newError CodeAPIError ''Already friends or pending.''
         else if status = 429 then newError CodeAPIError ''Rate limited by Mojang. Please wait a moment.''
         else newError CodeAPIError (errorText (json_parse (ie_api e)) (ie_decode_text e) (APIError op status body)))"
| "friendActionRPCError e DecodeError = newError CodeAPIError (ie_decode_text e)"

definition friendAction :: "ipc_env \<Rightarrow> FriendActionRequest \<Rightarrow> 'a Handlers_scheme \<Rightarrow> 'a Handlers_scheme call" where
  "friendAction e action h =
     (case PutFriendAction (ie_api e) (ie_now e) action (h_api h) of
        (Inl err, c) \<Rightarrow> Returned (Inl (friendActionRPCError e err)) (h\<lparr>h_api := c\<rparr>)
      | (Inr resp, c) \<Rightarrow> Returned (Inr ok) (h\<lparr>h_api := c\<rparr>))"

definition friendsAdd :: "ipc_env \<Rightarrow> json option \<Rightarrow> 'a Handlers_scheme \<Rightarrow> 'a Handlers_scheme call" where
  "friendsAdd e raw h =
     requireAuth e h (\<lambda>h1.
       case parseIDParams raw of
         Inl err \<Rightarrow> Returned (Inl err) h1
       | Inr p \<Rightarrow>
           if ip_ProfileID p \<noteq> ''''
           then (case uuid_parse (ie_api e) (ip_ProfileID p) of
                   None \<Rightarrow> Returned (Inl (newError CodeInvalidParams ''invalid profileId'')) h1
                 | Some i \<Rightarrow> friendAction e (AddByID i) h1)
           else if ip_Name p \<noteq> '''' then friendAction e (AddByName (ip_Name p)) h1
           else Returned (Inl (newError CodeInvalidParams ''name or profileId required'')) h1)"

text \<open>The profile id that \<^verbatim>\<open>friends.remove\<close> and the block methods require.\<close>

definition requireID :: "ipc_env \<Rightarrow> json option \<Rightarrow> RPCError + uuid \<times> string" where
  "requireID e raw =
     (case parseIDParams raw of
        Inl err \<Rightarrow> Inl err
      | Inr p \<Rightarrow>
          if ip_ProfileID p = '''' then Inl (newError CodeInvalidParams ''profileId required'')
          else (case uuid_parse (ie_api e) (ip_ProfileID p) of
                  None \<Rightarrow> Inl (newError CodeInvalidParams ''invalid profileId'')
                | Some i \<Rightarrow> Inr (i, ip_Name p)))"

definition friendsRemove :: "ipc_env \<Rightarrow> json option \<Rightarrow> 'a Handlers_scheme \<Rightarrow> 'a Handlers_scheme call" where
  "friendsRemove e raw h =
     requireAuth e h (\<lambda>h1.
       case requireID e raw of
         Inl err \<Rightarrow> Returned (Inl err) h1
       | Inr (i, n) \<Rightarrow> friendAction e (RemoveByID i) h1)"

definition friendsAccept :: "ipc_env \<Rightarrow> json option \<Rightarrow> 'a Handlers_scheme \<Rightarrow> 'a Handlers_scheme call" where
  "friendsAccept e raw h = friendsAdd e raw h"

definition friendsDecline :: "ipc_env \<Rightarrow> json option \<Rightarrow> 'a Handlers_scheme \<Rightarrow> 'a Handlers_scheme call" where
  "friendsDecline e raw h = friendsRemove e raw h"

definition foundAs :: "ipc_env \<Rightarrow> string \<Rightarrow> FriendDto \<Rightarrow> json" where
  "foundAs e kind d =
     JObj [(''found'', JBool True), (kind, JBool True), (''name'', JStr (fd_Name d)),
           (''profileId'', JStr (ie_uuid_text e (fd_ProfileID d)))]"

definition notFound :: json where
  "notFound = JObj [(''found'', JBool False)]"

text \<open>The search of \<^verbatim>\<open>methods_watch.go\<close>: friends first, then outgoing, then incoming requests.\<close>

definition searchIn :: "ipc_env \<Rightarrow> string \<Rightarrow> FriendsListResponse \<Rightarrow> json" where
  "searchIn e name resp =
     (case find (\<lambda>d. ie_fold e (fd_Name d) name) (Friends resp) of
        Some d \<Rightarrow> foundAs e ''isFriend'' d
      | None \<Rightarrow>
          (case find (\<lambda>d. ie_fold e (fd_Name d) name) (OutgoingRequests resp) of
             Some d \<Rightarrow> foundAs e ''isOutgoing'' d
           | None \<Rightarrow>
               (case find (\<lambda>d. ie_fold e (fd_Name d) name) (IncomingRequests resp) of
                  Some d \<Rightarrow> foundAs e ''isIncoming'' d
                | None \<Rightarrow> notFound)))"

definition friendsSearch :: "ipc_env \<Rightarrow> json option \<Rightarrow> 'a Handlers_scheme \<Rightarrow> 'a Handlers_scheme call" where
  "friendsSearch e raw h =
     requireAuth e h (\<lambda>h1.
       case parseIDParams raw of
         Inl err \<Rightarrow> Returned (Inl err) h1
       | Inr p \<Rightarrow>
           if ip_Name p = '''' then Returned (Inl (newError CodeInvalidParams ''name required'')) h1
           else (case GetFriends (ie_api e) (ie_now e) (h_api h1) of
                   (Inl err, c) \<Rightarrow> Returned (Inl (apiError ''GET /friends failed'')) (h1\<lparr>h_api := c\<rparr>)
                 | (Inr None, c) \<Rightarrow> Returned (Inr (Some notFound)) (h1\<lparr>h_api := c\<rparr>)
                 | (Inr (Some resp), c) \<Rightarrow> Returned (Inr (Some (searchIn e (ip_Name p) resp))) (h1\<lparr>h_api := c\<rparr>)))"

subsection \<open>Blocks\<close>

definition blocksList :: "ipc_env \<Rightarrow> json option \<Rightarrow> 'a Handlers_scheme \<Rightarrow> 'a Handlers_scheme call" where
  "blocksList e raw h =
     Returned (Inr (Some (JObj [(''blocks'', JArr (case h_blocklist h of None \<Rightarrow> [] | Some b \<Rightarrow> Snapshot (ie_uuid_text e) b))]))) h"

definition blockChange ::
    "ipc_env \<Rightarrow> (uuid \<Rightarrow> string \<Rightarrow> Blocklist \<Rightarrow> bl_error option \<times> Blocklist) \<Rightarrow> json option \<Rightarrow> 'a Handlers_scheme \<Rightarrow>
     'a Handlers_scheme call" where
  "blockChange e change raw h =
     (case h_blocklist h of
        None \<Rightarrow> Returned (Inl (newError CodeInternalError ''blocklist not configured'')) h
      | Some b \<Rightarrow>
          (case requireID e raw of
             Inl err \<Rightarrow> Returned (Inl err) h
           | Inr (i, n) \<Rightarrow>
               (case change i n b of
                  (Some err, b1) \<Rightarrow>
                    Returned (Inl (newErrorf CodeInternalError ''blocklist save failed'' ErrText)) (h\<lparr>h_blocklist := Some b1\<rparr>)
                | (None, b1) \<Rightarrow> Returned (Inr ok) (h\<lparr>h_blocklist := Some b1\<rparr>))))"

definition blocksAdd :: "ipc_env \<Rightarrow> json option \<Rightarrow> 'a Handlers_scheme \<Rightarrow> 'a Handlers_scheme call" where
  "blocksAdd e = blockChange e (Blocklist_Add (ie_uuid_text e) (ie_torn e))"

definition blocksRemove :: "ipc_env \<Rightarrow> json option \<Rightarrow> 'a Handlers_scheme \<Rightarrow> 'a Handlers_scheme call" where
  "blocksRemove e = blockChange e (\<lambda>i n. Blocklist_Remove (ie_uuid_text e) (ie_torn e) i)"

text \<open>\<^verbatim>\<open>quit\<close> answers first; the goroutine it starts calls \<^verbatim>\<open>Quit\<close> later, which is the step \<^verbatim>\<open>cancelled\<close> of the server.\<close>

definition quit :: "json option \<Rightarrow> 'a Handlers_scheme \<Rightarrow> 'a Handlers_scheme call" where
  "quit raw h = Returned (Inr ok) h"

definition registerMethods :: "ipc_env \<Rightarrow> 'a Handlers_scheme methods" where
  "registerMethods e =
     (Register ''quit'' quit (Register ''blocks.remove'' (blocksRemove e) (Register ''blocks.add'' (blocksAdd e)
     (Register ''blocks.list'' (blocksList e) (Register ''friends.decline'' (friendsDecline e)
     (Register ''friends.accept'' (friendsAccept e) (Register ''friends.remove'' (friendsRemove e)
     (Register ''friends.add'' (friendsAdd e) (Register ''friends.list'' (friendsList e)
     (Register ''auth.useMojangSession'' (authUseMojangSession e) (Register ''auth.signOut'' (authSignOut e)
     (Register ''auth.signIn'' (authSignIn e) (Register ''auth.status'' (authStatus e)
     (Register ''version'' version Map.empty))))))))))))))"

section \<open>Methods write notifications only\<close>

named_theorems quiet_methods \<open>methods that answer nothing themselves\<close>

definition silent :: "'a Writer_scheme MethodFunc \<Rightarrow> bool" where
  "silent fn \<longleftrightarrow> (\<forall>p w. answers (call_state (fn p w)) = answers w)"

lemma silentI: "(\<And>p w. answers (call_state (fn p w)) = answers w) \<Longrightarrow> silent fn"
  by (simp add: silent_def)

lemma answers_replies_frame [simp]:
  "answers (h\<lparr>h_session := s\<rparr>) = answers h" "answers (h\<lparr>h_api := c\<rparr>) = answers h"
  "answers (h\<lparr>h_refresher := r\<rparr>) = answers h" "answers (h\<lparr>h_blocklist := b\<rparr>) = answers h"
  "answers (h\<lparr>h_authRun := f\<rparr>) = answers (h :: 'a Handlers_scheme)"
  by (simp_all add: answers_def)

lemma answers_emitPrompts [simp]: "answers (emitPrompts ps h) = answers h"
  by (induction ps arbitrary: h) (simp_all add: emitPrompts_def)

lemma answers_forgetAccount [simp]: "answers (forgetAccount e h) = answers h"
  by (simp add: forgetAccount_def Let_def)

lemma answers_requireAuth:
  assumes "\<And>h1. answers (call_state (k h1)) = answers h1"
  shows "answers (call_state (requireAuth e h k)) = answers h"
  by (auto simp: requireAuth_def assms split: option.split sum.split)

lemma answers_friendAction [simp]: "answers (call_state (friendAction e a h)) = answers h"
  by (auto simp: friendAction_def split: prod.split sum.split)

lemma answers_signInLeave [simp]: "answers (call_state (signInLeave c)) = answers (call_state c)"
  by (cases c) simp_all

lemma silent_auth [quiet_methods]:
  "silent version" "silent (authStatus e)" "silent (authSignIn e)" "silent (authUseMojangSession e)" "silent (authSignOut e)"
  by (rule silentI; auto simp: version_def authStatus_def authSignIn_def signInEnter_def signInBody_def
      authUseMojangSession_def authSignOut_def onReset_def Let_def split: option.split sum.split prod.split)+

lemma silent_friends [quiet_methods]:
  "silent (friendsList e)" "silent (friendsAdd e)" "silent (friendsRemove e)" "silent (friendsSearch e)"
  by (rule silentI; auto simp: friendsList_def friendsAdd_def friendsRemove_def friendsSearch_def
      intro!: answers_requireAuth split: option.split sum.split prod.split)+

lemma silent_more [quiet_methods]:
  "silent (friendsAccept e)" "silent (friendsDecline e)" "silent (blocksList e)" "silent (blocksAdd e)"
  "silent (blocksRemove e)" "silent quit"
  using silent_friends[of e]
  by (auto simp: silent_def friendsAccept_def friendsDecline_def blocksList_def blocksAdd_def blocksRemove_def
      blockChange_def quit_def split: option.split sum.split prod.split)

section \<open>Accounts\<close>

lemma ttlNanos_small: "0 < ttl \<Longrightarrow> ttl \<le> 9223372036 \<Longrightarrow> ttlNanos ttl = ttl * 1000000000"
  by (simp add: ttlNanos_def sint_word_ariths signed_of_int signed_take_bit_int_eq_self)

lemma forgetAccount_forgets:
  "friendsCache (h_api (forgetAccount e h)) = None" "presenceCache (h_api (forgetAccount e h)) = None"
  "friendsETag (h_api (forgetAccount e h)) = ''''" "presenceETag (h_api (forgetAccount e h)) = ''''"
  "h_authPath h \<noteq> '''' \<Longrightarrow> ie_removable e \<Longrightarrow> cacheFile (h_api (forgetAccount e h)) = None"
  "h_refresher (forgetAccount e h) = h_refresher h" "se_net (h_session (forgetAccount e h)) = se_net (h_session h)"
  "se_path (h_session (forgetAccount e h)) = se_path (h_session h)"
  by (simp_all add: forgetAccount_def ResetCache_def Session_ResetCache_def save_def Let_def)

lemma forgetAccount_file:
  assumes "reads_back (ie_auth e) (se_path (h_session h)) emptyTokens" and "au_mkdir (ie_auth e)"
    and "au_write (ie_auth e) (se_path (h_session h)) = WriteOk"
  shows "Store_Load (ie_auth e) (se_path (h_session h)) (se_disk (h_session (forgetAccount e h))) =
           Some (Inr (Some emptyTokens), se_disk (h_session (forgetAccount e h)))"
  using store.load_saved[OF assms(1) Store_Save_ok[OF assms(2,3)]] assms(2,3)
  by (simp add: forgetAccount_def Session_ResetCache_def save_def Let_def Store_Save_ok)

lemma SetMojangSession_frame [simp, frame_simps]:
  "se_disk (SetMojangSession a i n t s) = se_disk s" "se_net (SetMojangSession a i n t s) = se_net s"
  "se_path (SetMojangSession a i n t s) = se_path s"
  by (simp_all add: SetMojangSession_def)

text \<open>
  C20. When the launcher hands over the session of another account, the method succeeds and from then on
  the session has the new account's token with the given lifetime, nothing the services said to the previous account
  is left in the caches, in memory or on disk, and the credentials file no longer holds a refresh token. While more
  than five minutes of the lifetime remain, methods that need a session go on without asking anybody.
\<close>

theorem account_switch_isolated:
  assumes "parseMojangParams raw = Inr p" and "mp_AccessToken p \<noteq> ''''" and "mp_ProfileID p \<noteq> ''''"
    and "uuid_parse (ie_api e) (mp_ProfileID p) = Some i"
    and "300 < mp_TTLSeconds p" and "mp_TTLSeconds p \<le> 9223372036"
    and "CurrentProfileID (h_session h) \<noteq> uuid_nil" and "CurrentProfileID (h_session h) \<noteq> i"
    and "h_authPath h \<noteq> ''''" and "ie_removable e"
    and "reads_back (ie_auth e) (se_path (h_session h)) emptyTokens" and "au_mkdir (ie_auth e)"
    and "au_write (ie_auth e) (se_path (h_session h)) = WriteOk"
  shows "\<exists>v h' t. authUseMojangSession e raw h = Returned (Inr v) h' \<and>
     se_tokens (h_session h') = Some t \<and> ProfileID t = i \<and> MojangAccessToken t = mp_AccessToken p \<and>
     MojangExpiresAt t = net_now (se_net (h_session h)) + mp_TTLSeconds p * 1000000000 \<and>
     EnsureFreshSilent (ie_auth e) (h_session h') = Some (Inr t, h_session h') \<and>
     friendsCache (h_api h') = None \<and> presenceCache (h_api h') = None \<and> friendsETag (h_api h') = '''' \<and>
     presenceETag (h_api h') = '''' \<and> cacheFile (h_api h') = None \<and>
     Store_Load (ie_auth e) (se_path (h_session h')) (se_disk (h_session h')) = Some (Inr (Some emptyTokens), se_disk (h_session h'))"
proof -
  let ?t = "\<lparr>ProfileID = i, tk_Name = mp_Name p, MojangAccessToken = mp_AccessToken p,
             MojangExpiresAt = net_now (se_net (h_session h)) + mp_TTLSeconds p * 1000000000, MsRefreshToken = ''''\<rparr>"
  let ?h1 = "forgetAccount e h"
  let ?h2 = "Notify ''auth.signedIn'' (signedInNote e i (mp_Name p)) (?h1\<lparr>h_session :=
       SetMojangSession (mp_AccessToken p) i (mp_Name p) (MojangExpiresAt ?t) (h_session ?h1)\<rparr>)"
  have ret: "authUseMojangSession e raw h = Returned (Inr (Some (JObj [(''authenticated'', JBool True),
      (''name'', JStr (mp_Name p)), (''profileId'', JStr (ie_uuid_text e i))]))) ?h2"
    using assms(1-8) by (simp add: authUseMojangSession_def Let_def forgetAccount_forgets ttlNanos_small)
  have s: "h_session ?h2 = SetMojangSession (mp_AccessToken p) i (mp_Name p) (MojangExpiresAt ?t) (h_session ?h1)"
    and c: "h_api ?h2 = h_api ?h1"
    by (simp_all add: Notify_def writeLine_def)
  have "se_tokens (h_session ?h2) = Some ?t" unfolding s by (simp add: SetMojangSession_def)
  moreover from this have "EnsureFreshSilent (ie_auth e) (h_session ?h2) = Some (Inr ?t, h_session ?h2)"
    using assms(5) s
    by (simp add: EnsureFreshSilent_def EnsureFreshSilent_from_def fresh_def refreshMargin_def forgetAccount_forgets)
  moreover have "Store_Load (ie_auth e) (se_path (h_session ?h2)) (se_disk (h_session ?h2)) =
      Some (Inr (Some emptyTokens), se_disk (h_session ?h2))"
    using forgetAccount_file[OF assms(11-13)] s by (simp add: forgetAccount_forgets)
  ultimately show ?thesis
    using ret forgetAccount_forgets(5)[OF assms(9,10)] c
    by (intro exI[of _ "Some _"] exI[of _ "?h2"] exI[of _ ?t]) (simp add: forgetAccount_forgets(1-4))
qed

text \<open>
  The refresher, however, keeps what it knows of the previous account's friends, so its next tick tells the launcher
  that those of them who are not friends of the new account were removed.
\<close>

lemma account_switch_keeps_refresher:
  assumes "authUseMojangSession e raw h = Returned (Inr v) h'"
  shows "h_refresher h' = h_refresher h"
  using assms
  by (auto simp: authUseMojangSession_def Let_def Notify_def writeLine_def forgetAccount_forgets
      split: sum.splits option.splits if_splits)

text \<open>
  \<^verbatim>\<open>auth.signOut\<close> reports success when the credentials file could be removed, but the session
  keeps its tokens: \<^verbatim>\<open>auth.status\<close> still says authenticated, and the next forced refresh that the services grant
  writes credentials to the file again.
\<close>

theorem sign_out_keeps_session:
  assumes "se_tokens (h_session h) = Some t" and "ProfileID t \<noteq> uuid_nil"
    and "authSignOut e raw h = Returned (Inr v) h'"
    and "SilentRefresh (ie_auth e) (MsRefreshToken t) (se_net (h_session h)) = (Inr t', n)"
    and "au_mkdir (ie_auth e)" and "au_write (ie_auth e) (h_authPath h) = WriteOk" and "se_path (h_session h) = h_authPath h"
  shows "se_disk (h_session h') (h_authPath h) = None \<and> se_tokens (h_session h') = Some t \<and>
     (\<exists>fields. authStatus e None h' = Returned (Inr (Some (JObj ((''authenticated'', JBool True) # fields)))) h') \<and>
     se_disk (snd (RefreshNow (ie_auth e) (h_session h'))) (h_authPath h) = Some (Pem [credentials_block (ie_auth e) t'])"
proof -
  have h': "h' = h\<lparr>h_session := (h_session h)\<lparr>se_disk := (se_disk (h_session h))(h_authPath h := None)\<rparr>\<rparr>"
    using assms(3) by (auto simp: authSignOut_def onReset_def removeFile_def Let_def split: if_splits)
  have "se_disk (snd (RefreshNow (ie_auth e) (h_session h'))) (h_authPath h) = Some (Pem [credentials_block (ie_auth e) t'])"
    using assms(1,4,7) Store_Save_ok[OF assms(5,6)] by (simp add: h' RefreshNow_def silently_def keep_def save_def)
  with assms(1,2) show ?thesis by (simp add: h' authStatus_def CurrentTokens_def)
qed

text \<open>A launcher whose account \<^verbatim>\<open>A\<close> is signed in, on a machine that can write its files.\<close>

definition sample_api_env :: env where
  "sample_api_env = \<lparr>respond = (\<lambda>l. NetErr ''x''), json_parse = (\<lambda>s. None), uuid_parse = Some, time_parse = (\<lambda>s. None), write_ok = True\<rparr>"

definition sample_ipc_env :: ipc_env where
  "sample_ipc_env =
     \<lparr>ie_auth = approving_env\<lparr>au_answer := working_answers, au_json := (\<lambda>s. if s = uuid_nil then Some (tokensJson approving_env emptyTokens)
                              else au_json approving_env s)\<rparr>,
      ie_api = sample_api_env, ie_now = 0, ie_uuid_text = (\<lambda>u. u), ie_time_text = (\<lambda>t. ''t''), ie_fold = (=), ie_decode_text = ''d'', ie_resolve_text = (\<lambda>r. ''r''),
      ie_torn = None, ie_removable = True\<rparr>"

definition sample_handlers :: Handlers where
  "sample_handlers =
     \<lparr>lines = [], h_version = ''1'',
      h_session = signed_in\<lparr>se_disk := [''x.pem'' \<mapsto> Pem []]\<rparr>, h_api = NewApiClient None,
      h_refresher = NewRefresher False, h_authPath = ''x.pem'', h_blocklist = Some \<lparr>bl_ids = [], bl_file = Absent\<rparr>, h_authRun = False\<rparr>"

definition sample_params :: "json option" where
  "sample_params = Some (JObj [(''accessToken'', JStr ''t''), (''profileId'', JStr ''B''), (''ttlSeconds'', JNum 3600)])"

lemmas sample_defs = sample_api_env_def sample_ipc_env_def sample_handlers_def approving_env_def machine_env_def
  pending_env_def signed_in_def tokensA_def

lemma sample_reads_back: "reads_back (ie_auth sample_ipc_env) path emptyTokens"
  by (simp add: sample_defs reads_back_def emptyTokens_def tokensJson_def uuid_nil_def machineKey_def split: option.split)

lemma sample_parsed:
  "parseMojangParams sample_params = Inr \<lparr>mp_AccessToken = ''t'', mp_ProfileID = ''B'', mp_Name = '''', mp_TTLSeconds = 3600\<rparr>"
  by (simp add: parseMojangParams_def sample_params_def unmarshalPayload_def jfields_def strField_def intField_def
      lower_char_def trunc_def)

theorem account_switch_isolated_witness:
  "\<exists>v h'. authUseMojangSession sample_ipc_env sample_params sample_handlers = Returned (Inr v) h' \<and>
          friendsCache (h_api h') = None \<and> CurrentProfileID (h_session h') = ''B''"
proof -
  have "CurrentProfileID (h_session sample_handlers) = ''A''" "h_authPath sample_handlers = ''x.pem''"
       "ie_removable sample_ipc_env" "uuid_parse (ie_api sample_ipc_env) ''B'' = Some ''B''"
       "au_mkdir (ie_auth sample_ipc_env)" "au_write (ie_auth sample_ipc_env) path = WriteOk" for path
    by (simp_all add: sample_defs CurrentProfileID_def)
  then show ?thesis
    using account_switch_isolated[OF sample_parsed, of sample_ipc_env "''B''" sample_handlers] sample_reads_back
    by (auto simp: uuid_nil_def CurrentProfileID_def)
qed

theorem sign_out_keeps_session_witness:
  "\<exists>v h'. authSignOut sample_ipc_env None sample_handlers = Returned (Inr v) h' \<and> se_tokens (h_session h') = Some tokensA \<and>
          se_disk (snd (RefreshNow (ie_auth sample_ipc_env) (h_session h'))) ''x.pem'' \<noteq> None"
proof -
  obtain t' n where r: "SilentRefresh (ie_auth sample_ipc_env) (MsRefreshToken tokensA) (se_net (h_session sample_handlers)) = (Inr t', n)"
    by (simp add: sample_defs SilentRefresh_def RefreshMsToken_def postForm_def exchange_def Let_def working_answers_def
        unmarshalMap_def unmarshalPayload_def payload_access ExchangeForMojang_def xboxLive_def xsts_def doXboxRequest_def
        auth_urls msToken_def jarr_def jobj_def loginWithXbox_def fetchProfile_def ParseUndashed_def uuid_nil_def)
  obtain v h' where o: "authSignOut sample_ipc_env None sample_handlers = Returned (Inr v) h'"
    by (simp add: sample_defs authSignOut_def onReset_def Let_def)
  have "se_tokens (h_session sample_handlers) = Some tokensA" "ProfileID tokensA \<noteq> uuid_nil"
       "au_mkdir (ie_auth sample_ipc_env)" "au_write (ie_auth sample_ipc_env) (h_authPath sample_handlers) = WriteOk"
       "se_path (h_session sample_handlers) = h_authPath sample_handlers" "h_authPath sample_handlers = ''x.pem''"
    by (simp_all add: sample_defs uuid_nil_def)
  then show ?thesis using sign_out_keeps_session[OF _ _ o r] o by auto
qed

end
