(* ===== verification/IpcWatch.thy ===== *)
theory IpcWatch
  imports IpcMethods
begin

text \<open>
  Watching friends and presence for the launcher: \<^verbatim>\<open>methods_watch.go\<close> and \<^verbatim>\<open>observer.go\<close> of \<^verbatim>\<open>src/internal/ipc\<close>.

  A watch is a goroutine with a stop and a done channel. The goroutines started so far are kept in a list, the
  current one by its position; a stopped one ends by the step \<^verbatim>\<open>loopExit\<close>, and \<^verbatim>\<open>unwatch\<close> waits for that. Ticks are
  steps of their own. Times are nanoseconds, the zero time is \<^verbatim>\<open>None\<close>.
\<close>

section \<open>Model\<close>

record watch_loop =
  wl_stop :: bool
  wl_done :: bool

record watchState =
  friendsRunning :: bool
  friendsLoop :: nat
  friendsLoops :: "watch_loop list"
  presenceRunning :: bool
  presenceLoop :: nat
  presenceLoops :: "watch_loop list"
  currentStatus :: PresenceStatus
  currentJoinVal :: "string option"
  currentInvites :: "uuid list"
  lastPostedStatus :: PresenceStatus
  lastPostedJoinVal :: "string option"
  lastPostedInvites :: "uuid list"
  lastPostedAt :: "int option"
  lastPresence :: "uuid \<rightharpoonup> string"

definition presenceMinInterval :: int where "presenceMinInterval = 10 * 1000000000"
definition presenceMaxInterval :: int where "presenceMaxInterval = 60 * 1000000000"

definition newWatchState :: watchState where
  "newWatchState =
     \<lparr>friendsRunning = False, friendsLoop = 0, friendsLoops = [], presenceRunning = False, presenceLoop = 0,
      presenceLoops = [], currentStatus = StatusOnline, currentJoinVal = None, currentInvites = [],
      lastPostedStatus = '''', lastPostedJoinVal = None, lastPostedInvites = [], lastPostedAt = None,
      lastPresence = Map.empty\<rparr>"

record WatchHandlers = Handlers +
  h_watch :: watchState

subsection \<open>Observer\<close>

definition friendDtoToMap :: "ipc_env \<Rightarrow> FriendDto \<Rightarrow> json" where
  "friendDtoToMap e d = JObj [(''name'', JStr (fd_Name d)), (''profileId'', JStr (ie_uuid_text e (fd_ProfileID d)))]"

definition profileNote :: "ipc_env \<Rightarrow> uuid \<Rightarrow> json" where
  "profileNote e i = JObj [(''profileId'', JStr (ie_uuid_text e i))]"

fun observerNote :: "ipc_env \<Rightarrow> obs_event \<Rightarrow> 'a Writer_scheme \<Rightarrow> 'a Writer_scheme" where
  "observerNote e (OnFriendAdded d) = Notify ''friend.added'' (friendDtoToMap e d)"
| "observerNote e (OnFriendRemoved i) = Notify ''friend.removed'' (profileNote e i)"
| "observerNote e (OnIncomingRequest d) = Notify ''friend.requestIncoming'' (friendDtoToMap e d)"
| "observerNote e (OnIncomingResolved i) = Notify ''friend.requestIncomingResolved'' (profileNote e i)"
| "observerNote e (OnOutgoingRequest d) = Notify ''friend.requestOutgoing'' (friendDtoToMap e d)"
| "observerNote e (OnOutgoingResolved i) = Notify ''friend.requestOutgoingResolved'' (profileNote e i)"
| "observerNote e (OnInitialSnapshot resp) =
     Notify ''friends.snapshot''
       (JObj [(''friends'', JArr (map (friendDtoToMap e) (Friends resp))),
              (''incoming'', JArr (map (friendDtoToMap e) (IncomingRequests resp))),
              (''outgoing'', JArr (map (friendDtoToMap e) (OutgoingRequests resp)))])"

subsection \<open>Goroutines\<close>

text \<open>Starting a loop, closing its stop channel (closing it twice panics), and its end.\<close>

definition startLoop :: "watch_loop list \<Rightarrow> watch_loop list" where
  "startLoop ls = ls @ [\<lparr>wl_stop = False, wl_done = False\<rparr>]"

definition closeStop :: "nat \<Rightarrow> watch_loop list \<Rightarrow> watch_loop list option" where
  "closeStop i ls = (if i < length ls \<and> \<not> wl_stop (ls ! i) then Some (ls[i := (ls ! i)\<lparr>wl_stop := True\<rparr>]) else None)"

definition loopExit :: "nat \<Rightarrow> watch_loop list \<Rightarrow> watch_loop list" where
  "loopExit i ls = (if i < length ls \<and> wl_stop (ls ! i) then ls[i := (ls ! i)\<lparr>wl_done := True\<rparr>] else ls)"

subsection \<open>Friends\<close>

definition watchInterval :: "int \<Rightarrow> int \<Rightarrow> json option \<Rightarrow> int" where
  "watchInterval preset least raw =
     (let v = (case Option.bind raw unmarshalPayload of
                 None \<Rightarrow> preset
               | Some m \<Rightarrow> (case intField preset (jfields ''intervalSeconds'' m) of None \<Rightarrow> preset | Some v \<Rightarrow> v))
      in if v < least then least else v)"

definition runningIs :: "bool \<Rightarrow> json option" where
  "runningIs b = Some (JObj [(''running'', JBool b)])"

definition friendsWatch :: "ipc_env \<Rightarrow> json option \<Rightarrow> 'a WatchHandlers_scheme \<Rightarrow> 'a WatchHandlers_scheme call" where
  "friendsWatch e raw h =
     requireAuth e h (\<lambda>h1.
       let interval = watchInterval 20 5 raw; w = h_watch h1
       in if friendsRunning w then Returned (Inr (runningIs True)) h1
          else Returned (Inr (Some (JObj [(''intervalSeconds'', JNum (of_int interval)), (''running'', JBool True)])))
                 (h1\<lparr>h_watch := w\<lparr>friendsRunning := True, friendsLoop := length (friendsLoops w),
                                    friendsLoops := startLoop (friendsLoops w)\<rparr>,
                     h_refresher := SetAutoAccept False (SetObserver True (h_refresher h1))\<rparr>))"

text \<open>One tick of \<^verbatim>\<open>runFriendsWatch\<close>: the refresher polls, and its observer writes what it is told.\<close>

definition friendsTick :: "ipc_env \<Rightarrow> 'a WatchHandlers_scheme \<Rightarrow> 'a WatchHandlers_scheme" where
  "friendsTick e h =
     (case Refresher_tick (ie_api e) (ie_now e) (h_refresher h) (h_api h) of
        (r, c) \<Rightarrow> fold (observerNote e) (drop (length (rf_events (h_refresher h))) (rf_events r)) (h\<lparr>h_refresher := r, h_api := c\<rparr>))"

text \<open>\<^verbatim>\<open>runFriendsWatch\<close>: a tick at once and one whenever the ticker fires, until the stop channel is closed.\<close>

definition runFriendsWatch :: "ipc_env \<Rightarrow> ipc_env list \<Rightarrow> 'a WatchHandlers_scheme \<Rightarrow> 'a WatchHandlers_scheme" where
  "runFriendsWatch e es h = fold friendsTick es (friendsTick e h)"

definition unwatchBegin :: "'a WatchHandlers_scheme \<Rightarrow> 'a WatchHandlers_scheme option" where
  "unwatchBegin h =
     (let w = h_watch h
      in case closeStop (friendsLoop w) (friendsLoops w) of
           None \<Rightarrow> None
         | Some ls \<Rightarrow> Some (h\<lparr>h_watch := w\<lparr>friendsLoops := ls, friendsRunning := False\<rparr>\<rparr>))"

definition friendsUnwatch :: "json option \<Rightarrow> 'a WatchHandlers_scheme \<Rightarrow> 'a WatchHandlers_scheme call" where
  "friendsUnwatch raw h =
     (if \<not> friendsRunning (h_watch h) then Returned (Inr (runningIs False)) h
      else (case unwatchBegin h of
              None \<Rightarrow> Panicked h
            | Some h1 \<Rightarrow>
                let w = h_watch h1
                in Returned (Inr (runningIs False)) (h1\<lparr>h_watch := w\<lparr>friendsLoops := loopExit (friendsLoop w) (friendsLoops w)\<rparr>\<rparr>)))"

definition boolField :: "json list \<Rightarrow> bool option" where
  "boolField vs =
     fold (\<lambda>v acc. case (v, acc) of (JBool b, Some _) \<Rightarrow> Some b | (JNull, _) \<Rightarrow> acc | _ \<Rightarrow> None) vs (Some False)"

definition friendsSetAutoAccept :: "json option \<Rightarrow> 'a WatchHandlers_scheme \<Rightarrow> 'a WatchHandlers_scheme call" where
  "friendsSetAutoAccept raw h =
     (let enabled = (case Option.bind raw unmarshalPayload of
                       None \<Rightarrow> False
                     | Some m \<Rightarrow> (case boolField (jfields ''enabled'' m) of None \<Rightarrow> False | Some b \<Rightarrow> b))
      in Returned (Inr (Some (JObj [(''enabled'', JBool enabled)]))) (h\<lparr>h_refresher := SetAutoAccept enabled (h_refresher h)\<rparr>))"

subsection \<open>Presence\<close>

record presenceSetParams =
  sp_Status :: string
  sp_JoinVal :: "string option"
  sp_Invites :: "string list"

definition optStrField :: "json list \<Rightarrow> string option option" where
  "optStrField vs =
     fold (\<lambda>v acc. case (v, acc) of (JStr s, Some _) \<Rightarrow> Some (Some s) | (JNull, Some _) \<Rightarrow> Some None | _ \<Rightarrow> None) vs (Some None)"

definition strOrNull :: "json \<Rightarrow> string option" where
  "strOrNull v = (case v of JStr s \<Rightarrow> Some s | JNull \<Rightarrow> Some '''' | _ \<Rightarrow> None)"

definition parsePresenceSet :: "json option \<Rightarrow> RPCError + presenceSetParams" where
  "parsePresenceSet raw =
     (case raw of
        None \<Rightarrow> Inr \<lparr>sp_Status = '''', sp_JoinVal = None, sp_Invites = []\<rparr>
      | Some v \<Rightarrow>
          (case unmarshalPayload v of
             None \<Rightarrow> Inl invalidParams
           | Some m \<Rightarrow>
               (case (strField (jfields ''status'' m), optStrField (jfields ''joinValue'' m),
                      decodeList strOrNull (rawField (jfields ''invites'' m))) of
                  (Some s, Some j, Some is) \<Rightarrow> Inr \<lparr>sp_Status = s, sp_JoinVal = j, sp_Invites = is\<rparr>
                | _ \<Rightarrow> Inl invalidParams)))"

definition upper_char :: "char \<Rightarrow> char" where
  "upper_char ch = (if 97 \<le> (of_char ch :: nat) \<and> (of_char ch :: nat) \<le> 122 then char_of ((of_char ch :: nat) - 32) else ch)"

definition presenceChangeNote :: "ipc_env \<Rightarrow> PresenceStatusDto \<Rightarrow> json" where
  "presenceChangeNote e p =
     JObj ((case ps_JoinInfo p of
              None \<Rightarrow> []
            | Some ji \<Rightarrow> (''invited'', JBool (ji_Invited ji)) #
                         (case ji_Value ji of None \<Rightarrow> [] | Some v \<Rightarrow> [(''joinValue'', JStr v)])) @
           [(''lastUpdated'', JStr (ie_time_text e (ps_LastUpdated p))), (''pmid'', JStr (ie_uuid_text e (ps_PMID p))),
            (''profileId'', JStr (ie_uuid_text e (ps_ProfileID p))), (''status'', JStr (ps_Status p))])"

text \<open>A key the map does not have reads as the empty string.\<close>

definition lastStatus :: "(uuid \<rightharpoonup> string) \<Rightarrow> uuid \<Rightarrow> string" where
  "lastStatus m i = (case m i of None \<Rightarrow> '''' | Some s \<Rightarrow> s)"

definition emitPresenceChange :: "ipc_env \<Rightarrow> PresenceStatusDto \<Rightarrow> 'a WatchHandlers_scheme \<Rightarrow> 'a WatchHandlers_scheme" where
  "emitPresenceChange e p h =
     (let w = h_watch h; i = ps_ProfileID p
      in if lastStatus (lastPresence w) i = ps_Status p then h
         else Notify ''presence.changed'' (presenceChangeNote e p)
                (h\<lparr>h_watch := w\<lparr>lastPresence := (lastPresence w)(i \<mapsto> ps_Status p)\<rparr>\<rparr>))"

definition emitPresenceChanges :: "ipc_env \<Rightarrow> PresenceResponse \<Rightarrow> 'a WatchHandlers_scheme \<Rightarrow> 'a WatchHandlers_scheme" where
  "emitPresenceChanges e resp h = fold (emitPresenceChange e) resp h"

definition emitIfAny :: "ipc_env \<Rightarrow> PresenceResponse option \<Rightarrow> 'a WatchHandlers_scheme \<Rightarrow> 'a WatchHandlers_scheme" where
  "emitIfAny e resp h = (case resp of None \<Rightarrow> h | Some r \<Rightarrow> emitPresenceChanges e r h)"

definition joinInfo :: "uuid list \<Rightarrow> string option \<Rightarrow> JoinInfoUpdate" where
  "joinInfo invites joinVal =
     (case joinVal of None \<Rightarrow> NewJoinInfoUpdate invites | Some v \<Rightarrow> (NewJoinInfoUpdate invites)\<lparr>ju_Value := Some v\<rparr>)"

definition setRequest :: "PresenceStatus \<Rightarrow> string option \<Rightarrow> uuid list \<Rightarrow> PresenceRequest" where
  "setRequest status joinVal invites =
     \<lparr>pr_Status = status,
      pr_JoinInfo = (if status = StatusPlayingHostedServer then Some (joinInfo invites joinVal)
                     else if status \<noteq> StatusOffline \<and> invites \<noteq> [] then Some (NewJoinInfoUpdate invites)
                     else None)\<rparr>"

definition presenceSet :: "ipc_env \<Rightarrow> json option \<Rightarrow> 'a WatchHandlers_scheme \<Rightarrow> 'a WatchHandlers_scheme call" where
  "presenceSet e raw h =
     requireAuth e h (\<lambda>h1.
       case parsePresenceSet raw of
         Inl err \<Rightarrow> Returned (Inl err) h1
       | Inr p \<Rightarrow>
           let upper = map upper_char (TrimSpace (sp_Status p));
               status = (if upper = '''' then StatusOnline else upper);
               invites = List.map_filter (uuid_parse (ie_api e)) (sp_Invites p)
           in (case PostPresence (ie_api e) (ie_now e) (setRequest status (sp_JoinVal p) invites) (h_api h1) of
                 (Inl err, c) \<Rightarrow> Returned (Inl (apiError ''POST /presence failed'')) (h1\<lparr>h_api := c\<rparr>)
               | (Inr resp, c) \<Rightarrow>
                   Returned (Inr (Some (JObj [(''ok'', JBool True), (''status'', JStr status)])))
                     (emitIfAny e resp (h1\<lparr>h_api := c,
                        h_watch := (h_watch h1)\<lparr>currentStatus := status, currentJoinVal := sp_JoinVal p,
                                                 currentInvites := invites\<rparr>\<rparr>))))"

definition presenceWatch :: "ipc_env \<Rightarrow> json option \<Rightarrow> 'a WatchHandlers_scheme \<Rightarrow> 'a WatchHandlers_scheme call" where
  "presenceWatch e raw h =
     requireAuth e h (\<lambda>h1.
       let interval = watchInterval 30 10 raw; w = h_watch h1
       in if presenceRunning w then Returned (Inr (runningIs True)) h1
          else Returned (Inr (Some (JObj [(''intervalSeconds'', JNum (of_int interval)), (''running'', JBool True)])))
                 (h1\<lparr>h_watch := w\<lparr>presenceRunning := True, presenceLoop := length (presenceLoops w),
                                    presenceLoops := startLoop (presenceLoops w)\<rparr>\<rparr>))"

definition tickRequest :: "watchState \<Rightarrow> PresenceRequest" where
  "tickRequest w =
     \<lparr>pr_Status = currentStatus w,
      pr_JoinInfo = (if currentStatus w = StatusPlayingHostedServer then Some (joinInfo (currentInvites w) (currentJoinVal w))
                     else None)\<rparr>"

definition recordPost :: "int \<Rightarrow> watchState \<Rightarrow> watchState" where
  "recordPost now w =
     w\<lparr>lastPostedStatus := currentStatus w, lastPostedJoinVal := currentJoinVal w, lastPostedInvites := currentInvites w,
       lastPostedAt := Some now\<rparr>"

definition presenceTickNow :: "ipc_env \<Rightarrow> 'a WatchHandlers_scheme \<Rightarrow> 'a WatchHandlers_scheme" where
  "presenceTickNow e h =
     (case PostPresence (ie_api e) (ie_now e) (tickRequest (h_watch h)) (h_api h) of
        (Inl err, c) \<Rightarrow> h\<lparr>h_api := c\<rparr>
      | (Inr resp, c) \<Rightarrow> emitIfAny e resp (h\<lparr>h_api := c, h_watch := recordPost (ie_now e) (h_watch h)\<rparr>))"

definition presenceStateDiffers ::
    "PresenceStatus \<Rightarrow> string option \<Rightarrow> uuid list \<Rightarrow> PresenceStatus \<Rightarrow> string option \<Rightarrow> uuid list \<Rightarrow> bool" where
  "presenceStateDiffers curStatus curJoinVal curInvites prevStatus prevJoinVal prevInvites =
     (if curStatus \<noteq> prevStatus then True
      else if (curJoinVal = None) \<noteq> (prevJoinVal = None) then True
      else if curJoinVal \<noteq> None \<and> prevJoinVal \<noteq> None \<and> the curJoinVal \<noteq> the prevJoinVal then True
      else if length curInvites \<noteq> length prevInvites then True
      else list_ex (\<lambda>i. i \<notin> set prevInvites) curInvites)"

definition presenceTickIfDue :: "ipc_env \<Rightarrow> 'a WatchHandlers_scheme \<Rightarrow> 'a WatchHandlers_scheme" where
  "presenceTickIfDue e h =
     (let w = h_watch h;
          dirty = presenceStateDiffers (currentStatus w) (currentJoinVal w) (currentInvites w)
                    (lastPostedStatus w) (lastPostedJoinVal w) (lastPostedInvites w);
          elapsed = (case lastPostedAt w of None \<Rightarrow> presenceMaxInterval + 1000000000 | Some t \<Rightarrow> ie_now e - t)
      in if elapsed < presenceMinInterval then h
         else if \<not> dirty \<and> elapsed < presenceMaxInterval then h
         else presenceTickNow e h)"

text \<open>
  \<^verbatim>\<open>runPresenceWatch\<close>: a post at once, then a look every second and after a cooldown whether one is due. The interval the
  launcher asked for is not used.
\<close>

definition runPresenceWatch :: "ipc_env \<Rightarrow> ipc_env list \<Rightarrow> 'a WatchHandlers_scheme \<Rightarrow> 'a WatchHandlers_scheme" where
  "runPresenceWatch e es h = fold presenceTickIfDue es (presenceTickNow e h)"

definition presenceUnwatch :: "json option \<Rightarrow> 'a WatchHandlers_scheme \<Rightarrow> 'a WatchHandlers_scheme call" where
  "presenceUnwatch raw h =
     (let w = h_watch h
      in if \<not> presenceRunning w then Returned (Inr (runningIs False)) h
         else (case closeStop (presenceLoop w) (presenceLoops w) of
                 None \<Rightarrow> Panicked h
               | Some ls \<Rightarrow>
                   Returned (Inr (runningIs False))
                     (h\<lparr>h_watch := w\<lparr>presenceLoops := loopExit (presenceLoop w) ls, presenceRunning := False\<rparr>\<rparr>)))"

definition registerWatchMethods :: "ipc_env \<Rightarrow> 'a WatchHandlers_scheme methods \<Rightarrow> 'a WatchHandlers_scheme methods" where
  "registerWatchMethods e ms =
     Register ''presence.unwatch'' presenceUnwatch (Register ''presence.watch'' (presenceWatch e)
     (Register ''presence.set'' (presenceSet e) (Register ''friends.setAutoAccept'' friendsSetAutoAccept
     (Register ''friends.unwatch'' friendsUnwatch (Register ''friends.watch'' (friendsWatch e)
     (Register ''friends.search'' (friendsSearch e) ms))))))"

section \<open>Methods write notifications only\<close>

lemma answers_watch_frame [simp]:
  "answers (h\<lparr>h_watch := w\<rparr>) = answers (h :: 'a WatchHandlers_scheme)"
  by (simp add: answers_def)

lemma answers_observerNote [simp]: "answers (fold (observerNote e) evs h) = answers h"
proof (induction evs arbitrary: h)
  case (Cons ev evs)
  then show ?case by (cases ev) simp_all
qed simp

lemma answers_emit [simp]:
  "answers (emitPresenceChanges e resp h) = answers h" "answers (emitIfAny e r h) = answers h"
proof -
  show *: "answers (emitPresenceChanges e resp h) = answers h" for resp
    by (induction resp arbitrary: h) (simp_all add: emitPresenceChanges_def emitPresenceChange_def Let_def)
  show "answers (emitIfAny e r h) = answers h"
    by (simp add: emitIfAny_def * split: option.split)
qed

lemma silent_watch [quiet_methods]:
  "silent (friendsWatch e)" "silent friendsUnwatch" "silent friendsSetAutoAccept" "silent (presenceSet e)"
  "silent (presenceWatch e)" "silent presenceUnwatch"
  by (rule silentI; auto simp: friendsWatch_def friendsUnwatch_def friendsSetAutoAccept_def presenceSet_def presenceWatch_def
      presenceUnwatch_def unwatchBegin_def Let_def intro!: answers_requireAuth split: option.split sum.split prod.split)+

section \<open>Watches\<close>

text \<open>At most one goroutine of a kind is not asked to stop: the current one, while the watch is on.\<close>

definition loops_ok :: "bool \<Rightarrow> nat \<Rightarrow> watch_loop list \<Rightarrow> bool" where
  "loops_ok on i ls \<longleftrightarrow>
     (on \<longrightarrow> i < length ls \<and> \<not> wl_stop (ls ! i)) \<and>
     (\<forall>j<length ls. \<not> wl_stop (ls ! j) \<longrightarrow> on \<and> j = i \<and> \<not> wl_done (ls ! j))"

definition watch_ok :: "watchState \<Rightarrow> bool" where
  "watch_ok w \<longleftrightarrow>
     loops_ok (friendsRunning w) (friendsLoop w) (friendsLoops w) \<and>
     loops_ok (presenceRunning w) (presenceLoop w) (presenceLoops w)"

lemma loops_ok_start: "loops_ok False i ls \<Longrightarrow> loops_ok True (length ls) (startLoop ls)"
  by (auto simp: loops_ok_def startLoop_def nth_append)

lemma loops_ok_close:
  assumes "loops_ok True i ls"
  shows "\<exists>ls'. closeStop i ls = Some ls' \<and> loops_ok False i ls'"
proof -
  have "closeStop i ls = Some (ls[i := (ls ! i)\<lparr>wl_stop := True\<rparr>])"
    using assms by (simp add: loops_ok_def closeStop_def)
  moreover have "wl_stop (ls[i := (ls ! i)\<lparr>wl_stop := True\<rparr>] ! j)" if "j < length ls" for j
  proof (cases "j = i")
    case True
    with that show ?thesis by simp
  next
    case False
    then have "wl_stop (ls ! j)" using assms that unfolding loops_ok_def by blast
    with False show ?thesis by simp
  qed
  then have "loops_ok False i (ls[i := (ls ! i)\<lparr>wl_stop := True\<rparr>])"
    by (simp add: loops_ok_def)
  ultimately show ?thesis by blast
qed

lemma loops_ok_exit: "loops_ok on i ls \<Longrightarrow> loops_ok on i (loopExit j ls)"
  by (auto simp: loops_ok_def loopExit_def nth_list_update)

lemma h_watch_emit [simp]:
  "friendsRunning (h_watch (emitIfAny e r h)) = friendsRunning (h_watch h)"
  "friendsLoop (h_watch (emitIfAny e r h)) = friendsLoop (h_watch h)"
  "friendsLoops (h_watch (emitIfAny e r h)) = friendsLoops (h_watch h)"
  "presenceRunning (h_watch (emitIfAny e r h)) = presenceRunning (h_watch h)"
  "presenceLoop (h_watch (emitIfAny e r h)) = presenceLoop (h_watch h)"
  "presenceLoops (h_watch (emitIfAny e r h)) = presenceLoops (h_watch h)"
  "lastPostedAt (h_watch (emitIfAny e r h)) = lastPostedAt (h_watch h)"
proof -
  let ?P = "\<lambda>h h'. friendsRunning (h_watch h') = friendsRunning (h_watch h) \<and> friendsLoop (h_watch h') = friendsLoop (h_watch h) \<and>
    friendsLoops (h_watch h') = friendsLoops (h_watch h) \<and> presenceRunning (h_watch h') = presenceRunning (h_watch h) \<and>
    presenceLoop (h_watch h') = presenceLoop (h_watch h) \<and> presenceLoops (h_watch h') = presenceLoops (h_watch h) \<and>
    lastPostedAt (h_watch h') = lastPostedAt (h_watch h)"
  have one: "?P h (emitPresenceChange e p h)" for p and h :: "'a WatchHandlers_scheme"
    by (simp add: emitPresenceChange_def Let_def Notify_def writeLine_def)
  have "?P h (emitPresenceChanges e resp h)" for resp and h :: "'a WatchHandlers_scheme"
  proof (induction resp arbitrary: h)
    case (Cons p resp)
    from Cons[of "emitPresenceChange e p h"] one[of p h] show ?case by (simp add: emitPresenceChanges_def)
  qed (simp add: emitPresenceChanges_def)
  then have "?P h (emitIfAny e r h)" by (simp add: emitIfAny_def split: option.split)
  then show
    "friendsRunning (h_watch (emitIfAny e r h)) = friendsRunning (h_watch h)"
    "friendsLoop (h_watch (emitIfAny e r h)) = friendsLoop (h_watch h)"
    "friendsLoops (h_watch (emitIfAny e r h)) = friendsLoops (h_watch h)"
    "presenceRunning (h_watch (emitIfAny e r h)) = presenceRunning (h_watch h)"
    "presenceLoop (h_watch (emitIfAny e r h)) = presenceLoop (h_watch h)"
    "presenceLoops (h_watch (emitIfAny e r h)) = presenceLoops (h_watch h)"
    "lastPostedAt (h_watch (emitIfAny e r h)) = lastPostedAt (h_watch h)" by simp_all
qed

text \<open>
  The steps of the two watches: the methods, the ticks of the loops, and the end of a stopped loop. \<^verbatim>\<open>unwatch\<close> may be
  interrupted between closing the stop channel and the loop's end.
\<close>

inductive watch_step :: "'a WatchHandlers_scheme \<Rightarrow> 'a WatchHandlers_scheme \<Rightarrow> bool" where
  ws_friendsWatch: "watch_step h (call_state (friendsWatch e raw h))"
| ws_friendsUnwatch: "watch_step h (call_state (friendsUnwatch raw h))"
| ws_unwatchBegin: "friendsRunning (h_watch h) \<Longrightarrow> unwatchBegin h = Some h' \<Longrightarrow> watch_step h h'"
| ws_exit: "watch_step h (h\<lparr>h_watch := (h_watch h)\<lparr>friendsLoops := loopExit i (friendsLoops (h_watch h))\<rparr>\<rparr>)"
| ws_presenceWatch: "watch_step h (call_state (presenceWatch e raw h))"
| ws_presenceUnwatch: "watch_step h (call_state (presenceUnwatch raw h))"
| ws_presenceSet: "watch_step h (call_state (presenceSet e raw h))"
| ws_friendsTick: "watch_step h (friendsTick e h)"
| ws_presenceTick: "watch_step h (presenceTickIfDue e h)"
| ws_presenceTickNow: "watch_step h (presenceTickNow e h)"

lemma requireAuth_invariant:
  assumes "P h" and "\<And>s. P (h\<lparr>h_session := s\<rparr>)" and "\<And>s. P (call_state (k (h\<lparr>h_session := s\<rparr>)))"
  shows "P (call_state (requireAuth e h k))"
  using assms by (auto simp: requireAuth_def split: option.split sum.split)

lemma watch_ok_presenceTickNow: "watch_ok (h_watch h) \<Longrightarrow> watch_ok (h_watch (presenceTickNow e h))"
  by (auto simp: presenceTickNow_def watch_ok_def recordPost_def split: prod.split sum.split)

lemma h_watch_observerNote: "h_watch (fold (observerNote e) evs h) = h_watch h"
proof (induction evs arbitrary: h)
  case (Cons ev evs)
  then show ?case by (cases ev) (simp_all add: Notify_def writeLine_def)
qed simp

lemma watch_ok_step: "watch_step h h' \<Longrightarrow> watch_ok (h_watch h) \<Longrightarrow> watch_ok (h_watch h')"
proof (induction rule: watch_step.induct)
  case (ws_friendsWatch h e raw)
  then show ?case unfolding friendsWatch_def
    by - (rule requireAuth_invariant[where P = "\<lambda>h. watch_ok (h_watch h)"]; auto simp: watch_ok_def Let_def intro: loops_ok_start)
next
  case (ws_friendsUnwatch h raw)
  show ?case
  proof (cases "friendsRunning (h_watch h)")
    case True
    with ws_friendsUnwatch obtain ls where "closeStop (friendsLoop (h_watch h)) (friendsLoops (h_watch h)) = Some ls"
        "loops_ok False (friendsLoop (h_watch h)) ls"
      using loops_ok_close[of "friendsLoop (h_watch h)" "friendsLoops (h_watch h)"] by (auto simp: watch_ok_def)
    with True ws_friendsUnwatch show ?thesis
      by (simp add: friendsUnwatch_def unwatchBegin_def watch_ok_def Let_def loops_ok_exit)
  next
    case False
    with ws_friendsUnwatch show ?thesis by (simp add: friendsUnwatch_def)
  qed
next
  case (ws_unwatchBegin h h')
  then obtain ls where "closeStop (friendsLoop (h_watch h)) (friendsLoops (h_watch h)) = Some ls"
      "loops_ok False (friendsLoop (h_watch h)) ls"
    using loops_ok_close[of "friendsLoop (h_watch h)" "friendsLoops (h_watch h)"] by (auto simp: watch_ok_def)
  with ws_unwatchBegin show ?case by (auto simp: unwatchBegin_def watch_ok_def Let_def)
next
  case (ws_exit h i)
  then show ?case by (simp add: watch_ok_def loops_ok_exit)
next
  case (ws_presenceWatch h e raw)
  then show ?case unfolding presenceWatch_def
    by - (rule requireAuth_invariant[where P = "\<lambda>h. watch_ok (h_watch h)"]; auto simp: watch_ok_def Let_def intro: loops_ok_start)
next
  case (ws_presenceUnwatch h raw)
  show ?case
  proof (cases "presenceRunning (h_watch h)")
    case True
    with ws_presenceUnwatch obtain ls where "closeStop (presenceLoop (h_watch h)) (presenceLoops (h_watch h)) = Some ls"
        "loops_ok False (presenceLoop (h_watch h)) ls"
      using loops_ok_close[of "presenceLoop (h_watch h)" "presenceLoops (h_watch h)"] by (auto simp: watch_ok_def)
    with True ws_presenceUnwatch show ?thesis
      by (simp add: presenceUnwatch_def watch_ok_def Let_def loops_ok_exit)
  next
    case False
    with ws_presenceUnwatch show ?thesis by (simp add: presenceUnwatch_def Let_def)
  qed
next
  case (ws_presenceSet h e raw)
  then show ?case unfolding presenceSet_def
    by - (rule requireAuth_invariant[where P = "\<lambda>h. watch_ok (h_watch h)"]; auto simp: watch_ok_def Let_def split: sum.split prod.split)
next
  case (ws_friendsTick h e)
  then show ?case by (auto simp: friendsTick_def h_watch_observerNote split: prod.split)
next
  case (ws_presenceTick h e)
  then show ?case by (simp add: presenceTickIfDue_def Let_def watch_ok_presenceTickNow)
next
  case (ws_presenceTickNow h e)
  then show ?case by (rule watch_ok_presenceTickNow)
qed

interpretation watch: invariant_system "\<lambda>h. h_watch h = newWatchState" watch_step "\<lambda>h. watch_ok (h_watch h)"
proof unfold_locales
  show "watch_ok (h_watch h)" if "h_watch h = newWatchState" for h :: "'a WatchHandlers_scheme"
    using that by (simp add: newWatchState_def watch_ok_def loops_ok_def)
qed (rule watch_ok_step)


definition sample_watch :: WatchHandlers where
  "sample_watch = Handlers.extend sample_handlers \<lparr>h_watch = newWatchState\<rparr>"


section \<open>Pacing of presence posts\<close>

text \<open>
  The ticks of \<^verbatim>\<open>runPresenceWatch\<close> with the times at which a post went through, in order. Between ticks other methods
  may change what is to be posted: each tick comes with what it finds.
\<close>

definition posts :: "ipc_env \<Rightarrow> 'a WatchHandlers_scheme \<Rightarrow> bool" where
  "posts e h \<longleftrightarrow>
     lastPostedAt (h_watch (presenceTickIfDue e h)) = Some (ie_now e) \<and> lastPostedAt (h_watch h) \<noteq> Some (ie_now e)"

inductive tick_run :: "'a WatchHandlers_scheme \<Rightarrow> int list \<Rightarrow> 'a WatchHandlers_scheme \<Rightarrow> bool" where
  tr_start: "tick_run h [] h"
| tr_tick: "tick_run h ts h1 \<Longrightarrow>
     tick_run h (if posts e h1 then ts @ [ie_now e] else ts) (presenceTickIfDue e h1)"
| tr_other: "tick_run h ts h1 \<Longrightarrow> lastPostedAt (h_watch h2) = lastPostedAt (h_watch h1) \<Longrightarrow> tick_run h ts h2"

lemma lastPostedAt_tickNow:
  "lastPostedAt (h_watch (presenceTickNow e h)) =
     (case PostPresence (ie_api e) (ie_now e) (tickRequest (h_watch h)) (h_api h) of
        (Inl err, c) \<Rightarrow> lastPostedAt (h_watch h)
      | (Inr r, c) \<Rightarrow> Some (ie_now e))"
  by (auto simp: presenceTickNow_def recordPost_def split: prod.split sum.split)

lemma tick_moves:
  "lastPostedAt (h_watch (presenceTickIfDue e h)) = lastPostedAt (h_watch h) \<or>
   lastPostedAt (h_watch (presenceTickIfDue e h)) = Some (ie_now e) \<and>
     (\<forall>t. lastPostedAt (h_watch h) = Some t \<longrightarrow> t + presenceMinInterval \<le> ie_now e)"
  by (auto simp: presenceTickIfDue_def Let_def lastPostedAt_tickNow split: prod.split sum.split option.split)

lemma tick_run_paced:
  "tick_run h ts h' \<Longrightarrow>
     lastPostedAt (h_watch h') = (if ts = [] then lastPostedAt (h_watch h) else Some (last ts)) \<and>
     sorted_wrt (\<lambda>a b. a + presenceMinInterval \<le> b) (case lastPostedAt (h_watch h) of None \<Rightarrow> ts | Some t \<Rightarrow> t # ts)"
proof (induction rule: tick_run.induct)
  case (tr_start h)
  then show ?case by (simp split: option.split)
next
  case (tr_tick h ts h1 e)
  let ?prev = "case lastPostedAt (h_watch h) of None \<Rightarrow> ts | Some t \<Rightarrow> t # ts"
  have last: "lastPostedAt (h_watch h1) = (if ?prev = [] then None else Some (last ?prev))"
    using tr_tick.IH by (auto split: option.splits)
  have step: "sorted_wrt (\<lambda>a b. a + presenceMinInterval \<le> b) (xs @ [b])"
    if "sorted_wrt (\<lambda>a b. a + presenceMinInterval \<le> b) xs" "xs \<noteq> [] \<longrightarrow> last xs + presenceMinInterval \<le> b" for xs :: "int list" and b
  proof -
    have "a + presenceMinInterval \<le> b" if "a \<in> set xs" for a
    proof -
      from that have "xs \<noteq> []" by auto
      moreover from this have "a \<le> last xs"
        using that \<open>sorted_wrt _ xs\<close>
        by (cases xs rule: rev_cases) (auto simp: sorted_wrt_append presenceMinInterval_def intro: order_trans[rotated])
      ultimately show ?thesis using \<open>xs \<noteq> [] \<longrightarrow> _\<close> by simp
    qed
    with that(1) show ?thesis by (simp add: sorted_wrt_append)
  qed
  show ?case
  proof (cases "posts e h1")
    case True
    then have "?prev \<noteq> [] \<longrightarrow> last ?prev + presenceMinInterval \<le> ie_now e"
      using tick_moves[of e h1] last by (auto simp: posts_def)
    with tr_tick.IH have "sorted_wrt (\<lambda>a b. a + presenceMinInterval \<le> b) (?prev @ [ie_now e])"
      by (intro step) auto
    with True show ?thesis by (auto simp: posts_def split: option.splits)
  next
    case False
    then have "lastPostedAt (h_watch (presenceTickIfDue e h1)) = lastPostedAt (h_watch h1)"
      using tick_moves[of e h1] by (auto simp: posts_def)
    with False tr_tick.IH show ?thesis by simp
  qed
next
  case (tr_other h ts h1 h2)
  then show ?case by simp
qed

lemma runPresenceWatch_ticks: "\<exists>ts. tick_run (presenceTickNow e h) ts (runPresenceWatch e es h)"
proof (induction es rule: rev_induct)
  case Nil
  show ?case using tr_start by (auto simp: runPresenceWatch_def)
next
  case (snoc e' es)
  then show ?case using tr_tick by (fastforce simp: runPresenceWatch_def)
qed


definition accepting_env :: "int \<Rightarrow> ipc_env" where
  "accepting_env now = sample_ipc_env\<lparr>ie_api := sample_api_env\<lparr>respond := \<lambda>l. Resp 200 '''' '''' ''''\<rparr>, ie_now := now\<rparr>"

lemma accepting_posts: "\<exists>r c. PostPresence (ie_api (accepting_env now)) now req (NewApiClient None) = (Inr r, c)"
  if "0 \<le> now"
  using that
  by (simp add: PostPresence_def accepting_env_def sample_api_env_def NewApiClient_def PresenceInCooldown_def doWithRetry_def
      retryLoop.simps Let_def etagIfEnabled_def firstNonEmpty_def)


text \<open>
  When neither list of invited players has duplicates, the watch finds a difference exactly when
  status, join value or the set of invited players differ.
\<close>

theorem presence_change_detected:
  assumes "distinct curInvites" and "distinct prevInvites"
  shows "presenceStateDiffers curStatus curJoin curInvites prevStatus prevJoin prevInvites \<longleftrightarrow>
         (curStatus, curJoin, set curInvites) \<noteq> (prevStatus, prevJoin, set prevInvites)"
proof -
  have "length curInvites = length prevInvites \<and> set curInvites \<subseteq> set prevInvites \<longleftrightarrow> set curInvites = set prevInvites"
    using assms by (metis List.finite_set card_subset_eq distinct_card order_refl)
  then show ?thesis
    by (cases curJoin; cases prevJoin) (auto simp: presenceStateDiffers_def list_ex_iff)
qed

theorem presence_change_detected_witness:
  "presenceStateDiffers ''ONLINE'' None [''a'', ''b''] ''ONLINE'' None [''a'', ''c'']"
  using presence_change_detected[of "[''a'', ''b'']" "[''a'', ''c'']" "''ONLINE''" None "''ONLINE''" None]
  by (simp add: doubleton_eq_iff)

text \<open>With duplicates a change goes unnoticed: after inviting a and b, inviting a twice is taken for the same.\<close>

lemma duplicate_invites_missed:
  "\<not> presenceStateDiffers status joinVal [''a'', ''a''] status joinVal [''a'', ''b'']"
  by (simp add: presenceStateDiffers_def)

text \<open>
  \<^verbatim>\<open>presence.set\<close> announces invitations under any status but \<open>OFFLINE\<close>, but what the watch posts later
  for the same settings carries them only while hosting: under another status its next post withdraws them.
\<close>

lemma presence_set_withdrawn:
  assumes "status \<noteq> StatusPlayingHostedServer" and "status \<noteq> StatusOffline" and "invites \<noteq> []"
    and "w' = w\<lparr>currentStatus := status, currentJoinVal := joinVal, currentInvites := invites\<rparr>"
  shows "pr_JoinInfo (setRequest status joinVal invites) = Some (NewJoinInfoUpdate invites) \<and>
         pr_JoinInfo (tickRequest w') = None"
  using assms by (simp add: setRequest_def tickRequest_def)

section \<open>What the launcher hears\<close>

lemma emitPresenceChange_watch:
  "lastPresence (h_watch (emitPresenceChange e p h)) =
     (if lastStatus (lastPresence (h_watch h)) (ps_ProfileID p) = ps_Status p then lastPresence (h_watch h)
      else (lastPresence (h_watch h))(ps_ProfileID p \<mapsto> ps_Status p))"
  by (simp add: emitPresenceChange_def Let_def Notify_def writeLine_def)

lemma emitPresenceChange_lines:
  "lines (emitPresenceChange e p h) =
     lines h @ (if lastStatus (lastPresence (h_watch h)) (ps_ProfileID p) = ps_Status p then []
                else [Notification ''presence.changed'' (presenceChangeNote e p)])"
  by (simp add: emitPresenceChange_def Let_def Notify_def writeLine_def)

lemma lastStatus_emit:
  "lastStatus (lastPresence (h_watch (emitPresenceChange e p h))) =
     (lastStatus (lastPresence (h_watch h)))(ps_ProfileID p := ps_Status p)"
  by (auto simp: emitPresenceChange_watch lastStatus_def fun_eq_iff split: option.split)

lemma emitPresenceChanges_spec:
  assumes "distinct (map ps_ProfileID resp)"
  shows "lines (emitPresenceChanges e resp h) =
           lines h @ map (\<lambda>p. Notification ''presence.changed'' (presenceChangeNote e p))
             (filter (\<lambda>p. lastStatus (lastPresence (h_watch h)) (ps_ProfileID p) \<noteq> ps_Status p) resp) \<and>
         lastStatus (lastPresence (h_watch (emitPresenceChanges e resp h))) =
           (\<lambda>i. case map_of (map (\<lambda>p. (ps_ProfileID p, ps_Status p)) resp) i of
                  None \<Rightarrow> lastStatus (lastPresence (h_watch h)) i | Some s \<Rightarrow> s)"
  using assms
proof (induction resp arbitrary: h)
  case Nil
  then show ?case by (simp add: emitPresenceChanges_def)
next
  case (Cons p resp)
  let ?h = "emitPresenceChange e p h"
  have "filter (\<lambda>q. lastStatus (lastPresence (h_watch ?h)) (ps_ProfileID q) \<noteq> ps_Status q) resp =
        filter (\<lambda>q. lastStatus (lastPresence (h_watch h)) (ps_ProfileID q) \<noteq> ps_Status q) resp"
  proof (intro filter_cong refl)
    fix q assume "q \<in> set resp"
    with Cons.prems have "ps_ProfileID q \<noteq> ps_ProfileID p" by (metis distinct.simps(2) image_eqI list.set_map list.simps(9))
    then show "(lastStatus (lastPresence (h_watch ?h)) (ps_ProfileID q) \<noteq> ps_Status q) =
        (lastStatus (lastPresence (h_watch h)) (ps_ProfileID q) \<noteq> ps_Status q)"
      by (simp add: lastStatus_emit)
  qed
  moreover have "map_of (map (\<lambda>p. (ps_ProfileID p, ps_Status p)) resp) (ps_ProfileID p) = None"
    using Cons.prems by (auto simp: map_of_eq_None_iff)
  moreover have "emitPresenceChanges e (p # resp) h = emitPresenceChanges e resp ?h"
    by (simp add: emitPresenceChanges_def)
  ultimately show ?case
    using Cons.IH[of ?h] Cons.prems by (auto simp: emitPresenceChange_lines lastStatus_emit fun_eq_iff split: option.split)
qed

text \<open>
  C24. An answer of the presence service, in which each player occurs once, is passed on as one
  notification for every player whose status is not the one last passed on, in order, and as nothing else; passing the
  same answer on again says nothing.
\<close>

theorem presence_changes_reported:
  assumes "distinct (map ps_ProfileID resp)" and "h' = emitPresenceChanges e resp h"
  shows "lines h' = lines h @ map (\<lambda>p. Notification ''presence.changed'' (presenceChangeNote e p))
             (filter (\<lambda>p. lastStatus (lastPresence (h_watch h)) (ps_ProfileID p) \<noteq> ps_Status p) resp) \<and>
         (\<forall>p\<in>set resp. lastStatus (lastPresence (h_watch h')) (ps_ProfileID p) = ps_Status p) \<and>
         lines (emitPresenceChanges e resp h') = lines h'"
proof -
  have st: "lastStatus (lastPresence (h_watch h')) (ps_ProfileID p) = ps_Status p" if "p \<in> set resp" for p
  proof -
    have "map_of (map (\<lambda>p. (ps_ProfileID p, ps_Status p)) resp) (ps_ProfileID p) = Some (ps_Status p)"
      using that assms(1) by (intro map_of_is_SomeI) (auto simp: comp_def)
    then show ?thesis using emitPresenceChanges_spec[OF assms(1), of e h] assms(2) by simp
  qed
  then have none: "filter (\<lambda>p. lastStatus (lastPresence (h_watch h')) (ps_ProfileID p) \<noteq> ps_Status p) resp = []"
    by simp
  have "lines (emitPresenceChanges e resp h') = lines h'"
    using emitPresenceChanges_spec[OF assms(1), of e h'] unfolding none by simp
  then show ?thesis using emitPresenceChanges_spec[OF assms(1), of e h] assms(2) st by simp
qed

theorem presence_changes_reported_witness:
  "lines (emitPresenceChanges sample_ipc_env
       [\<lparr>ps_ProfileID = ''A'', ps_PMID = ''P'', ps_Status = ''ONLINE'', ps_JoinInfo = None, ps_LastUpdated = 0\<rparr>] sample_watch) =
   [Notification ''presence.changed'' (presenceChangeNote sample_ipc_env
       \<lparr>ps_ProfileID = ''A'', ps_PMID = ''P'', ps_Status = ''ONLINE'', ps_JoinInfo = None, ps_LastUpdated = 0\<rparr>)]"
  using presence_changes_reported[of "[\<lparr>ps_ProfileID = ''A'', ps_PMID = ''P'', ps_Status = ''ONLINE'', ps_JoinInfo = None,
      ps_LastUpdated = 0\<rparr>]", OF _ refl, of sample_ipc_env sample_watch]
  by (simp add: sample_watch_def Handlers.extend_def sample_handlers_def newWatchState_def lastStatus_def)

end
