(* ===== verification/BypassKey.thy ===== *)
theory BypassKey
  imports Auth
begin

text \<open>
  The shared secret of the bypass plug-in, \<^verbatim>\<open>src/internal/bypass/key.go\<close>: a PEM file with one block of 32 bytes, made
  by \<^verbatim>\<open>Generate\<close> and read by \<^verbatim>\<open>Load\<close>. Files, reading and writing are those of the credentials store; the random bytes are
  an argument.
\<close>

section \<open>Model\<close>

datatype key_error = KeyNotExist | KeyRead | KeyNotPem | KeyLength nat | KeyRandom | KeyMkdir | KeyWrite

definition PEMType :: string where "PEMType = ''OPENFRIEND BYPASS KEY''"
definition KeyBytes :: nat where "KeyBytes = 32"

definition Key_Load :: "auth_env \<Rightarrow> string \<Rightarrow> disk \<Rightarrow> key_error + bytes" where
  "Key_Load e path d =
     (case d path of
        None \<Rightarrow> Inl KeyNotExist
      | Some raw \<Rightarrow>
          if \<not> au_readable e path then Inl KeyRead
          else (case pem_blocks raw of
                  [] \<Rightarrow> Inl KeyNotPem
                | b # _ \<Rightarrow>
                    if pb_Type b \<noteq> PEMType then Inl KeyNotPem
                    else if length (pb_Bytes b) \<noteq> KeyBytes then Inl (KeyLength (length (pb_Bytes b)))
                    else Inr (str_bytes (pb_Bytes b))))"

definition byte_string :: "bytes \<Rightarrow> string" where
  "byte_string bs = map (\<lambda>b. char_of (unat b)) bs"

text \<open>\<^verbatim>\<open>random\<close> is what \<^verbatim>\<open>rand.Read\<close> put into the 32 bytes, \<^verbatim>\<open>None\<close> when it failed.\<close>

definition Key_Generate :: "auth_env \<Rightarrow> bytes option \<Rightarrow> string \<Rightarrow> disk \<Rightarrow> (key_error + bytes) \<times> disk" where
  "Key_Generate e random path d =
     (case random of
        None \<Rightarrow> (Inl KeyRandom, d)
      | Some key \<Rightarrow>
          if \<not> au_mkdir e then (Inl KeyMkdir, d)
          else (case writeFile e path (Pem [\<lparr>pb_Type = PEMType, pb_Cipher = '''', pb_Nonce = NoNonce,
                                            pb_Bytes = byte_string key\<rparr>]) d of
                  (Some err, d1) \<Rightarrow> (Inl KeyWrite, d1)
                | (None, d1) \<Rightarrow> (Inr key, d1)))"

definition LoadOrAbsent :: "auth_env \<Rightarrow> string \<Rightarrow> disk \<Rightarrow> key_error + bytes option" where
  "LoadOrAbsent e path d =
     (case Key_Load e path d of
        Inr k \<Rightarrow> Inr (Some k)
      | Inl err \<Rightarrow> if err = KeyNotExist then Inr None else Inl err)"

section \<open>Properties\<close>

lemma unat_lt2p_8: "unat (b :: byte) < 256"
proof -
  have "unat b < 2 ^ LENGTH(8)" by (rule unsigned_less)
  then show ?thesis by simp
qed

lemma str_bytes_char_of: "str_bytes (byte_string key) = key"
proof -
  have "(of_char (char_of (unat b) :: char) :: byte) = b" for b :: byte
  proof -
    have "unat b < 256" by (simp add: unat_lt2p_8)
    then have "(of_char (char_of (unat b) :: char) :: nat) = unat b" by simp
    then have "(of_nat (of_char (char_of (unat b) :: char)) :: byte) = of_nat (unat b)" by simp
    then show ?thesis unfolding of_nat_of_char by simp
  qed
  then show ?thesis by (simp add: str_bytes_def byte_string_def comp_def)
qed

lemma length_byte_string [simp]: "length (byte_string key) = length key"
  by (simp add: byte_string_def)

text \<open>
  A generated key is the one that is loaded afterwards, in this run and by the server; only keys of
  exactly 32 bytes are ever loaded, and a missing file is not an error.
\<close>

theorem bypass_key_roundtrip:
  assumes "length key = 32" and "au_readable e path" and "Key_Generate e (Some key) path d = (Inr k, d1)"
  shows "k = key \<and> LoadOrAbsent e path d1 = Inr (Some key) \<and> LoadOrAbsent e path (d1(path := None)) = Inr None \<and>
         (\<forall>d2 k2. LoadOrAbsent e path d2 = Inr (Some k2) \<longrightarrow> length k2 = 32)"
proof -
  have k: "k = key" and d1: "d1 path = Some (Pem [\<lparr>pb_Type = PEMType, pb_Cipher = '''', pb_Nonce = NoNonce,
      pb_Bytes = byte_string key\<rparr>])"
    using assms(3) by (auto simp: Key_Generate_def writeFile_def split: if_splits write_outcome.splits)
  have "length k2 = 32" if "LoadOrAbsent e path d2 = Inr (Some k2)" for d2 k2
    using that by (auto simp: LoadOrAbsent_def Key_Load_def KeyBytes_def str_bytes_def split: option.splits list.splits if_splits sum.splits)
  then show ?thesis
    using k d1 assms(1,2) by (simp add: LoadOrAbsent_def Key_Load_def str_bytes_char_of KeyBytes_def)
qed

theorem bypass_key_roundtrip_witness:
  "\<exists>d1. LoadOrAbsent machine_env ''b.pem'' d1 = Inr (Some (replicate 32 7))"
proof -
  obtain d1 where "Key_Generate machine_env (Some (replicate 32 7)) ''b.pem'' Map.empty = (Inr (replicate 32 7), d1)"
    by (simp add: Key_Generate_def writeFile_def machine_env_def pending_env_def)
  from bypass_key_roundtrip[OF _ _ this] show ?thesis
    by (auto simp: machine_env_def pending_env_def)
qed

end
