(* ===== verification/Handshake.thy ===== *)
theory Handshake
  imports Prelude
begin

text \<open>
  The Minecraft handshake codec of \<^verbatim>\<open>src/internal/bridge/handshake.go\<close>: VarInts, length
  prefixed strings, the handshake packet, its framing, and the bypass marker that is
  appended to the server address.

  A \<^verbatim>\<open>bytes.Reader\<close> is the list of bytes not yet read; a reading function returns what it
  read together with the bytes that are left. The \<^verbatim>\<open>bytes.Buffer\<close> a writing function
  appends to is its result. \<^verbatim>\<open>crypto/rand\<close> and HMAC-SHA256 are arguments.
\<close>

section \<open>Model\<close>

subsection \<open>Constants and read errors\<close>

definition maxVarInt :: nat where "maxVarInt = 5"
definition maxAddressLen :: nat where "maxAddressLen = 255"
definition bypassMarkerSegment :: bytes where "bypassMarkerSegment = str_bytes ''openfriend''"
definition bypassNonceBytes :: nat where "bypassNonceBytes = 12"

lemmas handshake_consts [simp] =
  maxVarInt_def maxAddressLen_def bypassNonceBytes_def

datatype read_error =
    EOF
  | ErrUnexpectedEOF
  | VarintOverflow
  | StringLengthOutOfRange int

subsection \<open>VarInts\<close>

function writeVarInt_loop :: "32 word \<Rightarrow> bytes" where
  "writeVarInt_loop u =
     (let b = (ucast (u AND 0x7F) :: byte); u' = drop_bit 7 u
      in if u' \<noteq> 0 then (b OR 0x80) # writeVarInt_loop u' else [b])"
  by pat_completeness auto
termination
  by (relation "measure unat") (auto simp: drop_bit7_decreases)

declare writeVarInt_loop.simps [simp del]

definition writeVarInt :: "int32 \<Rightarrow> bytes" where
  "writeVarInt v = writeVarInt_loop v"

fun readVarInt_loop :: "nat \<Rightarrow> 32 word \<Rightarrow> bytes \<Rightarrow> read_error + int32 \<times> nat \<times> bytes" where
  "readVarInt_loop i acc r =
     (if i < maxVarInt
      then (case r of
              [] \<Rightarrow> Inl EOF
            | b # r' \<Rightarrow>
                let acc' = acc OR push_bit (7 * i) (ucast (b AND 0x7F))
                in if b AND 0x80 = 0 then Inr (acc', i + 1, r')
                   else readVarInt_loop (i + 1) acc' r')
      else Inl VarintOverflow)"

declare readVarInt_loop.simps [simp del]

definition readVarInt :: "bytes \<Rightarrow> read_error + int32 \<times> nat \<times> bytes" where
  "readVarInt r = readVarInt_loop 0 0 r"

subsection \<open>Strings and the port\<close>

definition writeString :: "bytes \<Rightarrow> bytes" where
  "writeString s = writeVarInt (of_nat (length s)) @ s"

text \<open>\<^verbatim>\<open>io.ReadFull\<close>: reading nothing succeeds; a reader at its end gives \<^verbatim>\<open>io.EOF\<close>, one that
  ends early \<^verbatim>\<open>io.ErrUnexpectedEOF\<close>.\<close>

definition readFull :: "nat \<Rightarrow> bytes \<Rightarrow> read_error + bytes \<times> bytes" where
  "readFull n r =
     (if n = 0 then Inr ([], r)
      else if r = [] then Inl EOF
      else if length r < n then Inl ErrUnexpectedEOF
      else Inr (take n r, drop n r))"

definition readString :: "nat \<Rightarrow> bytes \<Rightarrow> read_error + bytes \<times> bytes" where
  "readString maxLen r =
     (case readVarInt r of
        Inl e \<Rightarrow> Inl e
      | Inr (n, _, r1) \<Rightarrow>
          if sint n < 0 \<or> sint n > int maxLen then Inl (StringLengthOutOfRange (sint n))
          else readFull (nat (sint n)) r1)"

text \<open>\<^verbatim>\<open>binary.Write\<close> and \<^verbatim>\<open>binary.Read\<close> of a \<^verbatim>\<open>uint16\<close> in \<^verbatim>\<open>binary.BigEndian\<close>.\<close>

definition writeUint16 :: "uint16 \<Rightarrow> bytes" where
  "writeUint16 p = [ucast (drop_bit 8 p), ucast p]"

definition readUint16 :: "bytes \<Rightarrow> read_error + uint16 \<times> bytes" where
  "readUint16 r =
     (case readFull 2 r of
        Inl e \<Rightarrow> Inl e
      | Inr (bs, r1) \<Rightarrow> Inr (push_bit 8 (ucast (bs ! 0)) OR ucast (bs ! 1), r1))"

subsection \<open>The handshake packet\<close>

record Handshake =
  ProtocolVersion :: int32
  ServerAddress :: bytes
  ServerPort :: uint16
  NextState :: int32

datatype decode_error =
    PacketIdError read_error
  | NotHandshake int
  | ProtocolError read_error
  | AddressError read_error
  | PortError read_error
  | NextStateError read_error

definition decodeHandshake :: "bytes \<Rightarrow> decode_error + Handshake" where
  "decodeHandshake payload =
     (case readVarInt payload of
        Inl e \<Rightarrow> Inl (PacketIdError e)
      | Inr (packetID, _, r1) \<Rightarrow>
          if packetID \<noteq> 0 then Inl (NotHandshake (sint packetID))
          else (case readVarInt r1 of
                  Inl e \<Rightarrow> Inl (ProtocolError e)
                | Inr (proto, _, r2) \<Rightarrow>
                    (case readString (maxAddressLen * 2) r2 of
                       Inl e \<Rightarrow> Inl (AddressError e)
                     | Inr (addr, r3) \<Rightarrow>
                         (case readUint16 r3 of
                            Inl e \<Rightarrow> Inl (PortError e)
                          | Inr (port, r4) \<Rightarrow>
                              (case readVarInt r4 of
                                 Inl e \<Rightarrow> Inl (NextStateError e)
                               | Inr (next', _, r5) \<Rightarrow>
                                   Inr \<lparr>ProtocolVersion = proto, ServerAddress = addr,
                                        ServerPort = port, NextState = next'\<rparr>)))))"

definition handshakeBody :: "Handshake \<Rightarrow> bytes" where
  "handshakeBody h =
     writeVarInt 0 @ writeVarInt (ProtocolVersion h) @ writeString (ServerAddress h) @
     writeUint16 (ServerPort h) @ writeVarInt (NextState h)"

definition encodeHandshake :: "Handshake \<Rightarrow> bytes" where
  "encodeHandshake h =
     (let body = handshakeBody h in writeVarInt (of_nat (length body)) @ body)"

subsection \<open>Framing\<close>

datatype frame_error =
    FrameLengthError read_error
  | FrameLengthOutOfRange int

text \<open>\<^verbatim>\<open>Inr None\<close> is the result \<^verbatim>\<open>ok == false\<close> without an error: the frame is not complete
  yet.\<close>

definition readFramedPacket :: "bytes \<Rightarrow> frame_error + (bytes \<times> nat) option" where
  "readFramedPacket buf =
     (case readVarInt buf of
        Inl EOF \<Rightarrow> Inr None
      | Inl ErrUnexpectedEOF \<Rightarrow> Inr None
      | Inl e \<Rightarrow> Inl (FrameLengthError e)
      | Inr (len, lenSize, _) \<Rightarrow>
          if sint len < 0 \<or> sint len > 2 * 1024 * 1024 then Inl (FrameLengthOutOfRange (sint len))
          else let total = lenSize + nat (sint len)
               in if length buf < total then Inr None
                  else Inr (Some (take (nat (sint len)) (drop lenSize buf), total)))"

subsection \<open>The bypass marker\<close>

text \<open>\<^verbatim>\<open>base64.RawStdEncoding\<close>: three bytes give four symbols, a rest of one or two bytes gives
  two or three symbols and no padding.\<close>

definition b64_symbol :: "nat \<Rightarrow> byte" where
  "b64_symbol n =
     (if n < 26 then of_nat (65 + n)
      else if n < 52 then of_nat (97 + (n - 26))
      else if n < 62 then of_nat (48 + (n - 52))
      else if n = 62 then 43 else 47)"

fun rawStdEncoding :: "bytes \<Rightarrow> bytes" where
  "rawStdEncoding [] = []"
| "rawStdEncoding [a] =
     [b64_symbol (unat a div 4), b64_symbol (unat a mod 4 * 16)]"
| "rawStdEncoding [a, b] =
     [b64_symbol (unat a div 4), b64_symbol (unat a mod 4 * 16 + unat b div 16),
      b64_symbol (unat b mod 16 * 4)]"
| "rawStdEncoding (a # b # c # rest) =
     b64_symbol (unat a div 4) # b64_symbol (unat a mod 4 * 16 + unat b div 16) #
     b64_symbol (unat b mod 16 * 4 + unat c div 64) # b64_symbol (unat c mod 64) #
     rawStdEncoding rest"

datatype marker_error =
    RandError
  | AddressWithMarkerTooLong nat

text \<open>\<^verbatim>\<open>rand_read n\<close> is \<^verbatim>\<open>crypto/rand.Read\<close> into a buffer of \<^verbatim>\<open>n\<close> bytes (\<^verbatim>\<open>None\<close> when it fails);
  \<^verbatim>\<open>hmac_sha256 key msg\<close> is the MAC of \<^verbatim>\<open>crypto/hmac\<close> with \<^verbatim>\<open>crypto/sha256\<close>.\<close>

definition InjectBypassMarker ::
    "(nat \<Rightarrow> bytes option) \<Rightarrow> (bytes \<Rightarrow> bytes \<Rightarrow> bytes) \<Rightarrow> bytes \<Rightarrow> bytes \<Rightarrow> marker_error + bytes" where
  "InjectBypassMarker rand_read hmac_sha256 address key =
     (case rand_read bypassNonceBytes of
        None \<Rightarrow> Inl RandError
      | Some nonce \<Rightarrow>
          let nonceB64 = rawStdEncoding nonce;
              sig = rawStdEncoding (hmac_sha256 key nonceB64);
              out = address @ [0] @ bypassMarkerSegment @ [0] @ nonceB64 @ [0] @ sig
          in if length out > maxAddressLen then Inl (AddressWithMarkerTooLong (length out))
             else Inr out)"

section \<open>VarInts\<close>

lemma bit_0x80: "bit (0x80 :: int) n \<longleftrightarrow> n = 7"
proof -
  have "(0x80 :: int) = 2 ^ 7" by simp
  then show ?thesis by (simp only: bit_exp_iff possible_bit_int) auto
qed

lemma low7_cont_clear: "(ucast ((u :: 32 word) AND 0x7F) :: byte) AND 0x80 = 0"
  unfolding word_7F_mask by (rule bit_word_eqI) (auto simp: bit_simps bit_0x80)

lemma low7_cont_set: "((ucast ((u :: 32 word) AND 0x7F) :: byte) OR 0x80) AND 0x80 \<noteq> 0"
proof
  assume eq: "((ucast (u AND 0x7F) :: byte) OR 0x80) AND 0x80 = 0"
  have "bit (((ucast (u AND 0x7F) :: byte) OR 0x80) AND 0x80) 7"
    by (simp add: bit_simps bit_0x80)
  with eq show False by simp
qed

lemma low7_mask: "(ucast ((u :: 32 word) AND 0x7F) :: byte) AND 0x7F = ucast (u AND 0x7F)"
  unfolding word_7F_mask by (rule bit_word_eqI) (auto simp: bit_simps)

lemma low7_mask_cont: "((ucast ((u :: 32 word) AND 0x7F) :: byte) OR 0x80) AND 0x7F = ucast (u AND 0x7F)"
  unfolding word_7F_mask by (rule bit_word_eqI) (auto simp: bit_simps bit_0x80)

lemma low7_step:
  "take_bit n v OR push_bit n (ucast (ucast (drop_bit n v AND 0x7F) :: byte)) = take_bit (n + 7) (v :: 32 word)"
  unfolding word_7F_mask by (rule bit_word_eqI) (auto simp: bit_simps)

lemmas low7_simps = low7_cont_clear low7_cont_set low7_mask low7_mask_cont low7_step

text \<open>The reader has consumed the low \<^verbatim>\<open>7 * i\<close> bits of \<^verbatim>\<open>v\<close> and meets the bytes of the rest.\<close>

lemma readVarInt_loop_write:
  assumes "u = drop_bit (7 * i) v" and "i < 5"
  shows "readVarInt_loop i (take_bit (7 * i) v) (writeVarInt_loop u @ rest) =
         Inr (v, i + length (writeVarInt_loop u), rest)"
  using assms
proof (induction u arbitrary: i rule: writeVarInt_loop.induct)
  case (1 u)
  let ?b = "ucast (u AND 0x7F) :: byte" and ?u' = "drop_bit 7 u"
  have u': "?u' = drop_bit (7 * (i + 1)) v" using "1.prems" by (simp add: algebra_simps)
  have acc: "take_bit (7 * i) v OR push_bit (7 * i) (ucast ?b) = take_bit (7 * (i + 1)) v"
    using low7_step[of "7 * i" v] "1.prems"(1) by (simp add: algebra_simps)
  show ?case
  proof (cases "?u' = 0")
    case True
    then have "take_bit (7 * (i + 1)) v = v"
      using u' by (simp only: take_bit_eq_self_if_drop_bit_0)
    with True acc "1.prems"(2) show ?thesis
      by (simp add: writeVarInt_loop.simps[of u] readVarInt_loop.simps low7_simps)
  next
    case False
    have "i + 1 < 5"
    proof (rule ccontr)
      assume "\<not> i + 1 < 5"
      with "1.prems"(2) have "i = 4" by simp
      with u' have "?u' = drop_bit 35 v" by simp
      then have "?u' = 0" by simp
      with False show False by simp
    qed
    then have "readVarInt_loop (i + 1) (take_bit (7 * (i + 1)) v) (writeVarInt_loop ?u' @ rest) =
        Inr (v, i + 1 + length (writeVarInt_loop ?u'), rest)"
      using "1.IH"[OF refl refl False u'] u' by simp
    with False acc "1.prems"(2) show ?thesis
      by (simp add: writeVarInt_loop.simps[of u] readVarInt_loop.simps[of i] low7_simps Let_def)
  qed
qed

lemma readVarInt_write [wire_simps]:
  "readVarInt (writeVarInt v @ rest) = Inr (v, length (writeVarInt v), rest)"
  using readVarInt_loop_write[of v 0 v rest] by (simp add: readVarInt_def writeVarInt_def)

lemma readVarInt_loop_length:
  assumes "readVarInt_loop i acc r = Inr (v, n, r')" and "i \<le> maxVarInt"
  shows "i < n \<and> n \<le> maxVarInt \<and> length r = n - i + length r'"
  using assms
proof (induction i acc r rule: readVarInt_loop.induct)
  case (1 i acc r)
  from "1.prems" obtain b rs where r: "i < maxVarInt" "r = b # rs"
    by (auto simp: readVarInt_loop.simps[of i] split: if_splits list.splits)
  show ?case
  proof (cases "b AND 0x80 = 0")
    case True
    with "1.prems" r show ?thesis by (auto simp: readVarInt_loop.simps[of i] Let_def)
  next
    case False
    with "1.prems"(1) r
    have rec: "readVarInt_loop (i + 1) (acc OR push_bit (7 * i) (ucast (b AND 0x7F))) rs = Inr (v, n, r')"
      by (simp add: readVarInt_loop.simps[of i] Let_def)
    from "1.IH"[OF r(1) r(2) refl False rec] r show ?thesis by auto
  qed
qed

lemma readVarInt_length:
  "readVarInt r = Inr (v, n, r') \<Longrightarrow> 0 < n \<and> n \<le> 5 \<and> length r = n + length r'"
  using readVarInt_loop_length[of 0 0 r v n r'] by (simp add: readVarInt_def)

lemma length_writeVarInt [wire_simps]: "0 < length (writeVarInt v)" "length (writeVarInt v) \<le> 5"
  using readVarInt_length[OF readVarInt_write[of v "[]"]] by simp_all

lemma readVarInt_loop_append:
  "readVarInt_loop i acc r = Inr (v, n, r') \<Longrightarrow>
   readVarInt_loop i acc (r @ suffix) = Inr (v, n, r' @ suffix)"
proof (induction i acc r rule: readVarInt_loop.induct)
  case (1 i acc r)
  then show ?case
    by (auto simp: readVarInt_loop.simps[of i] Let_def split: if_splits list.splits)
qed

lemma readVarInt_loop_append_overflow:
  "readVarInt_loop i acc r = Inl VarintOverflow \<Longrightarrow>
   readVarInt_loop i acc (r @ suffix) = Inl VarintOverflow"
proof (induction i acc r rule: readVarInt_loop.induct)
  case (1 i acc r)
  then show ?case
    by (auto simp: readVarInt_loop.simps[of i] Let_def split: if_splits list.splits)
qed

lemma readVarInt_loop_errors: "readVarInt_loop i acc r = Inl e \<Longrightarrow> e = EOF \<or> e = VarintOverflow"
proof (induction i acc r rule: readVarInt_loop.induct)
  case (1 i acc r)
  then show ?case
    by (auto simp: readVarInt_loop.simps[of i] Let_def split: if_splits list.splits)
qed

lemma readVarInt_append: "readVarInt r = Inr (v, n, r') \<Longrightarrow> readVarInt (r @ suffix) = Inr (v, n, r' @ suffix)"
  unfolding readVarInt_def by (rule readVarInt_loop_append)

lemma readVarInt_append_overflow:
  "readVarInt r = Inl VarintOverflow \<Longrightarrow> readVarInt (r @ suffix) = Inl VarintOverflow"
  unfolding readVarInt_def by (rule readVarInt_loop_append_overflow)

lemma readVarInt_errors: "readVarInt r = Inl e \<Longrightarrow> e = EOF \<or> e = VarintOverflow"
  unfolding readVarInt_def by (rule readVarInt_loop_errors)

lemma readVarInt_loop_EOF_iff:
  "i \<le> maxVarInt \<Longrightarrow>
   readVarInt_loop i acc r = Inl EOF \<longleftrightarrow>
     length r < maxVarInt - i \<and> (\<forall>b \<in> set r. b AND 0x80 \<noteq> 0)"
proof (induction i acc r rule: readVarInt_loop.induct)
  case (1 i acc r)
  show ?case
  proof (cases "i < maxVarInt \<and> r \<noteq> []")
    case True
    then obtain b rs where r: "r = b # rs" by (cases r) auto
    have "maxVarInt - i = Suc (maxVarInt - (i + 1))" using True by auto
    then show ?thesis
      using True r "1.IH"[OF _ r refl] by (auto simp: readVarInt_loop.simps[of i] Let_def)
  next
    case False
    with "1.prems" show ?thesis by (auto simp: readVarInt_loop.simps[of i] split: list.splits)
  qed
qed

lemma readVarInt_loop_overflow_iff:
  "i \<le> maxVarInt \<Longrightarrow>
   readVarInt_loop i acc r = Inl VarintOverflow \<longleftrightarrow>
     maxVarInt - i \<le> length r \<and> (\<forall>b \<in> set (take (maxVarInt - i) r). b AND 0x80 \<noteq> 0)"
proof (induction i acc r rule: readVarInt_loop.induct)
  case (1 i acc r)
  show ?case
  proof (cases "i < maxVarInt \<and> r \<noteq> []")
    case True
    then obtain b rs where r: "r = b # rs" by (cases r) auto
    have "maxVarInt - i = Suc (maxVarInt - (i + 1))" using True by auto
    then show ?thesis
      using True r "1.IH"[OF _ r refl] by (auto simp: readVarInt_loop.simps[of i] Let_def)
  next
    case False
    with "1.prems" show ?thesis by (auto simp: readVarInt_loop.simps[of i] split: list.splits)
  qed
qed

section \<open>Fields of the packet\<close>

interpretation varint: byte_codec writeVarInt
  "map_sum id (\<lambda>(v, n, r). (v, r)) \<circ> readVarInt" "\<lambda>_. True"
  by unfold_locales (simp add: readVarInt_write)

lemma readFull_append [wire_simps]: "readFull (length s) (s @ rest) = Inr (s, rest)"
  by (simp add: readFull_def)

lemma readString_write [wire_simps]:
  assumes "length s \<le> maxLen" and "maxLen < 2 ^ 31"
  shows "readString maxLen (writeString s @ rest) = Inr (s, rest)"
proof -
  have "length s < 2 ^ 31" using assms by simp
  with assms(1) show ?thesis
    by (simp add: readString_def writeString_def readVarInt_write sint_of_nat32 readFull_append)
qed

interpretation gostring: byte_codec writeString "readString 510" "\<lambda>s. length s \<le> 510"
  by unfold_locales (simp add: readString_write)

lemma readUint16_write [wire_simps]: "readUint16 (writeUint16 p @ rest) = Inr (p, rest)"
proof -
  have "push_bit 8 (ucast (ucast (drop_bit 8 p) :: byte)) OR ucast (ucast p :: byte) = p"
    by (rule bit_word_eqI) (auto simp: bit_simps)
  then show ?thesis by (simp add: readUint16_def writeUint16_def readFull_def)
qed

interpretation port: byte_codec writeUint16 readUint16 "\<lambda>_. True"
  by unfold_locales (simp add: readUint16_write)

section \<open>The handshake packet\<close>

definition wf_handshake :: "Handshake \<Rightarrow> bool" where
  "wf_handshake h \<longleftrightarrow> length (ServerAddress h) \<le> 2 * maxAddressLen"

lemma decodeHandshake_body:
  "wf_handshake h \<Longrightarrow> decodeHandshake (handshakeBody h @ trailing) = Inr h"
  by (simp add: wf_handshake_def decodeHandshake_def handshakeBody_def wire_simps)

lemma length_handshakeBody:
  "wf_handshake h \<Longrightarrow> length (handshakeBody h) \<le> 532"
  using length_writeVarInt(2)[of 0] length_writeVarInt(2)[of "ProtocolVersion h"]
    length_writeVarInt(2)[of "NextState h"] length_writeVarInt(2)[of "of_nat (length (ServerAddress h))"]
  by (simp add: handshakeBody_def writeString_def writeUint16_def wf_handshake_def)

lemma readFramedPacket_framed:
  assumes "length body \<le> 2 * 1024 * 1024"
  shows "readFramedPacket ((writeVarInt (of_nat (length body)) @ body) @ rest) =
         Inr (Some (body, length (writeVarInt (of_nat (length body)) @ body)))"
  using assms by (simp add: readFramedPacket_def readVarInt_write sint_of_nat32)

lemma readFramedPacket_encode:
  assumes "wf_handshake h"
  shows "readFramedPacket (encodeHandshake h @ rest) =
         Inr (Some (handshakeBody h, length (encodeHandshake h)))"
proof -
  have "length (handshakeBody h) \<le> 2 * 1024 * 1024"
    using length_handshakeBody[OF assms] by simp
  then show ?thesis
    unfolding encodeHandshake_def Let_def by (rule readFramedPacket_framed)
qed

text \<open>Frames arrive in pieces: once a buffer holds a complete frame or a bad one, the bytes
  that follow do not change the verdict.\<close>

lemma readFramedPacket_Some:
  "readFramedPacket buf = Inr (Some (p, c)) \<longleftrightarrow>
     (\<exists>len n r. readVarInt buf = Inr (len, n, r) \<and> 0 \<le> sint len \<and> sint len \<le> 2 * 1024 * 1024 \<and>
        c = n + nat (sint len) \<and> c \<le> length buf \<and> p = take (nat (sint len)) (drop n buf))"
  by (auto simp: readFramedPacket_def Let_def split: sum.splits read_error.splits if_splits)

lemma readFramedPacket_append:
  assumes "readFramedPacket buf = Inr (Some (p, c))"
  shows "readFramedPacket (buf @ suffix) = Inr (Some (p, c))"
proof -
  from assms obtain len n r where *: "readVarInt buf = Inr (len, n, r)" "0 \<le> sint len"
      "sint len \<le> 2 * 1024 * 1024" "c = n + nat (sint len)" "c \<le> length buf"
      "p = take (nat (sint len)) (drop n buf)"
    unfolding readFramedPacket_Some by blast
  from *(4,5) have "take (nat (sint len)) (drop n (buf @ suffix)) = take (nat (sint len)) (drop n buf)"
    by simp
  with * show ?thesis
    unfolding readFramedPacket_Some using readVarInt_append[OF *(1), of suffix] by force
qed

lemma readFramedPacket_append_error:
  assumes "readFramedPacket buf = Inl e"
  shows "readFramedPacket (buf @ suffix) = Inl e"
proof (cases "readVarInt buf")
  case (Inl re)
  with assms readVarInt_errors[OF Inl] have "re = VarintOverflow" by (auto simp: readFramedPacket_def)
  with Inl assms show ?thesis by (simp add: readFramedPacket_def readVarInt_append_overflow)
next
  case (Inr x)
  then obtain len n r where x: "readVarInt buf = Inr (len, n, r)" by (cases x) auto
  with assms readVarInt_append[OF x, of suffix] show ?thesis
    by (auto simp: readFramedPacket_def Let_def split: if_splits)
qed

lemma readFramedPacket_splits_buffer:
  assumes "readFramedPacket buf = Inr (Some (p, c))"
  shows "\<exists>hdr. buf = hdr @ p @ drop c buf \<and> c = length hdr + length p \<and> 0 < length hdr \<and> length hdr \<le> 5"
proof -
  from assms obtain len n r where *: "readVarInt buf = Inr (len, n, r)"
      "c = n + nat (sint len)" "c \<le> length buf" "p = take (nat (sint len)) (drop n buf)"
    unfolding readFramedPacket_Some by blast
  have "buf = take n buf @ p @ drop c buf"
    using *(2,4) by (metis add.commute append_take_drop_id drop_drop)
  moreover have "length (take n buf) = n" and "length p = nat (sint len)" using *(2-4) by auto
  ultimately show ?thesis using *(2) readVarInt_length[OF *(1)] by metis
qed

section \<open>The bypass marker\<close>

text \<open>The reader of the marker splits the address at its NUL bytes.\<close>

fun split_nul :: "bytes \<Rightarrow> bytes list" where
  "split_nul [] = [[]]"
| "split_nul (b # bs) =
     (if b = 0 then [] # split_nul bs
      else (case split_nul bs of [] \<Rightarrow> [[b]] | s # ss \<Rightarrow> (b # s) # ss))"

lemma split_nul_free: "0 \<notin> set s \<Longrightarrow> split_nul s = [s]"
  by (induction s) auto

lemma split_nul_append: "0 \<notin> set s \<Longrightarrow> split_nul (s @ 0 # t) = s # split_nul t"
  by (induction s) auto

lemma of_nat_byte_nonzero: "0 < k \<Longrightarrow> k < 256 \<Longrightarrow> (of_nat k :: byte) \<noteq> 0"
  by (auto simp: word_of_nat_eq_0_iff dest!: dvd_imp_le)

lemma b64_symbol_nonzero:
  assumes "n < 64"
  shows "b64_symbol n \<noteq> 0"
proof -
  have "(of_nat (65 + n) :: byte) \<noteq> 0" "(of_nat (97 + (n - 26)) :: byte) \<noteq> 0"
    "(of_nat (48 + (n - 52)) :: byte) \<noteq> 0"
    using assms by (intro of_nat_byte_nonzero; simp; fail)+
  moreover have "(43 :: byte) \<noteq> 0" "(47 :: byte) \<noteq> 0" by simp_all
  ultimately show ?thesis unfolding b64_symbol_def by presburger
qed

lemma unat_byte_less: "unat (a :: byte) < 256"
  using unsigned_less[of a, where 'a = nat] by simp

lemma b64_index_bounds:
  "unat (a :: byte) div 4 < 64" "unat a mod 4 * 16 < 64" "unat a mod 4 * 16 + unat (b :: byte) div 16 < 64"
  "unat b mod 16 * 4 < 64" "unat b mod 16 * 4 + unat (c :: byte) div 64 < 64" "unat c mod 64 < 64"
proof -
  have m: "unat a mod 4 \<le> 3" "unat b mod 16 \<le> 15" by presburger+
  have d: "unat a div 4 < 64" "unat b div 16 < 16" "unat c div 64 < 4"
    using unat_byte_less[of a] unat_byte_less[of b] unat_byte_less[of c] by (auto simp: less_mult_imp_div_less)
  show "unat a div 4 < 64" "unat a mod 4 * 16 < 64" "unat a mod 4 * 16 + unat b div 16 < 64"
    "unat b mod 16 * 4 < 64" "unat b mod 16 * 4 + unat c div 64 < 64" "unat c mod 64 < 64"
    using m d by simp_all
qed

lemma rawStdEncoding_nonzero: "0 \<notin> set (rawStdEncoding bs)"
proof -
  have "\<forall>x \<in> set (rawStdEncoding bs). \<exists>n < 64. x = b64_symbol n"
    by (induction bs rule: rawStdEncoding.induct) (auto intro: b64_index_bounds)
  then show ?thesis using b64_symbol_nonzero by metis
qed

lemma length_rawStdEncoding: "length (rawStdEncoding bs) = (4 * length bs + 2) div 3"
  by (induction bs rule: rawStdEncoding.induct) auto

lemma bypassMarkerSegment_nonzero: "0 \<notin> set bypassMarkerSegment"
  by (simp add: bypassMarkerSegment_def str_bytes_def)

lemma length_bypassMarkerSegment [simp]: "length bypassMarkerSegment = 10"
  by (simp add: bypassMarkerSegment_def)

text \<open>What the code relies on of \<^verbatim>\<open>crypto/rand\<close> and \<^verbatim>\<open>crypto/hmac\<close>: a successful read fills the
  buffer, and a SHA-256 MAC has 32 bytes.\<close>

definition rand_fills :: "(nat \<Rightarrow> bytes option) \<Rightarrow> bool" where
  "rand_fills rand_read \<longleftrightarrow> (\<forall>n bs. rand_read n = Some bs \<longrightarrow> length bs = n)"

definition mac_is_sha256 :: "(bytes \<Rightarrow> bytes \<Rightarrow> bytes) \<Rightarrow> bool" where
  "mac_is_sha256 hmac_sha256 \<longleftrightarrow> (\<forall>k m. length (hmac_sha256 k m) = 32)"

lemma InjectBypassMarker_length_bound:
  "InjectBypassMarker rand_read mac address key = Inr out \<Longrightarrow> length out \<le> maxAddressLen"
  by (auto simp: InjectBypassMarker_def Let_def split: option.splits if_splits)

lemma InjectBypassMarker_Inr:
  assumes "rand_fills rand_read" and "mac_is_sha256 mac"
  shows "InjectBypassMarker rand_read mac address key = Inr out \<longleftrightarrow>
     (\<exists>nonce. rand_read 12 = Some nonce \<and> length address \<le> 183 \<and>
        out = address @ 0 # bypassMarkerSegment @ 0 # rawStdEncoding nonce @
              0 # rawStdEncoding (mac key (rawStdEncoding nonce)))"
  using assms
  by (auto simp: InjectBypassMarker_def Let_def rand_fills_def mac_is_sha256_def
        length_rawStdEncoding split: option.splits)

section \<open>Properties\<close>

text \<open>
  Reading a VarInt that \<^verbatim>\<open>writeVarInt\<close> wrote gives the value back for every
  32-bit value, consumes exactly the bytes written and leaves what follows; the encoding
  has between one and five bytes.
\<close>

theorem varint_roundtrip:
  "readVarInt (writeVarInt v @ rest) = Inr (v, length (writeVarInt v), rest) \<and>
   1 \<le> length (writeVarInt v) \<and> length (writeVarInt v) \<le> maxVarInt"
  using length_writeVarInt[of v] by (simp add: readVarInt_write Suc_le_eq)

text \<open>
  \<^verbatim>\<open>readVarInt\<close> reports an overflow exactly when the first five bytes all carry
  the continuation bit, and the end of input exactly when fewer than five bytes are there
  and all of them carry it; it has no other failure.
\<close>

theorem varint_failures:
  "(readVarInt r = Inl VarintOverflow \<longleftrightarrow> 5 \<le> length r \<and> list_all (\<lambda>b. b AND 0x80 \<noteq> 0) (take 5 r)) \<and>
   (readVarInt r = Inl EOF \<longleftrightarrow> length r < 5 \<and> list_all (\<lambda>b. b AND 0x80 \<noteq> 0) r) \<and>
   readVarInt r \<noteq> Inl ErrUnexpectedEOF \<and> readVarInt r \<noteq> Inl (StringLengthOutOfRange n)"
  using readVarInt_loop_overflow_iff[of 0 0 r] readVarInt_loop_EOF_iff[of 0 0 r] readVarInt_errors[of r]
  unfolding readVarInt_def by (auto simp: list_all_iff)

text \<open>
  C6. Framing: a handshake whose address has at most 510 bytes, encoded by
  \<^verbatim>\<open>encodeHandshake\<close> and followed by any bytes, is recognised by \<^verbatim>\<open>readFramedPacket\<close> as one frame
  of exactly the encoded length, and \<^verbatim>\<open>decodeHandshake\<close> of its payload gives the handshake back.
\<close>

theorem handshake_frame_roundtrip:
  assumes "length (ServerAddress h) \<le> 2 * maxAddressLen"
  shows "\<exists>payload. readFramedPacket (encodeHandshake h @ rest) =
           Inr (Some (payload, length (encodeHandshake h))) \<and> decodeHandshake payload = Inr h"
proof -
  have "wf_handshake h" using assms by (simp add: wf_handshake_def)
  then show ?thesis
    using readFramedPacket_encode[of h rest] decodeHandshake_body[of h "[]"] by auto
qed

definition sample_handshake :: Handshake where
  "sample_handshake = \<lparr>ProtocolVersion = 776, ServerAddress = str_bytes ''localhost'',
     ServerPort = 25565, NextState = 2\<rparr>"

theorem handshake_frame_roundtrip_witness:
  "\<exists>payload. readFramedPacket (encodeHandshake sample_handshake @ [1, 2]) =
     Inr (Some (payload, length (encodeHandshake sample_handshake))) \<and>
     decodeHandshake payload = Inr sample_handshake"
  by (rule handshake_frame_roundtrip) (simp add: sample_handshake_def)

text \<open>
  Framing is insensitive to how the stream is cut: once \<^verbatim>\<open>readFramedPacket\<close> has
  decided on a buffer (a complete frame, or an error), every extension of the buffer gets the
  same verdict.
\<close>

theorem frame_verdict_stable:
  assumes "readFramedPacket buf \<noteq> Inr None"
  shows "readFramedPacket (buf @ suffix) = readFramedPacket buf"
proof (cases "readFramedPacket buf")
  case (Inl e)
  then show ?thesis by (simp add: readFramedPacket_append_error)
next
  case (Inr x)
  with assms obtain p c where "readFramedPacket buf = Inr (Some (p, c))" by auto
  then show ?thesis by (simp add: readFramedPacket_append)
qed

theorem frame_verdict_stable_witness:
  "readFramedPacket [2, 7, 8] = Inr (Some ([7, 8], 3)) \<and>
   readFramedPacket ([2, 7, 8] @ [9]) = readFramedPacket [2, 7, 8]"
proof -
  have *: "readFramedPacket [2, 7, 8] = Inr (Some ([7, 8], 3))"
    by (simp add: readFramedPacket_def readVarInt_def readVarInt_loop.simps)
  show ?thesis using * frame_verdict_stable[of "[2, 7, 8]" "[9]"] by simp
qed

text \<open>
  With working randomness and a 32-byte MAC, \<^verbatim>\<open>InjectBypassMarker\<close> succeeds exactly
  on addresses of at most 183 bytes; the result then has at most 255 bytes, and splitting it at
  its NUL bytes gives the original address, the marker, the nonce and the MAC of that nonce
  under the shared key.
\<close>

theorem bypass_marker_format:
  assumes "rand_fills rand_read" and "mac_is_sha256 mac" and "rand_read bypassNonceBytes = Some nonce"
    and "0 \<notin> set address"
  shows "(case InjectBypassMarker rand_read mac address key of
            Inr out \<Rightarrow> length address \<le> 183 \<and> length out \<le> maxAddressLen \<and>
              split_nul out = [address, bypassMarkerSegment, rawStdEncoding nonce,
                               rawStdEncoding (mac key (rawStdEncoding nonce))]
          | Inl e \<Rightarrow> 183 < length address \<and> e = AddressWithMarkerTooLong (length address + 72))"
  using assms bypassMarkerSegment_nonzero rawStdEncoding_nonzero
  by (auto simp: InjectBypassMarker_def Let_def rand_fills_def mac_is_sha256_def length_rawStdEncoding
        split_nul_append split_nul_free)

theorem bypass_marker_format_witness:
  "length (str_bytes ''mc.example'') \<le> 183 \<and>
   (case InjectBypassMarker (\<lambda>n. Some (replicate n 7)) (\<lambda>k m. replicate 32 1) (str_bytes ''mc.example'') [5] of
      Inr out \<Rightarrow> length out \<le> maxAddressLen \<and> split_nul out ! 0 = str_bytes ''mc.example''
    | Inl e \<Rightarrow> False)"
proof -
  have "rand_fills (\<lambda>n. Some (replicate n 7))" by (auto simp: rand_fills_def)
  moreover have "mac_is_sha256 (\<lambda>k m. replicate 32 1)" by (simp add: mac_is_sha256_def)
  moreover have "0 \<notin> set (str_bytes ''mc.example'')" by (simp add: str_bytes_def)
  ultimately show ?thesis
    using bypass_marker_format[of "\<lambda>n. Some (replicate n 7)" "\<lambda>k m. replicate 32 1"
        "replicate 12 7" "str_bytes ''mc.example''" "[5]"]
    by (auto split: sum.splits)
qed

end
