(* ===== verification/RtcSession.thy ===== *)
theory RtcSession
  imports Handshake "HOL-Library.Multiset"
begin

text \<open>
  The WebRTC session of \<^verbatim>\<open>src/internal/bridge/session.go\<close>: one peer connection with its data
  channel, the queue of ICE candidates that arrive before the remote description, the warm-up
  prefix that both sides send, and the one-shot open and close notifications.

  The peer connection and the data channel are objects of pion/webrtc, which is not part of the
  repository. What they answer is the argument \<^verbatim>\<open>pion\<close>; what the session calls on them, and the
  callbacks it makes, are recorded in order in the field \<^verbatim>\<open>calls\<close>. A nil pointer is \<^verbatim>\<open>None\<close> (data
  channel) or \<^verbatim>\<open>False\<close> (peer connection). The fields \<^verbatim>\<open>dcOpenCh\<close> and \<^verbatim>\<open>closeFired\<close> say whether the
  channel is closed and whether \<^verbatim>\<open>closeOnce\<close> has run.
\<close>

section \<open>Model\<close>

datatype Role = RoleAcceptor | RoleInitiator

record ICECandidateInit =
  Candidate :: string
  SDPMid :: "string option"
  SDPMLineIndex :: "uint16 option"

datatype dc_state = DcConnecting | DcOpen | DcClosing | DcClosed

datatype sdp_type = SDPTypeOffer | SDPTypeAnswer

type_synonym dc_id = nat

datatype rtc_call =
    SetRemoteDescription sdp_type string
  | AddICECandidate ICECandidateInit
  | CreateAnswer
  | PcCreateOffer
  | SetLocalDescription string
  | CreateDataChannel string bool
  | DcSend bytes
  | DcClose
  | PcClose
  | OnLocalICE string
  | OnData bytes
  | OnClose

record pion =
  newPeerConnection :: "go_error option"
  setRemoteDescription :: "sdp_type \<Rightarrow> string \<Rightarrow> go_error option"
  addICECandidate :: "ICECandidateInit \<Rightarrow> go_error option"
  createAnswer :: "go_error + string"
  createOffer :: "go_error + string"
  setLocalDescription :: "string \<Rightarrow> go_error option"
  createDataChannel :: "string \<Rightarrow> bool \<Rightarrow> go_error + dc_id"
  readyState :: "dc_id \<Rightarrow> dc_state"
  dcSend :: "dc_id \<Rightarrow> bytes \<Rightarrow> go_error option"

record Session =
  SessionID :: string
  PeerPmid :: uuid
  SRole :: Role
  pc :: bool
  dc :: "dc_id option"
  queuedICE :: "ICECandidateInit list"
  remoteSet :: bool
  dcOpenCh :: bool
  closeFired :: bool
  warmupRemaining :: nat
  calls :: "rtc_call list"

definition warmupMagic :: bytes where
  "warmupMagic = str_bytes ''OFW0''"

definition do_call :: "rtc_call \<Rightarrow> Session \<Rightarrow> Session" where
  "do_call c s = s\<lparr>calls := calls s @ [c]\<rparr>"

definition NewSession :: "pion \<Rightarrow> Role \<Rightarrow> string \<Rightarrow> uuid \<Rightarrow> go_error + Session" where
  "NewSession p role sessionID peerPmid =
     (case newPeerConnection p of
        Some e \<Rightarrow> Inl e
      | None \<Rightarrow> Inr \<lparr>SessionID = sessionID, PeerPmid = peerPmid, SRole = role, pc = True, dc = None,
                     queuedICE = [], remoteSet = False, dcOpenCh = False, closeFired = False,
                     warmupRemaining = 0, calls = []\<rparr>)"

text \<open>The handlers that \<^verbatim>\<open>NewSession\<close> installs on the peer connection. A nil candidate marks the
  end of gathering.\<close>

definition onICECandidate :: "string option \<Rightarrow> Session \<Rightarrow> Session" where
  "onICECandidate c s = (case c of None \<Rightarrow> s | Some cand \<Rightarrow> do_call (OnLocalICE cand) s)"

definition fireClose :: "Session \<Rightarrow> Session" where
  "fireClose s = (if closeFired s then s else do_call OnClose (s\<lparr>closeFired := True\<rparr>))"

datatype pc_state = PcNew | PcConnecting | PcConnected | PcDisconnected | PcFailed | PcClosed

definition onConnectionStateChange :: "pc_state \<Rightarrow> Session \<Rightarrow> Session" where
  "onConnectionStateChange st s = (if st = PcFailed \<or> st = PcClosed then fireClose s else s)"

subsection \<open>The data channel\<close>

definition signalOpen :: "Session \<Rightarrow> Session" where
  "signalOpen s = s\<lparr>dcOpenCh := True\<rparr>"

definition attachDataChannel :: "pion \<Rightarrow> dc_id \<Rightarrow> Session \<Rightarrow> Session" where
  "attachDataChannel p d s =
     (let s1 = s\<lparr>dc := Some d, warmupRemaining := length warmupMagic\<rparr>
      in if readyState p d = DcOpen then signalOpen s1 else s1)"

definition dcOnOpen :: "Session \<Rightarrow> Session" where
  "dcOnOpen s = signalOpen (do_call (DcSend warmupMagic) s)"

definition dcOnClose :: "Session \<Rightarrow> Session" where
  "dcOnClose s = fireClose s"

definition dcOnMessage :: "bytes \<Rightarrow> Session \<Rightarrow> Session" where
  "dcOnMessage data s =
     (if warmupRemaining s > 0
      then let drop' = min (warmupRemaining s) (length data);
               s1 = s\<lparr>warmupRemaining := warmupRemaining s - drop'\<rparr>;
               data' = drop drop' data
           in if data' = [] then s1 else do_call (OnData data') s1
      else do_call (OnData data) s)"

subsection \<open>Offer, answer and candidates\<close>

text \<open>\<^verbatim>\<open>NilPeerConnection\<close>: the method is called on the nil pointer that \<^verbatim>\<open>Close\<close> leaves in \<^verbatim>\<open>s.pc\<close>.\<close>

datatype rtc_error = RtcErr go_error | NilPeerConnection

fun addQueued :: "ICECandidateInit list \<Rightarrow> Session \<Rightarrow> Session" where
  "addQueued [] s = s"
| "addQueued (c # cs) s = addQueued cs (do_call (AddICECandidate c) s)"

definition remoteDescriptionSet :: "Session \<Rightarrow> Session" where
  "remoteDescriptionSet s = addQueued (queuedICE s) (s\<lparr>remoteSet := True, queuedICE := []\<rparr>)"

definition HandleOffer :: "pion \<Rightarrow> string \<Rightarrow> Session \<Rightarrow> (rtc_error + string) \<times> Session" where
  "HandleOffer p offerSDP s =
     (if \<not> pc s then (Inl NilPeerConnection, s)
      else let s1 = do_call (SetRemoteDescription SDPTypeOffer offerSDP) s
           in (case setRemoteDescription p SDPTypeOffer offerSDP of
                 Some e \<Rightarrow> (Inl (RtcErr e), s1)
               | None \<Rightarrow>
                   let s2 = remoteDescriptionSet s1; s3 = do_call CreateAnswer s2
                   in (case createAnswer p of
                         Inl e \<Rightarrow> (Inl (RtcErr e), s3)
                       | Inr answer \<Rightarrow>
                           let s4 = do_call (SetLocalDescription answer) s3
                           in (case setLocalDescription p answer of
                                 Some e \<Rightarrow> (Inl (RtcErr e), s4)
                               | None \<Rightarrow> (Inr answer, s4)))))"

definition CreateOffer :: "pion \<Rightarrow> Session \<Rightarrow> (rtc_error + string) \<times> Session" where
  "CreateOffer p s =
     (if SRole s \<noteq> RoleInitiator then (Inl (RtcErr ''CreateOffer only valid for initiator''), s)
      else if \<not> pc s then (Inl NilPeerConnection, s)
      else let s1 = do_call (CreateDataChannel ''minecraft'' True) s
           in (case createDataChannel p ''minecraft'' True of
                 Inl e \<Rightarrow> (Inl (RtcErr e), s1)
               | Inr d \<Rightarrow>
                   let s2 = attachDataChannel p d s1; s3 = do_call PcCreateOffer s2
                   in (case createOffer p of
                         Inl e \<Rightarrow> (Inl (RtcErr e), s3)
                       | Inr offer \<Rightarrow>
                           let s4 = do_call (SetLocalDescription offer) s3
                           in (case setLocalDescription p offer of
                                 Some e \<Rightarrow> (Inl (RtcErr e), s4)
                               | None \<Rightarrow> (Inr offer, s4)))))"

definition HandleAnswer :: "pion \<Rightarrow> string \<Rightarrow> Session \<Rightarrow> rtc_error option \<times> Session" where
  "HandleAnswer p answerSDP s =
     (if SRole s \<noteq> RoleInitiator then (Some (RtcErr ''HandleAnswer only valid for initiator''), s)
      else if \<not> pc s then (Some NilPeerConnection, s)
      else let s1 = do_call (SetRemoteDescription SDPTypeAnswer answerSDP) s
           in (case setRemoteDescription p SDPTypeAnswer answerSDP of
                 Some e \<Rightarrow> (Some (RtcErr e), s1)
               | None \<Rightarrow> (None, remoteDescriptionSet s1)))"

text \<open>The error of \<^verbatim>\<open>pc.AddICECandidate\<close> is only logged.\<close>

definition AddRemoteICE :: "ICECandidateInit \<Rightarrow> Session \<Rightarrow> rtc_error option \<times> Session" where
  "AddRemoteICE c s =
     (if \<not> remoteSet s then (None, s\<lparr>queuedICE := queuedICE s @ [c]\<rparr>)
      else if \<not> pc s then (Some NilPeerConnection, s)
      else (None, do_call (AddICECandidate c) s))"

subsection \<open>Waiting, sending and closing\<close>

text \<open>\<^verbatim>\<open>WaitDataChannelOpen\<close> blocks on the open channel and the timeout; \<^verbatim>\<open>timedOut\<close> says which of the
  two fired.\<close>

definition WaitDataChannelOpen :: "bool \<Rightarrow> Session \<Rightarrow> (go_error + dc_id) option" where
  "WaitDataChannelOpen timedOut s =
     (if dcOpenCh s then (case dc s of
                            None \<Rightarrow> Some (Inl ''data channel was reset'')
                          | Some d \<Rightarrow> Some (Inr d))
      else if timedOut then Some (Inl ''context deadline exceeded'')
      else None)"

definition Send :: "pion \<Rightarrow> bytes \<Rightarrow> Session \<Rightarrow> go_error option \<times> Session" where
  "Send p data s =
     (case dc s of
        None \<Rightarrow> (Some ''data channel not open'', s)
      | Some d \<Rightarrow>
          if readyState p d \<noteq> DcOpen then (Some ''data channel not open'', s)
          else (dcSend p d data, do_call (DcSend data) s))"

text \<open>
  \<^verbatim>\<open>WaitForBufferDrain\<close> polls the channel every 5 ms. The list holds what successive polls see
  (ready state, buffered amount); when it is used up the call has not returned yet (\<^verbatim>\<open>None\<close>).
\<close>

fun drainLoop :: "nat \<Rightarrow> (dc_state \<times> nat) list \<Rightarrow> go_error option option" where
  "drainLoop maxBuffered [] = None"
| "drainLoop maxBuffered ((st, amount) # polls) =
     (if st \<noteq> DcOpen then Some (Some ''data channel not open'')
      else if amount \<le> maxBuffered then Some None
      else drainLoop maxBuffered polls)"

definition WaitForBufferDrain :: "nat \<Rightarrow> (dc_state \<times> nat) list \<Rightarrow> Session \<Rightarrow> go_error option option" where
  "WaitForBufferDrain maxBuffered polls s =
     (case dc s of
        None \<Rightarrow> Some (Some ''data channel not attached'')
      | Some d \<Rightarrow> drainLoop maxBuffered polls)"

datatype ice_type = ICEHost | ICESrflx | ICEPrflx | ICERelay

definition describePath :: "ice_type \<Rightarrow> ice_type \<Rightarrow> string" where
  "describePath l r =
     (if l = ICERelay \<or> r = ICERelay then ''TURN-relay (bandwidth limited by relay)''
      else if l = ICEHost \<and> r = ICEHost then ''LAN-direct''
      else ''P2P (NAT-traversed, full bandwidth)'')"

definition Session_Close :: "Session \<Rightarrow> Session" where
  "Session_Close s =
     (let s1 = s\<lparr>dc := None, pc := False\<rparr>;
          s2 = (if dc s \<noteq> None then do_call DcClose s1 else s1)
      in if pc s then do_call PcClose s2 else s2)"

subsection \<open>The session as a machine\<close>

text \<open>Every way the session is driven: the callbacks of pion and the calls of its owner.\<close>

datatype rtc_event =
    EvLocalICE "string option"
  | EvConnectionState pc_state
  | EvAttach dc_id
  | EvOpen
  | EvDcClose
  | EvMessage bytes
  | EvOffer string
  | EvCreateOffer
  | EvAnswer string
  | EvRemoteICE ICECandidateInit
  | EvSend bytes
  | EvClose

fun rtc_apply :: "pion \<Rightarrow> rtc_event \<Rightarrow> Session \<Rightarrow> Session" where
  "rtc_apply p (EvLocalICE c) s = onICECandidate c s"
| "rtc_apply p (EvConnectionState st) s = onConnectionStateChange st s"
| "rtc_apply p (EvAttach d) s = attachDataChannel p d s"
| "rtc_apply p EvOpen s = dcOnOpen s"
| "rtc_apply p EvDcClose s = dcOnClose s"
| "rtc_apply p (EvMessage m) s = dcOnMessage m s"
| "rtc_apply p (EvOffer sdp) s = snd (HandleOffer p sdp s)"
| "rtc_apply p EvCreateOffer s = snd (CreateOffer p s)"
| "rtc_apply p (EvAnswer sdp) s = snd (HandleAnswer p sdp s)"
| "rtc_apply p (EvRemoteICE c) s = snd (AddRemoteICE c s)"
| "rtc_apply p (EvSend d) s = snd (Send p d s)"
| "rtc_apply p EvClose s = Session_Close s"

inductive rtc_step :: "Session \<Rightarrow> Session \<Rightarrow> bool" where
  rtc_event: "rtc_step s (rtc_apply p ev s)"

inductive_simps rtc_step_iff: "rtc_step s t"

definition fresh_session :: "Session \<Rightarrow> bool" where
  "fresh_session s \<longleftrightarrow> pc s \<and> dc s = None \<and> queuedICE s = [] \<and> \<not> remoteSet s \<and> \<not> dcOpenCh s \<and>
     \<not> closeFired s \<and> warmupRemaining s = 0 \<and> calls s = []"

section \<open>What the calls of a session show\<close>

definition iceAdded :: "Session \<Rightarrow> ICECandidateInit list" where
  "iceAdded s = List.map_filter (\<lambda>c. case c of AddICECandidate i \<Rightarrow> Some i | _ \<Rightarrow> None) (calls s)"

definition delivered :: "Session \<Rightarrow> bytes" where
  "delivered s = concat (List.map_filter (\<lambda>c. case c of OnData d \<Rightarrow> Some d | _ \<Rightarrow> None) (calls s))"

lemma do_call_simps [simp]:
  "calls (do_call c s) = calls s @ [c]"
  "SRole (do_call c s) = SRole s" "pc (do_call c s) = pc s" "dc (do_call c s) = dc s"
  "queuedICE (do_call c s) = queuedICE s" "remoteSet (do_call c s) = remoteSet s"
  "dcOpenCh (do_call c s) = dcOpenCh s" "closeFired (do_call c s) = closeFired s"
  "warmupRemaining (do_call c s) = warmupRemaining s"
  by (simp_all add: do_call_def)

lemma addQueued_simps [simp]:
  "calls (addQueued cs s) = calls s @ map AddICECandidate cs"
  "SRole (addQueued cs s) = SRole s" "pc (addQueued cs s) = pc s" "dc (addQueued cs s) = dc s"
  "queuedICE (addQueued cs s) = queuedICE s" "remoteSet (addQueued cs s) = remoteSet s"
  "dcOpenCh (addQueued cs s) = dcOpenCh s" "closeFired (addQueued cs s) = closeFired s"
  "warmupRemaining (addQueued cs s) = warmupRemaining s"
  by (induction cs arbitrary: s) simp_all

lemma remoteDescriptionSet_simps [simp]:
  "calls (remoteDescriptionSet s) = calls s @ map AddICECandidate (queuedICE s)"
  "SRole (remoteDescriptionSet s) = SRole s" "pc (remoteDescriptionSet s) = pc s"
  "dc (remoteDescriptionSet s) = dc s" "queuedICE (remoteDescriptionSet s) = []"
  "remoteSet (remoteDescriptionSet s) = True" "dcOpenCh (remoteDescriptionSet s) = dcOpenCh s"
  "closeFired (remoteDescriptionSet s) = closeFired s"
  "warmupRemaining (remoteDescriptionSet s) = warmupRemaining s"
  by (simp_all add: remoteDescriptionSet_def)

lemmas session_defs =
  onICECandidate_def onConnectionStateChange_def fireClose_def signalOpen_def attachDataChannel_def
  dcOnOpen_def dcOnClose_def dcOnMessage_def HandleOffer_def CreateOffer_def HandleAnswer_def
  AddRemoteICE_def Send_def Session_Close_def Let_def

lemma map_filter_ice [simp]:
  "List.map_filter (\<lambda>c. case c of AddICECandidate i \<Rightarrow> Some i | _ \<Rightarrow> None) (map AddICECandidate cs) = cs"
  by (induction cs) simp_all

lemma count_OnClose_ice [simp]:
  "count_list (map AddICECandidate cs) OnClose = 0" "count_list (map AddICECandidate cs) PcClose = 0"
  by (induction cs) simp_all

section \<open>Invariant\<close>

text \<open>The owner's close callback and the peer connection's \<^verbatim>\<open>Close\<close> happen at most once, exactly
  when the session's flags say so; no candidate reaches the peer connection before the remote
  description is set, and none stays queued after; the warm-up counter is at most four.\<close>

definition session_inv :: "Session \<Rightarrow> bool" where
  "session_inv s \<longleftrightarrow>
     count_list (calls s) OnClose = of_bool (closeFired s) \<and>
     count_list (calls s) PcClose = of_bool (\<not> pc s) \<and>
     (remoteSet s \<or> iceAdded s = []) \<and> (\<not> remoteSet s \<or> queuedICE s = []) \<and>
     warmupRemaining s \<le> 4"

lemma length_warmupMagic [simp]: "length warmupMagic = 4"
  by (simp add: warmupMagic_def)

lemma session_inv_fresh: "fresh_session s \<Longrightarrow> session_inv s"
  by (simp add: fresh_session_def session_inv_def iceAdded_def)

lemma session_inv_apply:
  assumes "session_inv s"
  shows "session_inv (rtc_apply p ev s)"
  using assms
  by (cases ev)
     (auto simp: session_inv_def iceAdded_def session_defs split: option.splits sum.splits)

interpretation rtc: invariant_system fresh_session rtc_step session_inv
  by unfold_locales (auto simp: session_inv_fresh rtc_step_iff session_inv_apply)

interpretation rtc_close: once_guarded fireClose closeFired
  by unfold_locales (simp_all add: fireClose_def)

section \<open>Concurrent candidates\<close>

text \<open>
  \<^verbatim>\<open>HandleOffer\<close> and \<^verbatim>\<open>HandleAnswer\<close> take the queue under the mutex and hand its candidates over
  after releasing it, while \<^verbatim>\<open>AddRemoteICE\<close> may run in between. The step relation interleaves
  them: \<^verbatim>\<open>flushing\<close> holds the candidates a handler has taken and not handed over yet, and
  \<^verbatim>\<open>submitted\<close> records the arguments of \<^verbatim>\<open>AddRemoteICE\<close>.
\<close>

record ice_sys =
  sess :: Session
  flushing :: "ICECandidateInit list"
  submitted :: "ICECandidateInit list"

inductive ice_step :: "ice_sys \<Rightarrow> ice_sys \<Rightarrow> bool" where
  ice_add:
    "AddRemoteICE c (sess y) = (None, s') \<Longrightarrow>
     ice_step y (y\<lparr>sess := s', submitted := submitted y @ [c]\<rparr>)"
| ice_take:
    "ice_step y (y\<lparr>sess := (sess y)\<lparr>remoteSet := True, queuedICE := []\<rparr>,
                   flushing := flushing y @ queuedICE (sess y)\<rparr>)"
| ice_flush:
    "flushing y = c # cs \<Longrightarrow>
     ice_step y (y\<lparr>sess := do_call (AddICECandidate c) (sess y), flushing := cs\<rparr>)"

definition ice_init :: "ice_sys \<Rightarrow> bool" where
  "ice_init y \<longleftrightarrow> fresh_session (sess y) \<and> flushing y = [] \<and> submitted y = []"

definition ice_inv :: "ice_sys \<Rightarrow> bool" where
  "ice_inv y \<longleftrightarrow>
     mset (iceAdded (sess y)) + mset (flushing y) + mset (queuedICE (sess y)) = mset (submitted y) \<and>
     (remoteSet (sess y) \<or> iceAdded (sess y) = [] \<and> flushing y = []) \<and>
     (\<not> remoteSet (sess y) \<or> queuedICE (sess y) = [])"

lemma iceAdded_simps [simp]:
  "iceAdded (do_call c s) = iceAdded s @ (case c of AddICECandidate i \<Rightarrow> [i] | _ \<Rightarrow> [])"
  "iceAdded (s\<lparr>remoteSet := a\<rparr>) = iceAdded s" "iceAdded (s\<lparr>queuedICE := q\<rparr>) = iceAdded s"
  by (auto simp: iceAdded_def split: rtc_call.splits)

lemma ice_inv_init: "ice_init y \<Longrightarrow> ice_inv y"
  by (simp add: ice_init_def ice_inv_def fresh_session_def iceAdded_def)

lemma ice_inv_step:
  assumes "ice_inv y" and "ice_step y z"
  shows "ice_inv z"
  using assms(2,1)
proof (cases rule: ice_step.cases)
  case (ice_add c s')
  with assms(1) show ?thesis
    by (auto simp: ice_inv_def AddRemoteICE_def split: if_splits)
next
  case ice_take
  with assms(1) show ?thesis by (auto simp: ice_inv_def ac_simps)
next
  case (ice_flush c cs)
  with assms(1) show ?thesis by (auto simp: ice_inv_def)
qed

interpretation ice: invariant_system ice_init ice_step ice_inv
  by unfold_locales (blast intro: ice_inv_init ice_inv_step)+

section \<open>The warm-up prefix\<close>

lemma delivered_simps [simp]:
  "delivered (do_call c s) = delivered s @ (case c of OnData d \<Rightarrow> d | _ \<Rightarrow> [])"
  "delivered (s\<lparr>warmupRemaining := n\<rparr>) = delivered s"
  by (auto simp: delivered_def split: rtc_call.splits)

lemma dcOnMessage_effect:
  "delivered (dcOnMessage m s) = delivered s @ drop (warmupRemaining s) m"
  "warmupRemaining (dcOnMessage m s) = warmupRemaining s - length m"
  by (auto simp: dcOnMessage_def Let_def min_def)

lemma attach_effect:
  "delivered (attachDataChannel p d s) = delivered s"
  "warmupRemaining (attachDataChannel p d s) = 4"
  by (simp_all add: attachDataChannel_def signalOpen_def delivered_def Let_def)

lemma warmup_fold:
  "delivered (fold dcOnMessage msgs s) = delivered s @ drop (warmupRemaining s) (concat msgs)"
  by (induction msgs arbitrary: s) (simp_all add: dcOnMessage_effect)

section \<open>Properties\<close>

text \<open>
  After the data channel is attached, the bytes the session passes on are exactly the
  received stream without its first four bytes (the warm-up magic), however the stream is cut
  into messages.
\<close>

theorem warmup_stream:
  "delivered (fold dcOnMessage msgs (attachDataChannel p d s)) = delivered s @ drop 4 (concat msgs)"
  by (simp add: warmup_fold attach_effect)


definition sample_candidate :: ICECandidateInit where
  "sample_candidate = \<lparr>Candidate = ''c'', SDPMid = None, SDPMLineIndex = None\<rparr>"

definition sample_session :: Session where
  "sample_session = \<lparr>SessionID = ''s'', PeerPmid = ''p'', SRole = RoleAcceptor, pc = True, dc = None,
     queuedICE = [], remoteSet = False, dcOpenCh = False, closeFired = False, warmupRemaining = 0, calls = []\<rparr>"

definition sample_ice_end :: ice_sys where
  "sample_ice_end = \<lparr>sess = sample_session\<lparr>remoteSet := True, calls := [AddICECandidate sample_candidate]\<rparr>,
     flushing = [], submitted = [sample_candidate]\<rparr>"

lemma sample_ice_run:
  "ice_step\<^sup>*\<^sup>* \<lparr>sess = sample_session, flushing = [], submitted = []\<rparr> sample_ice_end"
proof -
  let ?y1 = "\<lparr>sess = sample_session\<lparr>queuedICE := [sample_candidate]\<rparr>, flushing = [],
              submitted = [sample_candidate]\<rparr>"
  let ?y2 = "\<lparr>sess = sample_session\<lparr>remoteSet := True\<rparr>, flushing = [sample_candidate],
              submitted = [sample_candidate]\<rparr>"
  have 1: "ice_step \<lparr>sess = sample_session, flushing = [], submitted = []\<rparr> ?y1"
    using ice_add[of sample_candidate "\<lparr>sess = sample_session, flushing = [], submitted = []\<rparr>"]
    by (simp add: AddRemoteICE_def sample_session_def)
  have 2: "ice_step ?y1 ?y2"
    using ice_take[of ?y1] by (simp add: sample_session_def)
  have 3: "ice_step ?y2 sample_ice_end"
    using ice_flush[of ?y2 sample_candidate "[]"]
    by (simp add: do_call_def sample_session_def sample_ice_end_def)
  show ?thesis using 1 2 3 by (meson converse_rtranclp_into_rtranclp rtranclp.rtrancl_refl)
qed


text \<open>
  In every state a new session can reach through its callbacks and its owner's calls, the
  owner's close callback has run exactly as often as \<^verbatim>\<open>closeFired\<close> says (so at most once), the
  peer connection has been closed at most once, candidates are passed on only after the remote
  description is set and none stays queued after that, and the warm-up counter is at most four.
\<close>

theorem session_invariant:
  assumes "NewSession p role sid peer = Inr s" and "rtc_step\<^sup>*\<^sup>* s t"
  shows "count_list (calls t) OnClose = of_bool (closeFired t) \<and>
         count_list (calls t) PcClose = of_bool (\<not> pc t) \<and>
         (remoteSet t \<or> iceAdded t = []) \<and> (\<not> remoteSet t \<or> queuedICE t = []) \<and> warmupRemaining t \<le> 4"
proof -
  have "fresh_session s"
    using assms(1) by (auto simp: NewSession_def fresh_session_def split: option.splits)
  from rtc.inv_reachable[OF this assms(2)] show ?thesis by (simp add: session_inv_def)
qed

definition sample_pion :: pion where
  "sample_pion = \<lparr>newPeerConnection = None, setRemoteDescription = (\<lambda>_ _. None),
     addICECandidate = (\<lambda>_. None), createAnswer = Inr ''answer'', createOffer = Inr ''offer'',
     setLocalDescription = (\<lambda>_. None), createDataChannel = (\<lambda>_ _. Inr 0),
     readyState = (\<lambda>_. DcOpen), dcSend = (\<lambda>_ _. None)\<rparr>"

theorem session_invariant_witness:
  "\<exists>s t. NewSession sample_pion RoleAcceptor ''s'' ''p'' = Inr s \<and>
         t = rtc_apply sample_pion EvDcClose s \<and> count_list (calls t) OnClose = 1"
proof -
  have n: "NewSession sample_pion RoleAcceptor ''s'' ''p'' = Inr sample_session"
    by (simp add: NewSession_def sample_pion_def sample_session_def)
  have "rtc_step\<^sup>*\<^sup>* sample_session (rtc_apply sample_pion EvDcClose sample_session)"
    by (rule r_into_rtranclp) (rule rtc_event)
  from session_invariant[OF n this] n show ?thesis
    by (auto simp: dcOnClose_def fireClose_def sample_session_def)
qed

lemma drainLoop_above:
  "list_all (\<lambda>(st, a). st = DcOpen \<and> m < a) pre \<Longrightarrow> drainLoop m (pre @ polls) = drainLoop m polls"
  by (induction pre) auto

lemma drainLoop_success:
  "drainLoop m polls = Some None \<Longrightarrow>
     \<exists>pre amount post. polls = pre @ (DcOpen, amount) # post \<and> amount \<le> m \<and>
        list_all (\<lambda>(st, a). st = DcOpen \<and> m < a) pre"
proof (induction m polls rule: drainLoop.induct)
  case (2 m st amount polls)
  show ?case
  proof (cases "amount \<le> m")
    case True
    with 2(2) show ?thesis by (intro exI[of _ "[]"]) (simp split: if_splits)
  next
    case False
    with 2 obtain pre a post where "polls = pre @ (DcOpen, a) # post" "a \<le> m"
      "list_all (\<lambda>(st, a). st = DcOpen \<and> m < a) pre" "st = DcOpen" by (auto split: if_splits)
    then show ?thesis using False by (intro exI[of _ "(st, amount) # pre"]) auto
  qed
qed simp

lemma drainLoop_iff:
  "drainLoop m polls = Some None \<longleftrightarrow>
     (\<exists>pre amount post. polls = pre @ (DcOpen, amount) # post \<and> amount \<le> m \<and>
        list_all (\<lambda>(st, a). st = DcOpen \<and> m < a) pre)"
  (is "?L \<longleftrightarrow> ?R")
proof
  show "?L \<Longrightarrow> ?R" by (rule drainLoop_success)
  show "?R \<Longrightarrow> ?L" by (auto simp: drainLoop_above)
qed

text \<open>
  \<^verbatim>\<open>WaitForBufferDrain\<close> lets its caller go on exactly when a data channel is attached and some poll
  finds it open with at most \<^verbatim>\<open>maxBuffered\<close> bytes queued, every earlier poll having found it open and
  above the mark: it never returns success early, and it does not miss a drained buffer.
\<close>

theorem drain_waits:
  "WaitForBufferDrain m polls s = Some None \<longleftrightarrow>
     dc s \<noteq> None \<and>
     (\<exists>pre amount post. polls = pre @ (DcOpen, amount) # post \<and> amount \<le> m \<and>
        list_all (\<lambda>(st, a). st = DcOpen \<and> m < a) pre)"
  by (simp add: WaitForBufferDrain_def drainLoop_iff split: option.split)

end
