(* ===== verification/HostBridge.thy ===== *)
theory HostBridge
  imports RtcSession Messages
begin

text \<open>
  The host side of the bridge: \<^verbatim>\<open>src/internal/bridge/host.go\<close> and the TCP connection to the backend
  server, \<^verbatim>\<open>src/internal/bridge/tcp.go\<close>.

  Host sessions and TCP bridges are heap objects that are compared by pointer, so the state has
  a heap of each, a list indexed by the pointer; the WebRTC session of a host session sits at the
  same index. \<^verbatim>\<open>hm_mu\<close> says whether \<^verbatim>\<open>p.mu\<close> is held and \<^verbatim>\<open>tb_once\<close> is the state of the bridge's
  \<^verbatim>\<open>closeOnce\<close>; locking a held mutex, or entering a \<^verbatim>\<open>sync.Once\<close> from inside its own function, is
  the outcome \<^verbatim>\<open>Hang\<close>. Each definition below runs the code between two points where a goroutine
  waits for the network or for another goroutine. What pion, the network, \<^verbatim>\<open>crypto/rand\<close> and
  HMAC-SHA256 answer are arguments. Pion runs its callbacks on goroutines of its own, so they are
  events of their own.
\<close>

section \<open>Model\<close>

datatype once_state = OnceNew | OnceRunning | OnceDone

record hostSession =
  hs_fromPmid :: uuid
  hs_sid :: string
  hs_rtc :: bool
  hs_tcp :: "nat option"
  hs_closed :: bool
  handshakeBuf :: bytes
  handshakeDone :: bool

record TCPBridge =
  tb_owner :: nat
  tb_once :: once_state
  tb_alive :: bool
  tb_written :: bytes

record HostManager =
  hm_target :: string
  hm_bypassKey :: "bytes option"
  hm_mu :: bool
  hm_sessions :: "string \<rightharpoonup> nat"
  hm_objs :: "hostSession list"
  hm_rtcs :: "Session option list"
  hm_tcps :: "TCPBridge list"
  hm_sent :: "(uuid \<times> payload) list"

definition NewHostManager :: "string \<Rightarrow> bytes option \<Rightarrow> HostManager" where
  "NewHostManager target bypassKey =
     \<lparr>hm_target = target, hm_bypassKey = bypassKey, hm_mu = False, hm_sessions = Map.empty,
      hm_objs = [], hm_rtcs = [], hm_tcps = [], hm_sent = []\<rparr>"

definition upd_obj :: "nat \<Rightarrow> (hostSession \<Rightarrow> hostSession) \<Rightarrow> HostManager \<Rightarrow> HostManager" where
  "upd_obj i f h = (if i < length (hm_objs h) then h\<lparr>hm_objs := (hm_objs h)[i := f (hm_objs h ! i)]\<rparr> else h)"

definition upd_rtc :: "nat \<Rightarrow> (Session \<Rightarrow> Session) \<Rightarrow> HostManager \<Rightarrow> HostManager" where
  "upd_rtc i f h =
     (if i < length (hm_rtcs h) then h\<lparr>hm_rtcs := (hm_rtcs h)[i := map_option f (hm_rtcs h ! i)]\<rparr> else h)"

definition upd_tcp :: "nat \<Rightarrow> (TCPBridge \<Rightarrow> TCPBridge) \<Rightarrow> HostManager \<Rightarrow> HostManager" where
  "upd_tcp i f h = (if i < length (hm_tcps h) then h\<lparr>hm_tcps := (hm_tcps h)[i := f (hm_tcps h ! i)]\<rparr> else h)"

definition send :: "uuid \<Rightarrow> payload \<Rightarrow> HostManager \<Rightarrow> HostManager" where
  "send to m h = h\<lparr>hm_sent := hm_sent h @ [(to, m)]\<rparr>"

subsection \<open>Closing\<close>

definition removeSession :: "string \<Rightarrow> nat \<Rightarrow> HostManager \<Rightarrow> HostManager outcome" where
  "removeSession sid ps h =
     (if hm_mu h then Hang h
      else Done (if hm_sessions h sid = Some ps then h\<lparr>hm_sessions := (hm_sessions h)(sid := None)\<rparr> else h))"

definition unclosed :: "HostManager \<Rightarrow> nat" where
  "unclosed h = length (filter (\<lambda>o'. \<not> hs_closed o') (hm_objs h))"

definition mark_closed :: "nat \<Rightarrow> HostManager \<Rightarrow> HostManager" where
  "mark_closed ps h = upd_obj ps (\<lambda>o'. o'\<lparr>hs_closed := True, hs_tcp := None, hs_rtc := False\<rparr>) h"

lemma unclosed_mark_closed:
  assumes "ps < length (hm_objs h)" and "\<not> hs_closed (hm_objs h ! ps)"
  shows "unclosed (mark_closed ps h) < unclosed h"
proof -
  let ?xs = "hm_objs h" and ?x = "(hm_objs h ! ps)\<lparr>hs_closed := True, hs_tcp := None, hs_rtc := False\<rparr>"
  have s: "?xs = take ps ?xs @ ?xs ! ps # drop (Suc ps) ?xs"
    using assms(1) by (rule id_take_nth_drop)
  have u: "?xs[ps := ?x] = take ps ?xs @ ?x # drop (Suc ps) ?xs"
    using assms(1) by (rule upd_conv_take_nth_drop)
  have "length (filter (\<lambda>o'. \<not> hs_closed o') ?xs) =
        Suc (length (filter (\<lambda>o'. \<not> hs_closed o') (?xs[ps := ?x])))"
    unfolding u using assms(2) by (subst s) simp
  then show ?thesis using assms(1) by (simp add: unclosed_def mark_closed_def upd_obj_def)
qed

lemma unclosed_upd_tcp [simp]: "unclosed (upd_tcp t f h) = unclosed h"
  by (simp add: unclosed_def upd_tcp_def)

function (sequential) hostSession_close :: "nat \<Rightarrow> HostManager \<Rightarrow> HostManager outcome"
  and TCPBridge_Close :: "nat \<Rightarrow> HostManager \<Rightarrow> HostManager outcome" where
  "hostSession_close ps h =
     (if ps < length (hm_objs h) \<and> \<not> hs_closed (hm_objs h ! ps)
      then andThen
             (case hs_tcp (hm_objs h ! ps) of
                None \<Rightarrow> Done (mark_closed ps h)
              | Some t \<Rightarrow> TCPBridge_Close t (mark_closed ps h))
             (\<lambda>h'. Done (if hs_rtc (hm_objs h ! ps) then upd_rtc ps Session_Close h' else h'))
      else Done h)"
| "TCPBridge_Close t h =
     (if t < length (hm_tcps h)
      then (case tb_once (hm_tcps h ! t) of
              OnceDone \<Rightarrow> Done h
            | OnceRunning \<Rightarrow> Hang h
            | OnceNew \<Rightarrow>
                andThen
                  (andThen
                     (hostSession_close (tb_owner (hm_tcps h ! t)) (upd_tcp t (\<lambda>b. b\<lparr>tb_once := OnceRunning\<rparr>) h))
                     (\<lambda>h'. removeSession (hs_sid (hm_objs h ! tb_owner (hm_tcps h ! t)))
                             (tb_owner (hm_tcps h ! t)) h'))
                  (\<lambda>h'. Done (upd_tcp t (\<lambda>b. b\<lparr>tb_once := OnceDone\<rparr>) h')))
      else Done h)"
  by pat_completeness auto
termination
  by (relation "measure (case_sum (\<lambda>(ps, h). 2 * unclosed h) (\<lambda>(t, h). 2 * unclosed h + 1))")
     (auto dest: unclosed_mark_closed)

declare hostSession_close.simps [simp del] TCPBridge_Close.simps [simp del]

subsection \<open>Join requests and offers\<close>

text \<open>\<^verbatim>\<open>ProbeTCP\<close>: whether a connection to the target can be dialled.\<close>

definition OnFriendJoin :: "bool \<Rightarrow> uuid \<Rightarrow> payload \<Rightarrow> HostManager \<Rightarrow> HostManager" where
  "OnFriendJoin probe fromPmid payload h =
     (if GetType payload = ''JOIN_REQUEST''
      then (if probe then send fromPmid (JoinAccepted (GetSessionID payload)) h
            else send fromPmid (JoinRejected (GetSessionID payload)) h)
      else h)"

text \<open>
  \<^verbatim>\<open>startSession\<close> up to the goroutine it spawns. The new host session is allocated and, under
  \<^verbatim>\<open>p.mu\<close>, closes and replaces an earlier one of the same session id; \<^verbatim>\<open>sendErr\<close> is the error of sending
  the answer.
\<close>

definition newHostSession :: "uuid \<Rightarrow> string \<Rightarrow> hostSession" where
  "newHostSession fromPmid sid =
     \<lparr>hs_fromPmid = fromPmid, hs_sid = sid, hs_rtc = False, hs_tcp = None, hs_closed = False,
      handshakeBuf = [], handshakeDone = False\<rparr>"

definition registerSession :: "uuid \<Rightarrow> string \<Rightarrow> HostManager \<Rightarrow> HostManager outcome" where
  "registerSession fromPmid sid h =
     (if hm_mu h then Hang h
      else let ps = length (hm_objs h);
               h1 = h\<lparr>hm_objs := hm_objs h @ [newHostSession fromPmid sid], hm_rtcs := hm_rtcs h @ [None],
                      hm_mu := True\<rparr>
           in andThen (case hm_sessions h sid of
                         None \<Rightarrow> Done h1
                       | Some prev \<Rightarrow> hostSession_close prev h1)
                (\<lambda>h2. Done (h2\<lparr>hm_sessions := (hm_sessions h2)(sid \<mapsto> ps), hm_mu := False\<rparr>)))"

definition negotiate :: "pion \<Rightarrow> bool \<Rightarrow> uuid \<Rightarrow> string \<Rightarrow> string \<Rightarrow> nat \<Rightarrow> HostManager \<Rightarrow> HostManager outcome" where
  "negotiate p sendErr fromPmid sid offerSDP ps h =
     (case NewSession p RoleAcceptor sid fromPmid of
        Inl e \<Rightarrow> Done h
      | Inr rtc \<Rightarrow>
          let h1 = upd_obj ps (\<lambda>o'. o'\<lparr>hs_rtc := True\<rparr>) (h\<lparr>hm_rtcs := (hm_rtcs h)[ps := Some rtc]\<rparr>);
              (r, rtc') = HandleOffer p offerSDP rtc;
              h2 = h1\<lparr>hm_rtcs := (hm_rtcs h1)[ps := Some rtc']\<rparr>
          in (case r of
                Inl e \<Rightarrow> hostSession_close ps h2
              | Inr answerSDP \<Rightarrow>
                  let h3 = send fromPmid (Answer sid answerSDP) h2
                  in if sendErr then hostSession_close ps h3 else Done h3))"

definition startSession :: "pion \<Rightarrow> bool \<Rightarrow> uuid \<Rightarrow> string \<Rightarrow> string \<Rightarrow> HostManager \<Rightarrow> HostManager outcome" where
  "startSession p sendErr fromPmid sid offerSDP h =
     andThen (registerSession fromPmid sid h)
       (\<lambda>h1. negotiate p sendErr fromPmid sid offerSDP (length (hm_objs h)) h1)"

text \<open>\<^verbatim>\<open>handleOffer\<close> ignores an offer without SDP and gives up when the TURN credentials cannot be had.\<close>

definition handleOffer :: "bool \<Rightarrow> pion \<Rightarrow> bool \<Rightarrow> uuid \<Rightarrow> payload \<Rightarrow> HostManager \<Rightarrow> HostManager outcome" where
  "handleOffer turnErr p sendErr fromPmid payload h =
     (if GetSDP payload = '''' then Done h
      else if turnErr then Done h
      else startSession p sendErr fromPmid (GetSessionID payload) (GetSDP payload) h)"

definition candidateInit :: "IceCandidatePayload \<Rightarrow> ICECandidateInit" where
  "candidateInit ic = \<lparr>Candidate = ip_candidate ic, SDPMid = Some (ip_sdpMid ic),
                       SDPMLineIndex = Some (of_int (ip_sdpMLineIndex ic))\<rparr>"

text \<open>The callback for a candidate gathered on this side: a missing mid is sent as \<^verbatim>\<open>"0"\<close>, a
  missing line index as 0.\<close>

definition localCandidate :: "string \<Rightarrow> ICECandidateInit \<Rightarrow> payload" where
  "localCandidate sid c =
     IceCandidate sid (Candidate c)
       (case SDPMid c of None \<Rightarrow> ''0'' | Some mid \<Rightarrow> mid)
       (case SDPMLineIndex c of None \<Rightarrow> 0 | Some idx \<Rightarrow> uint idx)"

definition onLocalICE :: "ICECandidateInit \<Rightarrow> nat \<Rightarrow> HostManager \<Rightarrow> HostManager" where
  "onLocalICE c ps h =
     (if ps < length (hm_objs h)
      then send (hs_fromPmid (hm_objs h ! ps)) (localCandidate (hs_sid (hm_objs h ! ps)) c) h
      else h)"

text \<open>A candidate from the peer; \<^verbatim>\<open>AddICECandidate\<close> on a peer connection that \<^verbatim>\<open>Close\<close> has set to nil
  panics.\<close>

definition addIceTo :: "nat \<Rightarrow> ICECandidateInit \<Rightarrow> HostManager \<Rightarrow> HostManager outcome" where
  "addIceTo ps c h =
     (if ps < length (hm_rtcs h)
      then (case hm_rtcs h ! ps of
              None \<Rightarrow> Done h
            | Some rtc \<Rightarrow>
                (case AddRemoteICE c rtc of
                   (None, rtc') \<Rightarrow> Done (upd_rtc ps (\<lambda>_. rtc') h)
                 | (Some e, rtc') \<Rightarrow> Panic h))
      else Done h)"

definition handleICE :: "uuid \<Rightarrow> payload \<Rightarrow> HostManager \<Rightarrow> HostManager outcome" where
  "handleICE fromPmid payload h =
     (let sid = GetSessionID payload
      in if sid = '''' then Done h
         else (case ParseIceCandidate payload of
                 None \<Rightarrow> Done h
               | Some ic \<Rightarrow>
                   if hm_mu h then Hang h
                   else (case hm_sessions h sid of
                           None \<Rightarrow> Done h
                         | Some ps \<Rightarrow>
                             if ps < length (hm_objs h) \<and> hs_rtc (hm_objs h ! ps) \<and>
                                hs_fromPmid (hm_objs h ! ps) = fromPmid
                             then addIceTo ps (candidateInit ic) h
                             else Done h)))"

definition onWebRtc :: "bool \<Rightarrow> pion \<Rightarrow> bool \<Rightarrow> uuid \<Rightarrow> payload \<Rightarrow> HostManager \<Rightarrow> HostManager outcome" where
  "onWebRtc turnErr p sendErr fromPmid payload h =
     (if GetType payload = ''OFFER'' then handleOffer turnErr p sendErr fromPmid payload h
      else if GetType payload = ''ICE_CANDIDATE'' then handleICE fromPmid payload h
      else Done h)"

subsection \<open>The backend connection\<close>

text \<open>The goroutine that \<^verbatim>\<open>startSession\<close> spawns, once its wait for the data channel is over: on the
  timeout it gives the session up, otherwise it dials the target (\<^verbatim>\<open>DialTCP\<close>) and stores the
  bridge. The two halves of \<^verbatim>\<open>attachTCP\<close> are separate steps: dialling takes time.\<close>

definition rtcOnClose :: "nat \<Rightarrow> HostManager \<Rightarrow> HostManager outcome" where
  "rtcOnClose ps h =
     andThen (hostSession_close ps h)
       (\<lambda>h'. if ps < length (hm_objs h) then removeSession (hs_sid (hm_objs h ! ps)) ps h' else Done h')"

definition handshakeTimedOut :: "nat \<Rightarrow> HostManager \<Rightarrow> HostManager outcome" where
  "handshakeTimedOut ps h =
     andThen (hostSession_close ps h)
       (\<lambda>h'. if ps < length (hm_objs h) then removeSession (hs_sid (hm_objs h ! ps)) ps h' else Done h')"

definition DialTCP :: "nat \<Rightarrow> HostManager \<Rightarrow> HostManager" where
  "DialTCP ps h =
     h\<lparr>hm_tcps := hm_tcps h @ [\<lparr>tb_owner = ps, tb_once = OnceNew, tb_alive = True, tb_written = []\<rparr>]\<rparr>"

definition attachTCP_dial :: "bool \<Rightarrow> nat \<Rightarrow> HostManager \<Rightarrow> HostManager outcome" where
  "attachTCP_dial dialErr ps h = (if dialErr then hostSession_close ps h else Done (DialTCP ps h))"

definition attachTCP_store :: "nat \<Rightarrow> nat \<Rightarrow> HostManager \<Rightarrow> HostManager" where
  "attachTCP_store ps t h = upd_obj ps (\<lambda>o'. o'\<lparr>hs_tcp := Some t\<rparr>) h"

definition attachTCP :: "bool \<Rightarrow> nat \<Rightarrow> HostManager \<Rightarrow> HostManager outcome" where
  "attachTCP dialErr ps h =
     (if dialErr then attachTCP_dial dialErr ps h
      else andThen (attachTCP_dial dialErr ps h) (\<lambda>h'. Done (attachTCP_store ps (length (hm_tcps h)) h')))"

text \<open>\<^verbatim>\<open>readLoop\<close>: a chunk read from the backend goes to the data channel after the send queue has
  drained below 1 MiB; the end of the stream closes the bridge.\<close>

definition maxBuffered :: nat where "maxBuffered = 1 * 1024 * 1024"

definition onDownstream :: "pion \<Rightarrow> (dc_state \<times> nat) list \<Rightarrow> bytes \<Rightarrow> nat \<Rightarrow> HostManager \<Rightarrow> HostManager" where
  "onDownstream p polls data ps h =
     (if ps < length (hm_objs h) \<and> ps < length (hm_rtcs h) \<and> hs_rtc (hm_objs h ! ps)
      then (case hm_rtcs h ! ps of
              None \<Rightarrow> h
            | Some rtc \<Rightarrow>
                (case WaitForBufferDrain maxBuffered polls rtc of
                   Some None \<Rightarrow> upd_rtc ps (\<lambda>s. snd (Send p data s)) h
                 | _ \<Rightarrow> h))
      else h)"

definition readLoopEnd :: "nat \<Rightarrow> HostManager \<Rightarrow> HostManager outcome" where
  "readLoopEnd t h = TCPBridge_Close t h"

definition Feed :: "nat \<Rightarrow> bytes \<Rightarrow> HostManager \<Rightarrow> bool \<times> HostManager" where
  "Feed t data h =
     (if t < length (hm_tcps h) \<and> tb_once (hm_tcps h ! t) = OnceNew \<and> tb_alive (hm_tcps h ! t)
      then (True, upd_tcp t (\<lambda>b. b\<lparr>tb_written := tb_written b @ data\<rparr>) h)
      else (False, h))"

subsection \<open>Data from the peer\<close>

definition markHandshakeDone :: "nat \<Rightarrow> HostManager \<Rightarrow> HostManager" where
  "markHandshakeDone ps h = upd_obj ps (\<lambda>o'. o'\<lparr>handshakeDone := True, handshakeBuf := []\<rparr>) h"

definition feedOrClose :: "nat \<Rightarrow> nat \<Rightarrow> bytes \<Rightarrow> HostManager \<Rightarrow> HostManager outcome" where
  "feedOrClose ps t data h = (case Feed t data h of (ok, h') \<Rightarrow> if ok then Done h' else hostSession_close ps h')"

text \<open>The two ways out of \<^verbatim>\<open>feedHandshake\<close>: the buffer goes through as it is, or the rewritten
  handshake goes first and the bytes after the frame follow.\<close>

definition passThrough :: "nat \<Rightarrow> nat \<Rightarrow> bytes \<Rightarrow> HostManager \<Rightarrow> HostManager outcome" where
  "passThrough ps t buf h = feedOrClose ps t buf (markHandshakeDone ps h)"

definition feedModified :: "nat \<Rightarrow> nat \<Rightarrow> bytes \<Rightarrow> bytes \<Rightarrow> HostManager \<Rightarrow> HostManager outcome" where
  "feedModified ps t modified rest h =
     (case Feed t modified (markHandshakeDone ps h) of
        (ok, h2) \<Rightarrow>
          if \<not> ok then hostSession_close ps h2
          else if rest \<noteq> [] then feedOrClose ps t rest h2
          else Done h2)"

definition feedHandshake ::
    "(nat \<Rightarrow> bytes option) \<Rightarrow> (bytes \<Rightarrow> bytes \<Rightarrow> bytes) \<Rightarrow> bytes \<Rightarrow> nat \<Rightarrow> nat \<Rightarrow> bytes \<Rightarrow> HostManager \<Rightarrow>
     HostManager outcome" where
  "feedHandshake rand_read mac key ps t data h =
     (let h1 = upd_obj ps (\<lambda>o'. o'\<lparr>handshakeBuf := handshakeBuf o' @ data\<rparr>) h;
          buf = handshakeBuf (hm_objs h ! ps) @ data
      in (case readFramedPacket buf of
            Inl e \<Rightarrow> passThrough ps t buf h1
          | Inr None \<Rightarrow> Done h1
          | Inr (Some (payload, consumed)) \<Rightarrow>
              (case decodeHandshake payload of
                 Inl e \<Rightarrow> passThrough ps t buf h1
               | Inr hs \<Rightarrow>
                   (case InjectBypassMarker rand_read mac (ServerAddress hs) key of
                      Inl e \<Rightarrow> passThrough ps t buf h1
                    | Inr newAddr \<Rightarrow>
                        feedModified ps t (encodeHandshake (hs\<lparr>ServerAddress := newAddr\<rparr>))
                          (drop consumed buf) h1))))"

definition onPeerData ::
    "(nat \<Rightarrow> bytes option) \<Rightarrow> (bytes \<Rightarrow> bytes \<Rightarrow> bytes) \<Rightarrow> nat \<Rightarrow> bytes \<Rightarrow> HostManager \<Rightarrow> HostManager outcome" where
  "onPeerData rand_read mac ps data h =
     (if ps < length (hm_objs h)
      then (case hs_tcp (hm_objs h ! ps) of
              None \<Rightarrow> Done h
            | Some t \<Rightarrow>
                (case hm_bypassKey h of
                   None \<Rightarrow> feedOrClose ps t data h
                 | Some key \<Rightarrow>
                     if handshakeDone (hm_objs h ! ps) then feedOrClose ps t data h
                     else feedHandshake rand_read mac key ps t data h))
      else Done h)"

subsection \<open>Closing the manager\<close>

definition liveSessions :: "HostManager \<Rightarrow> nat list" where
  "liveSessions h = filter (\<lambda>i. hm_sessions h (hs_sid (hm_objs h ! i)) = Some i) [0..<length (hm_objs h)]"

definition HostManager_Close :: "HostManager \<Rightarrow> HostManager outcome" where
  "HostManager_Close h =
     (if hm_mu h then Hang h
      else fold (\<lambda>ps r. andThen r (hostSession_close ps)) (liveSessions h)
             (Done (h\<lparr>hm_sessions := Map.empty\<rparr>)))"

subsection \<open>The manager as a machine\<close>

text \<open>The events that drive the manager: signaling messages, pion's callbacks, the goroutines of
  \<^verbatim>\<open>startSession\<close> and \<^verbatim>\<open>DialTCP\<close>, and the owner's \<^verbatim>\<open>Close\<close>. A goroutine that hangs leaves its state
  behind; the other goroutines go on from there.\<close>

datatype host_event =
    HJoin bool uuid payload
  | HWebRtc bool pion bool uuid payload
  | HRtc nat pion rtc_event
  | HData "nat \<Rightarrow> bytes option" "bytes \<Rightarrow> bytes \<Rightarrow> bytes" nat bytes
  | HLocalICE ICECandidateInit nat
  | HRtcClose nat
  | HTimeout nat
  | HDial bool nat
  | HStore nat nat
  | HDownstream pion "(dc_state \<times> nat) list" bytes nat
  | HReadEnd nat
  | HBreak nat
  | HClose

fun host_apply :: "host_event \<Rightarrow> HostManager \<Rightarrow> HostManager outcome" where
  "host_apply (HJoin probe from m) h = Done (OnFriendJoin probe from m h)"
| "host_apply (HWebRtc turnErr p sendErr from m) h = onWebRtc turnErr p sendErr from m h"
| "host_apply (HRtc ps p ev) h = Done (upd_rtc ps (rtc_apply p ev) h)"
| "host_apply (HData rand_read mac ps data) h = onPeerData rand_read mac ps data h"
| "host_apply (HLocalICE c ps) h = Done (onLocalICE c ps h)"
| "host_apply (HRtcClose ps) h = rtcOnClose ps h"
| "host_apply (HTimeout ps) h = handshakeTimedOut ps h"
| "host_apply (HDial err ps) h = attachTCP_dial err ps h"
| "host_apply (HStore ps t) h = Done (attachTCP_store ps t h)"
| "host_apply (HDownstream p polls data ps) h = Done (onDownstream p polls data ps h)"
| "host_apply (HReadEnd t) h = readLoopEnd t h"
| "host_apply (HBreak t) h = Done (upd_tcp t (\<lambda>b. b\<lparr>tb_alive := False\<rparr>) h)"
| "host_apply HClose h = HostManager_Close h"

text \<open>A session is dialled for once it exists, and the bridge stored in it is one that was dialled
  for it.\<close>

fun host_enabled :: "host_event \<Rightarrow> HostManager \<Rightarrow> bool" where
  "host_enabled (HDial err ps) h \<longleftrightarrow> ps < length (hm_objs h)"
| "host_enabled (HStore ps t) h \<longleftrightarrow> t < length (hm_tcps h) \<and> tb_owner (hm_tcps h ! t) = ps"
| "host_enabled _ h \<longleftrightarrow> True"

inductive host_step :: "HostManager \<Rightarrow> HostManager \<Rightarrow> bool" where
  host_event: "host_enabled ev h \<Longrightarrow> host_step h (state_of (host_apply ev h))"

inductive_cases host_stepE: "host_step h h'"

definition host_init :: "HostManager \<Rightarrow> bool" where
  "host_init h \<longleftrightarrow> (\<exists>target key. h = NewHostManager target key)"

section \<open>The heaps\<close>

lemma upd_obj_frame [simp, frame_simps]:
  "hm_tcps (upd_obj i f h) = hm_tcps h" "hm_rtcs (upd_obj i f h) = hm_rtcs h"
  "hm_sessions (upd_obj i f h) = hm_sessions h" "hm_mu (upd_obj i f h) = hm_mu h"
  "hm_bypassKey (upd_obj i f h) = hm_bypassKey h" "length (hm_objs (upd_obj i f h)) = length (hm_objs h)"
  by (simp_all add: upd_obj_def)

lemma upd_tcp_frame [simp, frame_simps]:
  "hm_objs (upd_tcp i g h) = hm_objs h" "hm_rtcs (upd_tcp i g h) = hm_rtcs h"
  "hm_sessions (upd_tcp i g h) = hm_sessions h" "hm_mu (upd_tcp i g h) = hm_mu h"
  "hm_bypassKey (upd_tcp i g h) = hm_bypassKey h" "length (hm_tcps (upd_tcp i g h)) = length (hm_tcps h)"
  by (simp_all add: upd_tcp_def)

lemma upd_rtc_frame [simp, frame_simps]:
  "hm_objs (upd_rtc i k h) = hm_objs h" "hm_tcps (upd_rtc i k h) = hm_tcps h"
  "hm_sessions (upd_rtc i k h) = hm_sessions h" "hm_mu (upd_rtc i k h) = hm_mu h"
  "hm_bypassKey (upd_rtc i k h) = hm_bypassKey h" "length (hm_rtcs (upd_rtc i k h)) = length (hm_rtcs h)"
  by (simp_all add: upd_rtc_def)

lemma nth_upd_obj [simp]:
  "j < length (hm_objs h) \<Longrightarrow> hm_objs (upd_obj i f h) ! j = (if i = j then f (hm_objs h ! j) else hm_objs h ! j)"
  by (auto simp: upd_obj_def nth_list_update)

lemma nth_upd_tcp [simp]:
  "j < length (hm_tcps h) \<Longrightarrow> hm_tcps (upd_tcp i g h) ! j = (if i = j then g (hm_tcps h ! j) else hm_tcps h ! j)"
  by (auto simp: upd_tcp_def nth_list_update)

lemma mark_closed_frame [simp]:
  "hm_tcps (mark_closed i h) = hm_tcps h" "hm_rtcs (mark_closed i h) = hm_rtcs h"
  "hm_sessions (mark_closed i h) = hm_sessions h" "hm_mu (mark_closed i h) = hm_mu h"
  "length (hm_objs (mark_closed i h)) = length (hm_objs h)"
  by (simp_all add: mark_closed_def)

lemma nth_mark_closed [simp]:
  "j < length (hm_objs h) \<Longrightarrow>
   hm_objs (mark_closed i h) ! j =
     (if i = j then (hm_objs h ! j)\<lparr>hs_closed := True, hs_tcp := None, hs_rtc := False\<rparr> else hm_objs h ! j)"
  by (simp add: mark_closed_def)

text \<open>Closing never creates or redirects anything: sizes, owners, ids and senders stay, closed
  sessions stay closed, and the session table only loses entries.\<close>

definition obj_evolves :: "hostSession \<Rightarrow> hostSession \<Rightarrow> bool" where
  "obj_evolves x y \<longleftrightarrow> hs_sid y = hs_sid x \<and> hs_fromPmid y = hs_fromPmid x \<and>
     (hs_closed x \<longrightarrow> hs_closed y) \<and> (hs_tcp y = hs_tcp x \<or> hs_tcp y = None)"

definition evolves :: "HostManager \<Rightarrow> HostManager \<Rightarrow> bool" where
  "evolves h h' \<longleftrightarrow>
     list_all2 obj_evolves (hm_objs h) (hm_objs h') \<and>
     list_all2 (\<lambda>b b'. tb_owner b' = tb_owner b) (hm_tcps h) (hm_tcps h') \<and>
     length (hm_rtcs h') = length (hm_rtcs h) \<and> hm_mu h' = hm_mu h \<and> hm_sessions h' \<subseteq>\<^sub>m hm_sessions h"

lemma obj_evolves_refl [simp]: "obj_evolves x x"
  by (simp add: obj_evolves_def)

lemma obj_evolves_trans: "obj_evolves x y \<Longrightarrow> obj_evolves y z \<Longrightarrow> obj_evolves x z"
  by (auto simp: obj_evolves_def)

lemma evolves_refl [simp]: "evolves h h"
  by (simp add: evolves_def list_all2_same)

lemma same_owner_trans:
  assumes "list_all2 (\<lambda>b b'. tb_owner b' = tb_owner b) xs ys" and "list_all2 (\<lambda>b b'. tb_owner b' = tb_owner b) ys zs"
  shows "list_all2 (\<lambda>b b'. tb_owner b' = tb_owner b) xs zs"
  using assms by (simp add: list_all2_conv_all_nth)

lemma evolves_trans: "evolves h1 h2 \<Longrightarrow> evolves h2 h3 \<Longrightarrow> evolves h1 h3"
  unfolding evolves_def
  by (auto intro: map_le_trans list_all2_trans[OF obj_evolves_trans] elim!: same_owner_trans)

lemma evolves_upd [simp]:
  "(\<And>b. tb_owner (g b) = tb_owner b) \<Longrightarrow> evolves h (upd_tcp t g h)"
  "evolves h (upd_rtc i k h)" "evolves h (mark_closed i h)"
  by (auto simp: evolves_def list_all2_conv_all_nth obj_evolves_def)

lemma evolves_removeSession: "evolves h (state_of (removeSession sid ps h))"
  by (auto simp: removeSession_def evolves_def map_le_def list_all2_same)

lemma evolves_andThen:
  "evolves h (state_of r) \<Longrightarrow> (\<And>s. evolves s (state_of (f s))) \<Longrightarrow> evolves h (state_of (andThen r f))"
  by (cases r) (auto intro: evolves_trans)

lemma evolves_close:
  "evolves h (state_of (hostSession_close ps h))" "evolves h (state_of (TCPBridge_Close t h))"
proof (induction ps h and t h rule: hostSession_close_TCPBridge_Close.induct)
  case (1 ps h)
  show ?case
  proof (cases "ps < length (hm_objs h) \<and> \<not> hs_closed (hm_objs h ! ps)")
    case True
    have "evolves h (state_of (case hs_tcp (hm_objs h ! ps) of None \<Rightarrow> Done (mark_closed ps h)
             | Some t \<Rightarrow> TCPBridge_Close t (mark_closed ps h)))"
      using "1.IH" True by (auto split: option.split intro: evolves_trans[of _ "mark_closed ps h"])
    then show ?thesis
      using True by (subst hostSession_close.simps) (auto intro!: evolves_andThen)
  next
    case False
    then show ?thesis by (auto simp: hostSession_close.simps)
  qed
next
  case (2 t h)
  show ?case
  proof (cases "t < length (hm_tcps h) \<and> tb_once (hm_tcps h ! t) = OnceNew")
    case True
    let ?h1 = "upd_tcp t (\<lambda>b. b\<lparr>tb_once := OnceRunning\<rparr>) h"
    have "evolves h (state_of (hostSession_close (tb_owner (hm_tcps h ! t)) ?h1))"
      using "2.IH" True by (auto intro: evolves_trans[of _ ?h1])
    then show ?thesis
      using True by (subst TCPBridge_Close.simps)
        (auto intro!: evolves_andThen evolves_removeSession)
  next
    case False
    then show ?thesis by (auto simp: TCPBridge_Close.simps split: once_state.splits)
  qed
qed

section \<open>Well-formedness\<close>

definition host_wf :: "HostManager \<Rightarrow> bool" where
  "host_wf h \<longleftrightarrow>
     length (hm_rtcs h) = length (hm_objs h) \<and>
     (\<forall>i < length (hm_objs h). \<forall>t. hs_tcp (hm_objs h ! i) = Some t \<longrightarrow>
        t < length (hm_tcps h) \<and> tb_owner (hm_tcps h ! t) = i) \<and>
     (\<forall>t < length (hm_tcps h). tb_owner (hm_tcps h ! t) < length (hm_objs h)) \<and>
     (\<forall>sid i. hm_sessions h sid = Some i \<longrightarrow> i < length (hm_objs h) \<and> hs_sid (hm_objs h ! i) = sid)"

lemma host_wfD:
  assumes "host_wf h"
  shows "length (hm_rtcs h) = length (hm_objs h)"
    and "i < length (hm_objs h) \<Longrightarrow> hs_tcp (hm_objs h ! i) = Some t \<Longrightarrow>
         t < length (hm_tcps h) \<and> tb_owner (hm_tcps h ! t) = i"
    and "t < length (hm_tcps h) \<Longrightarrow> tb_owner (hm_tcps h ! t) < length (hm_objs h)"
    and "hm_sessions h sid = Some i \<Longrightarrow> i < length (hm_objs h) \<and> hs_sid (hm_objs h ! i) = sid"
  using assms by (auto simp: host_wf_def)

lemma host_wf_evolves:
  assumes "host_wf h" and "evolves h h'"
  shows "host_wf h'"
proof -
  have len: "length (hm_objs h') = length (hm_objs h)" "length (hm_tcps h') = length (hm_tcps h)"
    using assms(2) by (auto simp: evolves_def list_all2_conv_all_nth)
  have obj: "obj_evolves (hm_objs h ! i) (hm_objs h' ! i)" if "i < length (hm_objs h)" for i
    using assms(2) that by (auto simp: evolves_def list_all2_conv_all_nth)
  have own: "tb_owner (hm_tcps h' ! t) = tb_owner (hm_tcps h ! t)" if "t < length (hm_tcps h)" for t
    using assms(2) that by (auto simp: evolves_def list_all2_conv_all_nth)
  have map: "hm_sessions h sid = Some i" if "hm_sessions h' sid = Some i" for sid i
  proof -
    have "hm_sessions h' \<subseteq>\<^sub>m hm_sessions h" using assms(2) by (simp add: evolves_def)
    then show ?thesis using that by (auto simp: map_le_def dom_def)
  qed
  show ?thesis
    unfolding host_wf_def
  proof (intro conjI allI impI)
    show "length (hm_rtcs h') = length (hm_objs h')"
      using assms len by (simp add: evolves_def host_wf_def)
  next
    fix i t assume i: "i < length (hm_objs h')" and t: "hs_tcp (hm_objs h' ! i) = Some t"
    with obj[of i] len have "hs_tcp (hm_objs h ! i) = Some t" by (auto simp: obj_evolves_def)
    with i len host_wfD(2)[OF assms(1)] own show "t < length (hm_tcps h')" "tb_owner (hm_tcps h' ! t) = i"
      by auto
  next
    fix t assume "t < length (hm_tcps h')"
    with len own host_wfD(3)[OF assms(1)] show "tb_owner (hm_tcps h' ! t) < length (hm_objs h')" by simp
  next
    fix sid i assume "hm_sessions h' sid = Some i"
    with map host_wfD(4)[OF assms(1)] have "i < length (hm_objs h)" "hs_sid (hm_objs h ! i) = sid" by auto
    with len obj[of i] show "i < length (hm_objs h')" "hs_sid (hm_objs h' ! i) = sid"
      by (auto simp: obj_evolves_def)
  qed
qed

lemma host_wf_close [intro]: "host_wf h \<Longrightarrow> host_wf (state_of (hostSession_close ps h))"
  using host_wf_evolves evolves_close(1) by blast

lemma host_wf_tcp_close [intro]: "host_wf h \<Longrightarrow> host_wf (state_of (TCPBridge_Close t h))"
  using host_wf_evolves evolves_close(2) by blast

lemma host_wf_removeSession [intro]: "host_wf h \<Longrightarrow> host_wf (state_of (removeSession sid ps h))"
  using host_wf_evolves evolves_removeSession by blast

lemma host_wf_andThen:
  "host_wf (state_of r) \<Longrightarrow> (\<And>s. host_wf s \<Longrightarrow> host_wf (state_of (f s))) \<Longrightarrow> host_wf (state_of (andThen r f))"
  by (cases r) auto

lemma host_wf_upd [intro]:
  "host_wf h \<Longrightarrow> (\<And>b. tb_owner (g b) = tb_owner b) \<Longrightarrow> host_wf (upd_tcp t g h)"
  "host_wf h \<Longrightarrow> host_wf (upd_rtc i k h)"
  "host_wf h \<Longrightarrow> (\<And>x. hs_sid (f x) = hs_sid x \<and> hs_tcp (f x) = hs_tcp x) \<Longrightarrow> host_wf (upd_obj i f h)"
  by (auto simp: host_wf_def)

lemma host_wf_simple [simp]:
  "host_wf (h\<lparr>hm_mu := b\<rparr>) = host_wf h" "host_wf (h\<lparr>hm_sent := m\<rparr>) = host_wf h"
  "length rs = length (hm_rtcs h) \<Longrightarrow> host_wf (h\<lparr>hm_rtcs := rs\<rparr>) = host_wf h"
  by (simp_all add: host_wf_def)

lemma host_wf_no_sessions: "host_wf h \<Longrightarrow> host_wf (h\<lparr>hm_sessions := Map.empty\<rparr>)"
  by (simp add: host_wf_def)

lemma host_wf_alloc:
  "host_wf h \<Longrightarrow>
   host_wf (h\<lparr>hm_objs := hm_objs h @ [newHostSession from sid], hm_rtcs := hm_rtcs h @ [None], hm_mu := b\<rparr>)"
  by (auto simp: host_wf_def nth_append newHostSession_def less_Suc_eq)

lemma host_wf_send [simp]: "host_wf (send to m h) = host_wf h"
  by (simp add: send_def)

lemma length_objs_close: "length (hm_objs (state_of (hostSession_close ps h))) = length (hm_objs h)"
  using evolves_close(1)[of h ps] by (auto simp: evolves_def dest: list_all2_lengthD)

lemma nth_evolves: "evolves h h' \<Longrightarrow> i < length (hm_objs h) \<Longrightarrow> obj_evolves (hm_objs h ! i) (hm_objs h' ! i)"
  by (auto simp: evolves_def list_all2_conv_all_nth)

lemma host_wf_register: "host_wf h \<Longrightarrow> host_wf (state_of (registerSession from sid h))"
proof (cases "hm_mu h")
  case False
  assume wf: "host_wf h"
  let ?h1 = "h\<lparr>hm_objs := hm_objs h @ [newHostSession from sid], hm_rtcs := hm_rtcs h @ [None], hm_mu := True\<rparr>"
  let ?r = "case hm_sessions h sid of None \<Rightarrow> Done ?h1 | Some prev \<Rightarrow> hostSession_close prev ?h1"
  have wf1: "host_wf ?h1" using wf by (rule host_wf_alloc)
  have ev: "evolves ?h1 (state_of ?r)" by (auto split: option.split simp: evolves_close)
  have wfr: "host_wf (state_of ?r)" using host_wf_evolves[OF wf1 ev] .
  have "length (hm_objs h) < length (hm_objs (state_of ?r))"
    using ev by (auto simp: evolves_def dest: list_all2_lengthD)
  moreover have "hs_sid (hm_objs (state_of ?r) ! length (hm_objs h)) = sid"
    using nth_evolves[OF ev, of "length (hm_objs h)"] by (simp add: obj_evolves_def newHostSession_def)
  ultimately have "host_wf ((state_of ?r)\<lparr>hm_sessions := (hm_sessions (state_of ?r))(sid \<mapsto> length (hm_objs h)),
      hm_mu := False\<rparr>)"
    using wfr by (auto simp: host_wf_def)
  with wfr False show ?thesis by (cases ?r) (auto simp: registerSession_def Let_def)
qed (simp add: registerSession_def)

lemma host_wf_set_rtc: "host_wf h \<Longrightarrow> host_wf (upd_obj ps (\<lambda>o'. o'\<lparr>hs_rtc := b\<rparr>) h)"
  by (rule host_wf_upd(3)) simp_all

lemma host_wf_negotiate: "host_wf h \<Longrightarrow> host_wf (state_of (negotiate p e from sid sdp ps h))"
  by (auto simp: negotiate_def Let_def intro!: host_wf_close host_wf_set_rtc split: sum.splits prod.splits)

lemma host_wf_start: "host_wf h \<Longrightarrow> host_wf (state_of (startSession p e from sid sdp h))"
  unfolding startSession_def by (rule host_wf_andThen) (auto intro: host_wf_register host_wf_negotiate)

lemma host_wf_addIceTo: "host_wf h \<Longrightarrow> host_wf (state_of (addIceTo ps c h))"
  by (auto simp: addIceTo_def split: option.split prod.split)

lemma host_wf_onLocalICE: "host_wf h \<Longrightarrow> host_wf (onLocalICE c ps h)"
  by (auto simp: onLocalICE_def)

lemma host_wf_onWebRtc: "host_wf h \<Longrightarrow> host_wf (state_of (onWebRtc te p se from m h))"
  by (auto simp: onWebRtc_def handleOffer_def handleICE_def Let_def
      intro: host_wf_start host_wf_addIceTo split: option.split)

lemma host_wf_Feed: "host_wf h \<Longrightarrow> host_wf (snd (Feed t data h))"
  by (auto simp: Feed_def)

lemma host_wf_feedOrClose: "host_wf h \<Longrightarrow> host_wf (state_of (feedOrClose ps t data h))"
  using host_wf_Feed[of h t data] by (auto simp: feedOrClose_def split: prod.splits)

lemma host_wf_markDone: "host_wf h \<Longrightarrow> host_wf (markHandshakeDone ps h)"
  unfolding markHandshakeDone_def by (rule host_wf_upd(3)) simp_all

lemma host_wf_passThrough: "host_wf h \<Longrightarrow> host_wf (state_of (passThrough ps t buf h))"
  unfolding passThrough_def by (intro host_wf_feedOrClose host_wf_markDone)

lemma host_wf_feedModified: "host_wf h \<Longrightarrow> host_wf (state_of (feedModified ps t m rest h))"
  using host_wf_Feed[OF host_wf_markDone, of h t m ps]
  by (auto simp: feedModified_def intro: host_wf_feedOrClose split: prod.split)

lemma host_wf_feedHandshake:
  assumes "host_wf h"
  shows "host_wf (state_of (feedHandshake rr mac key ps t data h))"
proof -
  have "host_wf (upd_obj ps (\<lambda>o'. o'\<lparr>handshakeBuf := handshakeBuf o' @ data\<rparr>) h)"
    using assms by (rule host_wf_upd(3)) simp_all
  then show ?thesis
    by (auto simp: feedHandshake_def Let_def split: sum.split option.split
        intro: host_wf_passThrough host_wf_feedModified)
qed

lemma host_wf_onPeerData: "host_wf h \<Longrightarrow> host_wf (state_of (onPeerData rr mac ps data h))"
  by (auto simp: onPeerData_def intro: host_wf_feedOrClose host_wf_feedHandshake split: option.split)

lemma host_wf_rtcOnClose: "host_wf h \<Longrightarrow> host_wf (state_of (rtcOnClose ps h))"
  unfolding rtcOnClose_def by (rule host_wf_andThen) auto

lemma handshakeTimedOut_eq: "handshakeTimedOut ps h = rtcOnClose ps h"
  by (simp add: handshakeTimedOut_def rtcOnClose_def)

lemma host_wf_fold_close:
  "host_wf (state_of r) \<Longrightarrow> host_wf (state_of (fold (\<lambda>ps r. andThen r (hostSession_close ps)) xs r))"
  by (induction xs arbitrary: r) (simp_all add: host_wf_andThen host_wf_close)

lemma host_wf_Close: "host_wf h \<Longrightarrow> host_wf (state_of (HostManager_Close h))"
  by (auto simp: HostManager_Close_def intro!: host_wf_fold_close host_wf_no_sessions)

lemma host_wf_dial: "host_wf h \<Longrightarrow> ps < length (hm_objs h) \<Longrightarrow> host_wf (state_of (attachTCP_dial e ps h))"
  by (cases e; simp add: attachTCP_dial_def host_wf_close)
     (auto simp: DialTCP_def host_wf_def nth_append less_Suc_eq)

lemma host_wf_store:
  "host_wf h \<Longrightarrow> t < length (hm_tcps h) \<Longrightarrow> tb_owner (hm_tcps h ! t) = ps \<Longrightarrow> host_wf (attachTCP_store ps t h)"
  by (auto simp: attachTCP_store_def host_wf_def)

lemma host_wf_apply:
  assumes "host_wf h" and "host_enabled ev h"
  shows "host_wf (state_of (host_apply ev h))"
  using assms
  by (cases ev)
     (auto intro: host_wf_onWebRtc host_wf_onLocalICE host_wf_onPeerData host_wf_rtcOnClose host_wf_dial host_wf_store host_wf_Close
        simp: OnFriendJoin_def handshakeTimedOut_eq onDownstream_def readLoopEnd_def split: option.split)

lemma host_wf_init: "host_init h \<Longrightarrow> host_wf h"
  by (auto simp: host_init_def NewHostManager_def host_wf_def)

interpretation host: invariant_system host_init host_step host_wf
  by unfold_locales (auto simp: host_wf_init host_wf_apply elim!: host_stepE)

section \<open>Closing a session, case by case\<close>

lemma close_closed: "hs_closed (hm_objs h ! ps) \<Longrightarrow> hostSession_close ps h = Done h"
  by (simp add: hostSession_close.simps)

lemma close_without_tcp:
  assumes "ps < length (hm_objs h)" "\<not> hs_closed (hm_objs h ! ps)" "hs_tcp (hm_objs h ! ps) = None"
  shows "hostSession_close ps h =
    Done (if hs_rtc (hm_objs h ! ps) then upd_rtc ps Session_Close (mark_closed ps h) else mark_closed ps h)"
  using assms by (simp add: hostSession_close.simps)

lemma close_with_tcp:
  assumes wf: "host_wf h" and ps: "ps < length (hm_objs h)" "\<not> hs_closed (hm_objs h ! ps)"
    and t: "hs_tcp (hm_objs h ! ps) = Some t" "tb_once (hm_tcps h ! t) = OnceNew"
  shows "hostSession_close ps h =
    andThen (removeSession (hs_sid (hm_objs h ! ps)) ps
               (upd_tcp t (\<lambda>b. b\<lparr>tb_once := OnceRunning\<rparr>) (mark_closed ps h)))
      (\<lambda>h'. Done (let h2 = upd_tcp t (\<lambda>b. b\<lparr>tb_once := OnceDone\<rparr>) h'
                  in if hs_rtc (hm_objs h ! ps) then upd_rtc ps Session_Close h2 else h2))"
proof -
  have t': "t < length (hm_tcps h)" "tb_owner (hm_tcps h ! t) = ps"
    using host_wfD(2)[OF wf ps(1) t(1)] by auto
  have inner: "hostSession_close ps (upd_tcp t (\<lambda>b. b\<lparr>tb_once := OnceRunning\<rparr>) (mark_closed ps h)) =
      Done (upd_tcp t (\<lambda>b. b\<lparr>tb_once := OnceRunning\<rparr>) (mark_closed ps h))"
    using ps(1) by (intro close_closed) simp
  have "TCPBridge_Close t (mark_closed ps h) =
      andThen (removeSession (hs_sid (hm_objs h ! ps)) ps
                 (upd_tcp t (\<lambda>b. b\<lparr>tb_once := OnceRunning\<rparr>) (mark_closed ps h)))
        (\<lambda>h'. Done (upd_tcp t (\<lambda>b. b\<lparr>tb_once := OnceDone\<rparr>) h'))"
    using t' t(2) ps(1) inner by (simp add: TCPBridge_Close.simps)
  then show ?thesis
    using ps t(1) by (subst hostSession_close.simps)
      (simp add: Let_def split: outcome.split, cases "removeSession (hs_sid (hm_objs h ! ps)) ps
               (upd_tcp t (\<lambda>b. b\<lparr>tb_once := OnceRunning\<rparr>) (mark_closed ps h))"; simp)
qed

lemma close_with_done_tcp:
  assumes "ps < length (hm_objs h)" "\<not> hs_closed (hm_objs h ! ps)"
    and "hs_tcp (hm_objs h ! ps) = Some t" "tb_once (hm_tcps h ! t) = OnceDone"
  shows "hostSession_close ps h =
    Done (if hs_rtc (hm_objs h ! ps) then upd_rtc ps Session_Close (mark_closed ps h) else mark_closed ps h)"
proof -
  have "TCPBridge_Close t (mark_closed ps h) = Done (mark_closed ps h)"
    using assms(4) by (simp add: TCPBridge_Close.simps)
  then show ?thesis using assms(1-3) by (subst hostSession_close.simps) simp
qed

section \<open>The stream to the backend\<close>

text \<open>What the backend must receive for a stream of bytes from the peer when a bypass key is
  configured: nothing while the first frame is incomplete; the stream as it is when its first
  frame is not a handshake or the marker does not fit; otherwise the handshake with the marked
  address and then the rest of the stream.\<close>

definition bypass_output ::
    "(nat \<Rightarrow> bytes option) \<Rightarrow> (bytes \<Rightarrow> bytes \<Rightarrow> bytes) \<Rightarrow> bytes \<Rightarrow> bytes \<Rightarrow> bytes" where
  "bypass_output rand_read mac key stream =
     (case readFramedPacket stream of
        Inl e \<Rightarrow> stream
      | Inr None \<Rightarrow> []
      | Inr (Some (payload, consumed)) \<Rightarrow>
          (case decodeHandshake payload of
             Inl e \<Rightarrow> stream
           | Inr hs \<Rightarrow>
               (case InjectBypassMarker rand_read mac (ServerAddress hs) key of
                  Inl e \<Rightarrow> stream
                | Inr newAddr \<Rightarrow>
                    encodeHandshake (hs\<lparr>ServerAddress := newAddr\<rparr>) @ drop consumed stream)))"

lemma bypass_output_append:
  assumes "readFramedPacket buf \<noteq> Inr None"
  shows "bypass_output rr mac key (buf @ data) = bypass_output rr mac key buf @ data"
proof (cases "readFramedPacket buf")
  case (Inl e)
  then show ?thesis by (simp add: bypass_output_def readFramedPacket_append_error)
next
  case (Inr x)
  with assms obtain p c where x: "readFramedPacket buf = Inr (Some (p, c))" by auto
  then have "c \<le> length buf" unfolding readFramedPacket_Some by blast
  with x readFramedPacket_append[OF x, of data] show ?thesis
    by (simp add: bypass_output_def split: sum.split)
qed

text \<open>The session \<^verbatim>\<open>ps\<close> has an open connection \<^verbatim>\<open>t\<close> to the backend.\<close>

definition bridged :: "nat \<Rightarrow> nat \<Rightarrow> HostManager \<Rightarrow> bool" where
  "bridged ps t h \<longleftrightarrow> ps < length (hm_objs h) \<and> hs_tcp (hm_objs h ! ps) = Some t \<and>
     t < length (hm_tcps h) \<and> tb_once (hm_tcps h ! t) = OnceNew \<and> tb_alive (hm_tcps h ! t)"

definition feedAll ::
    "(nat \<Rightarrow> bytes option) \<Rightarrow> (bytes \<Rightarrow> bytes \<Rightarrow> bytes) \<Rightarrow> nat \<Rightarrow> bytes list \<Rightarrow> HostManager \<Rightarrow> HostManager outcome" where
  "feedAll rand_read mac ps chunks h =
     fold (\<lambda>data r. andThen r (onPeerData rand_read mac ps data)) chunks (Done h)"

lemma Feed_bridged:
  "bridged ps t h \<Longrightarrow> Feed t data h = (True, upd_tcp t (\<lambda>b. b\<lparr>tb_written := tb_written b @ data\<rparr>) h)"
  by (simp add: bridged_def Feed_def)

lemma bridged_upd:
  "bridged ps t (upd_tcp t (\<lambda>b. b\<lparr>tb_written := w b\<rparr>) h) = bridged ps t h"
  "(\<And>x. hs_tcp (f x) = hs_tcp x) \<Longrightarrow> bridged ps t (upd_obj ps f h) = bridged ps t h"
  "bridged ps t (markHandshakeDone ps h) = bridged ps t h"
  by (auto simp: bridged_def markHandshakeDone_def)

text \<open>After the bytes \<^verbatim>\<open>stream\<close> have come in, either the first frame is still incomplete and buffered,
  or the prescribed output has been written.\<close>

definition relayed ::
    "(nat \<Rightarrow> bytes option) \<Rightarrow> (bytes \<Rightarrow> bytes \<Rightarrow> bytes) \<Rightarrow> bytes \<Rightarrow> nat \<Rightarrow> nat \<Rightarrow> bytes \<Rightarrow> bytes \<Rightarrow> HostManager \<Rightarrow> bool" where
  "relayed rr mac key ps t w0 stream h \<longleftrightarrow>
     bridged ps t h \<and> hm_bypassKey h = Some key \<and>
     (if readFramedPacket stream = Inr None
      then \<not> handshakeDone (hm_objs h ! ps) \<and> handshakeBuf (hm_objs h ! ps) = stream \<and>
           tb_written (hm_tcps h ! t) = w0
      else handshakeDone (hm_objs h ! ps) \<and>
           tb_written (hm_tcps h ! t) = w0 @ bypass_output rr mac key stream)"

lemma feedHandshake_relay:
  assumes br: "bridged ps t h" and key: "hm_bypassKey h = Some key"
    and buf: "\<not> handshakeDone (hm_objs h ! ps)" "handshakeBuf (hm_objs h ! ps) = stream"
    and w: "tb_written (hm_tcps h ! t) = w0"
  shows "\<exists>h'. feedHandshake rr mac key ps t data h = Done h' \<and> relayed rr mac key ps t w0 (stream @ data) h'"
proof -
  let ?h1 = "upd_obj ps (\<lambda>o'. o'\<lparr>handshakeBuf := handshakeBuf o' @ data\<rparr>) h"
  have br1: "bridged ps t ?h1" "bridged ps t (markHandshakeDone ps ?h1)"
    using br by (simp_all add: bridged_upd)
  note F = Feed_bridged[OF br1(2)]
  have ps: "ps < length (hm_objs h)" "t < length (hm_tcps h)" using br by (auto simp: bridged_def)
  show ?thesis
    using br br1 key buf w ps
    by (auto simp: feedHandshake_def passThrough_def feedModified_def feedOrClose_def F Let_def relayed_def
          bypass_output_def bridged_upd Feed_bridged[where ps = ps] markHandshakeDone_def
          split: sum.split option.split)
qed

lemma onPeerData_relay:
  assumes "relayed rr mac key ps t w0 stream h"
  shows "\<exists>h'. onPeerData rr mac ps data h = Done h' \<and> relayed rr mac key ps t w0 (stream @ data) h'"
proof (cases "readFramedPacket stream = Inr None")
  case True
  with assms have "onPeerData rr mac ps data h = feedHandshake rr mac key ps t data h"
    by (simp add: relayed_def onPeerData_def bridged_def)
  then show ?thesis
    using True assms feedHandshake_relay[of ps t h key stream w0 rr mac data] by (simp add: relayed_def)
next
  case False
  then have "readFramedPacket (stream @ data) \<noteq> Inr None"
    using readFramedPacket_append readFramedPacket_append_error
    by (cases "readFramedPacket stream") (auto split: option.splits)
  then show ?thesis
    using False assms
    by (auto simp: relayed_def onPeerData_def feedOrClose_def Feed_def bypass_output_append bridged_def)
qed

lemma fold_relay:
  "relayed rr mac key ps t w0 stream h \<Longrightarrow>
   \<exists>h'. feedAll rr mac ps chunks h = Done h' \<and> relayed rr mac key ps t w0 (stream @ concat chunks) h'"
proof (induction chunks arbitrary: stream h)
  case Nil
  then show ?case by (simp add: feedAll_def)
next
  case (Cons c cs)
  from onPeerData_relay[OF Cons.prems, of c] obtain h1 where
    h1: "onPeerData rr mac ps c h = Done h1" "relayed rr mac key ps t w0 (stream @ c) h1" by blast
  from Cons.IH[OF h1(2)] h1(1) show ?case by (simp add: feedAll_def)
qed

section \<open>Properties\<close>

text \<open>
  C1. Data plane of the host with a bypass key: whatever the peer's bytes are and however
  they are cut into messages, the backend connection receives exactly what \<^verbatim>\<open>bypass_output\<close>
  prescribes for the whole stream, and the session stays up.
\<close>

theorem bypass_stream_chunking:
  assumes "bridged ps t h" and "hm_bypassKey h = Some key"
    and "\<not> handshakeDone (hm_objs h ! ps)" and "handshakeBuf (hm_objs h ! ps) = []"
  shows "\<exists>h'. feedAll rand_read mac ps chunks h = Done h' \<and> bridged ps t h' \<and>
           tb_written (hm_tcps h' ! t) = tb_written (hm_tcps h ! t) @ bypass_output rand_read mac key (concat chunks)"
proof -
  have nil: "readFramedPacket [] = Inr None"
    by (simp add: readFramedPacket_def readVarInt_def readVarInt_loop.simps)
  have "relayed rand_read mac key ps t (tb_written (hm_tcps h ! t)) [] h"
    using assms nil by (simp add: relayed_def)
  from fold_relay[OF this, of chunks] obtain h' where
    h': "feedAll rand_read mac ps chunks h = Done h'"
        "relayed rand_read mac key ps t (tb_written (hm_tcps h ! t)) (concat chunks) h'" by auto
  then show ?thesis by (auto simp: relayed_def bypass_output_def split: if_splits)
qed

definition sample_host :: "bytes option \<Rightarrow> HostManager" where
  "sample_host key =
     \<lparr>hm_target = ''127.0.0.1:25565'', hm_bypassKey = key, hm_mu = False, hm_sessions = [''sid'' \<mapsto> 0],
      hm_objs = [\<lparr>hs_fromPmid = ''alice'', hs_sid = ''sid'', hs_rtc = True, hs_tcp = Some 0, hs_closed = False,
                  handshakeBuf = [], handshakeDone = False\<rparr>],
      hm_rtcs = [Some sample_session],
      hm_tcps = [\<lparr>tb_owner = 0, tb_once = OnceNew, tb_alive = True, tb_written = []\<rparr>], hm_sent = []\<rparr>"

theorem bypass_stream_chunking_witness:
  "\<exists>h'. feedAll (\<lambda>n. Some (replicate n 7)) (\<lambda>k m. replicate 32 1) 0
          [take 3 (encodeHandshake sample_handshake), drop 3 (encodeHandshake sample_handshake) @ [1, 2]]
          (sample_host (Some [5])) = Done h' \<and>
        tb_written (hm_tcps h' ! 0) =
          bypass_output (\<lambda>n. Some (replicate n 7)) (\<lambda>k m. replicate 32 1) [5]
            (encodeHandshake sample_handshake @ [1, 2])"
  using bypass_stream_chunking[of 0 0 "sample_host (Some [5])" "[5]" "\<lambda>n. Some (replicate n 7)"
      "\<lambda>k m. replicate 32 1"
      "[take 3 (encodeHandshake sample_handshake), drop 3 (encodeHandshake sample_handshake) @ [1, 2]]"]
  by (auto simp: sample_host_def bridged_def simp flip: append_assoc)



definition sample_offered :: HostManager where
  "sample_offered = state_of (onWebRtc False sample_pion False ''alice'' (Offer ''sid'' ''sdp'') (NewHostManager ''t'' None))"

lemma sample_offer_run: "host_step\<^sup>*\<^sup>* (NewHostManager ''t'' None) sample_offered"
  using host_event[of "HWebRtc False sample_pion False ''alice'' (Offer ''sid'' ''sdp'')" "NewHostManager ''t'' None"]
  unfolding sample_offered_def by (intro r_into_rtranclp) simp



text \<open>
  C32. When a session has been replaced in the table by a newer one of the same id, the
  old one's close notification (from its data channel or from its handshake timeout) completes
  and leaves the newer entry, and every other entry, in place.
\<close>

theorem stale_close_keeps_successor:
  assumes "host_wf h" and "\<not> hm_mu h" and "old < length (hm_objs h)"
    and "hm_sessions h (hs_sid (hm_objs h ! old)) \<noteq> Some old"
    and "\<forall>t. hs_tcp (hm_objs h ! old) = Some t \<longrightarrow> tb_once (hm_tcps h ! t) \<noteq> OnceRunning"
  shows "\<exists>h'. rtcOnClose old h = Done h' \<and> hm_sessions h' = hm_sessions h \<and> hs_closed (hm_objs h' ! old)"
proof -
  let ?sid = "hs_sid (hm_objs h ! old)"
  have "\<exists>h1. hostSession_close old h = Done h1 \<and> hm_sessions h1 = hm_sessions h \<and> \<not> hm_mu h1 \<and>
      hs_closed (hm_objs h1 ! old)"
  proof (cases "hs_closed (hm_objs h ! old)")
    case True
    with assms(2) show ?thesis by (simp add: close_closed)
  next
    case False
    show ?thesis
    proof (cases "hs_tcp (hm_objs h ! old)")
      case None
      with False assms(2,3) show ?thesis by (simp add: close_without_tcp)
    next
      case (Some t)
      with assms(5) consider "tb_once (hm_tcps h ! t) = OnceNew" | "tb_once (hm_tcps h ! t) = OnceDone"
        by (cases "tb_once (hm_tcps h ! t)") auto
      then show ?thesis
      proof cases
        case 1
        from close_with_tcp[OF assms(1,3) False Some 1] assms(2-4) show ?thesis
          by (simp add: removeSession_def Let_def)
      next
        case 2
        from close_with_done_tcp[OF assms(3) False Some 2] assms(2,3) show ?thesis by simp
      qed
    qed
  qed
  with assms(3,4) show ?thesis by (auto simp: rtcOnClose_def removeSession_def)
qed

definition sample_replaced :: HostManager where
  "sample_replaced = (sample_host None)\<lparr>hm_sessions := [''sid'' \<mapsto> 1],
     hm_objs := hm_objs (sample_host None) @ [newHostSession ''alice'' ''sid''],
     hm_rtcs := hm_rtcs (sample_host None) @ [None]\<rparr>"

theorem stale_close_keeps_successor_witness:
  "\<exists>h'. rtcOnClose 0 sample_replaced = Done h' \<and> hm_sessions h' ''sid'' = Some 1 \<and> hs_closed (hm_objs h' ! 0)"
proof -
  have "host_wf sample_replaced"
    by (auto simp: host_wf_def sample_replaced_def sample_host_def newHostSession_def less_Suc_eq)
  from stale_close_keeps_successor[OF this, of 0] show ?thesis
    by (auto simp: sample_replaced_def sample_host_def)
qed

text \<open>
  An offer under an id that has no session, or one without a backend connection, is
  registered: the table maps the id to the new session, every other id is untouched, the earlier
  session of that id is closed, and the table's mutex is released.
\<close>

theorem new_offer_registers:
  assumes "host_wf h" and "\<not> hm_mu h"
    and "\<forall>prev. hm_sessions h sid = Some prev \<longrightarrow> hs_tcp (hm_objs h ! prev) = None"
  shows "\<exists>h'. registerSession from sid h = Done h' \<and> \<not> hm_mu h' \<and>
           hm_sessions h' = (hm_sessions h)(sid \<mapsto> length (hm_objs h)) \<and>
           (\<forall>prev. hm_sessions h sid = Some prev \<longrightarrow> hs_closed (hm_objs h' ! prev))"
proof (cases "hm_sessions h sid")
  case None
  with assms(2) show ?thesis by (simp add: registerSession_def Let_def)
next
  case (Some prev)
  let ?h1 = "h\<lparr>hm_objs := hm_objs h @ [newHostSession from sid], hm_rtcs := hm_rtcs h @ [None], hm_mu := True\<rparr>"
  have prev: "prev < length (hm_objs h)" using host_wfD(4)[OF assms(1) Some] by simp
  show ?thesis
  proof (cases "hs_closed (hm_objs h ! prev)")
    case True
    then have "hostSession_close prev ?h1 = Done ?h1" using prev by (simp add: close_closed nth_append)
    with Some True assms(2) prev show ?thesis by (simp add: registerSession_def Let_def nth_append)
  next
    case False
    with close_without_tcp[of prev ?h1] prev assms(3) Some
    have "hostSession_close prev ?h1 =
        Done (if hs_rtc (hm_objs h ! prev) then upd_rtc prev Session_Close (mark_closed prev ?h1)
              else mark_closed prev ?h1)" by (simp add: nth_append)
    with Some assms(2) prev show ?thesis by (simp add: registerSession_def Let_def nth_append)
  qed
qed

theorem new_offer_registers_witness:
  "\<exists>h'. registerSession ''bob'' ''other'' (sample_host None) = Done h' \<and>
        hm_sessions h' ''other'' = Some 1 \<and> hm_sessions h' ''sid'' = Some 0"
proof -
  have "host_wf (sample_host None)" by (auto simp: host_wf_def sample_host_def)
  from new_offer_registers[OF this, of "''other''" "''bob''"] show ?thesis by (auto simp: sample_host_def)
qed



text \<open>
  C35. When the backend closes the connection of a running session, the read loop's deferred
  \<^verbatim>\<open>Close\<close> never returns: inside its own \<^verbatim>\<open>closeOnce\<close> it calls the session's \<^verbatim>\<open>close\<close>, which closes the same
  bridge and so enters the same \<^verbatim>\<open>sync.Once\<close>. The session is marked closed, but its WebRTC session is
  not closed and its entry stays in the session table.
\<close>

theorem backend_close_hangs:
  assumes "host_wf h" and "ps < length (hm_objs h)" and "\<not> hs_closed (hm_objs h ! ps)"
    and "hs_tcp (hm_objs h ! ps) = Some t" and "tb_once (hm_tcps h ! t) = OnceNew"
  shows "\<exists>h'. readLoopEnd t h = Hang h' \<and> hs_closed (hm_objs h' ! ps) \<and> \<not> hs_rtc (hm_objs h' ! ps) \<and>
           hm_rtcs h' = hm_rtcs h \<and> hm_sessions h' = hm_sessions h"
proof -
  have t: "t < length (hm_tcps h)" "tb_owner (hm_tcps h ! t) = ps"
    using host_wfD(2)[OF assms(1,2,4)] by auto
  let ?h1 = "upd_tcp t (\<lambda>b. b\<lparr>tb_once := OnceRunning\<rparr>) h"
  have "TCPBridge_Close t (mark_closed ps ?h1) = Hang (mark_closed ps ?h1)"
    using t by (subst TCPBridge_Close.simps) simp
  then have "hostSession_close ps ?h1 = Hang (mark_closed ps ?h1)"
    using assms(2-4) by (subst hostSession_close.simps) simp
  then have "TCPBridge_Close t h = Hang (mark_closed ps ?h1)"
    using t assms(5) by (subst TCPBridge_Close.simps) simp
  then show ?thesis using assms(2) by (simp add: readLoopEnd_def)
qed

theorem backend_close_hangs_witness:
  "\<exists>h'. readLoopEnd 0 (sample_host None) = Hang h' \<and> hm_sessions h' ''sid'' = Some 0"
proof -
  have "host_wf (sample_host None)" by (auto simp: host_wf_def sample_host_def)
  from backend_close_hangs[OF this, of 0 0] show ?thesis by (auto simp: sample_host_def)
qed

lemma candidateInit_localCandidate:
  "ParseIceCandidate (localCandidate sid c) = Some ic \<Longrightarrow>
   candidateInit ic = c\<lparr>SDPMid := Some (case SDPMid c of None \<Rightarrow> ''0'' | Some m \<Rightarrow> m),
                       SDPMLineIndex := Some (case SDPMLineIndex c of None \<Rightarrow> 0 | Some i \<Rightarrow> i)\<rparr>"
  by (auto simp: localCandidate_def candidateInit_def split: option.splits)

text \<open>
  C31. A candidate that one side gathered and sent arrives at the host's peer connection as it was, with
  the defaults for a missing mid and line index: it is queued before the remote description is set
  and added after. It arrives only if it comes from the player who opened the session; from
  anyone else the message changes nothing.
\<close>

theorem candidate_delivery:
  assumes "\<not> hm_mu h" and "sid \<noteq> ''''" and "hm_sessions h sid = Some ps"
    and "ps < length (hm_objs h)" and "ps < length (hm_rtcs h)" and "hs_rtc (hm_objs h ! ps)"
    and "hm_rtcs h ! ps = Some rtc" and "pc rtc"
  shows "handleICE from (localCandidate sid c) h =
     Done (if from \<noteq> hs_fromPmid (hm_objs h ! ps) then h
           else let c' = c\<lparr>SDPMid := Some (case SDPMid c of None \<Rightarrow> ''0'' | Some m \<Rightarrow> m),
                           SDPMLineIndex := Some (case SDPMLineIndex c of None \<Rightarrow> 0 | Some i \<Rightarrow> i)\<rparr>
                in h\<lparr>hm_rtcs := (hm_rtcs h)[ps := Some (if remoteSet rtc then do_call (AddICECandidate c') rtc
                                                        else rtc\<lparr>queuedICE := queuedICE rtc @ [c']\<rparr>)]\<rparr>)"
proof -
  obtain ic where ic: "ParseIceCandidate (localCandidate sid c) = Some ic"
    by (simp add: localCandidate_def)
  have sid: "GetSessionID (localCandidate sid c) = sid" by (simp add: localCandidate_def)
  show ?thesis
    using assms
    by (auto simp: handleICE_def Let_def sid ic addIceTo_def AddRemoteICE_def upd_rtc_def
        candidateInit_localCandidate[OF ic])
qed

theorem candidate_delivery_witness:
  "handleICE ''mallory'' (localCandidate ''sid'' sample_candidate) sample_offered = Done sample_offered \<and>
   handleICE ''alice'' (localCandidate ''sid'' sample_candidate) sample_offered \<noteq> Done sample_offered"
proof -
  let ?h = "sample_offered"
  have h: "\<not> hm_mu ?h \<and> hm_sessions ?h ''sid'' = Some 0 \<and> 0 < length (hm_objs ?h) \<and> 0 < length (hm_rtcs ?h) \<and>
     hs_rtc (hm_objs ?h ! 0) \<and> hs_fromPmid (hm_objs ?h ! 0) = ''alice''"
    by (simp add: sample_offered_def onWebRtc_def handleOffer_def startSession_def registerSession_def negotiate_def
        NewSession_def HandleOffer_def sample_pion_def NewHostManager_def newHostSession_def upd_obj_def send_def Let_def)
  obtain rtc where rtc: "hm_rtcs ?h ! 0 = Some rtc" "pc rtc"
    by (simp add: sample_offered_def onWebRtc_def handleOffer_def startSession_def registerSession_def negotiate_def
        NewSession_def HandleOffer_def sample_pion_def NewHostManager_def newHostSession_def upd_obj_def send_def
        remoteDescriptionSet_def Let_def)
  note d = candidate_delivery[of ?h "''sid''" 0 rtc _ sample_candidate]
  have "handleICE ''mallory'' (localCandidate ''sid'' sample_candidate) ?h = Done ?h"
    using d[of "''mallory''"] h rtc by simp
  moreover have "handleICE ''alice'' (localCandidate ''sid'' sample_candidate) ?h \<noteq> Done ?h"
  proof -
    let ?c = "sample_candidate\<lparr>SDPMid := Some (case SDPMid sample_candidate of None \<Rightarrow> ''0'' | Some m \<Rightarrow> m),
                 SDPMLineIndex := Some (case SDPMLineIndex sample_candidate of None \<Rightarrow> 0 | Some i \<Rightarrow> i)\<rparr>"
    let ?r = "if remoteSet rtc then do_call (AddICECandidate ?c) rtc else rtc\<lparr>queuedICE := queuedICE rtc @ [?c]\<rparr>"
    have ne: "?r \<noteq> rtc"
      by (auto dest: arg_cong[of _ _ calls] arg_cong[of _ _ queuedICE])
    have "handleICE ''alice'' (localCandidate ''sid'' sample_candidate) ?h = Done (?h\<lparr>hm_rtcs := (hm_rtcs ?h)[0 := Some ?r]\<rparr>)"
      using d[of "''alice''"] h rtc unfolding Let_def by auto
    moreover have "hm_rtcs (?h\<lparr>hm_rtcs := (hm_rtcs ?h)[0 := Some ?r]\<rparr>) ! 0 \<noteq> hm_rtcs ?h ! 0"
      using ne h rtc(1) by simp
    ultimately show ?thesis by (metis outcome.inject(1))
  qed
  ultimately show ?thesis by blast
qed

section \<open>The target address\<close>

datatype target_error = TargetAddr addr_error | TargetPort

definition ParseTarget :: "string \<Rightarrow> target_error + string" where
  "ParseTarget s =
     (case SplitHostPort s of
        Inl e \<Rightarrow> Inl (TargetAddr e)
      | Inr (host, port) \<Rightarrow>
          (case Atoi port of None \<Rightarrow> Inl TargetPort | Some n \<Rightarrow> Inr (JoinHostPort host port)))"

text \<open>
  A target that \<^verbatim>\<open>ParseTarget\<close> accepts is returned in a normal form: parsing the result again
  gives the same result, and host and port are those of the input. IPv6 addresses come out in brackets.
\<close>

theorem parse_target_stable:
  assumes "ParseTarget s = Inr t"
  shows "ParseTarget t = Inr t \<and>
     (\<exists>host port n. SplitHostPort s = Inr (host, port) \<and> SplitHostPort t = Inr (host, port) \<and> Atoi port = Some n)"
proof -
  obtain host port n where s: "SplitHostPort s = Inr (host, port)" "Atoi port = Some n" "t = JoinHostPort host port"
    using assms by (auto simp: ParseTarget_def split: sum.splits prod.splits option.splits)
  have "SplitHostPort t = Inr (host, port)"
    unfolding s(3) using SplitHostPort_result[OF s(1)] by (intro SplitHostPort_JoinHostPort) auto
  with s show ?thesis by (auto simp: ParseTarget_def)
qed

theorem parse_target_stable_witness:
  "ParseTarget ''[::1]:25565'' = Inr ''[::1]:25565''"
proof -
  have "ParseTarget ''[::1]:25565'' = Inr ''[::1]:25565''"
    by (simp add: ParseTarget_def SplitHostPort_def lastIndex_def index_def checkBrackets_def JoinHostPort_def Atoi_def
        digits_val_def digit_val_def is_digit_def)
  from parse_target_stable[OF this] show ?thesis by blast
qed

end
