(* ===== verification/JoinBridge.thy ===== *)
theory JoinBridge
  imports HostBridge
begin

text \<open>
  The joining side of the bridge, \<^verbatim>\<open>src/internal/bridge/join.go\<close>: a local Minecraft client connects to
  the listener, the manager asks the host to let it in, and the bytes of the connection go over
  the data channel.

  Sessions and local connections are heap objects (lists indexed by the pointer). The goroutine
  \<^verbatim>\<open>handleIncoming\<close> of a session is cut at the points where it waits; \<^verbatim>\<open>js_phase\<close> is where it stands,
  and each definition runs it from one such point to the next. \<^verbatim>\<open>js_conn\<close> is the goroutine's own
  variable \<^verbatim>\<open>local\<close>, \<^verbatim>\<open>js_local\<close> the field that \<^verbatim>\<open>close\<close> sets to nil.
\<close>

section \<open>Model\<close>

datatype join_phase = WaitingReady | AwaitingHost | StartingInitiator | AwaitingOpen | Draining | Reading | Finished

record joinSession =
  js_sessionID :: string
  js_conn :: nat
  js_local :: "nat option"
  js_rtc :: "Session option"
  js_acceptCh :: bool
  js_rejectCh :: bool
  js_closed :: bool
  js_phase :: join_phase

record local_conn =
  lc_closed :: bool
  lc_written :: bytes

record JoinManager =
  jm_peerPmid :: uuid
  jm_listener :: bool
  jm_stopCh :: bool
  jm_doneCh :: bool
  jm_current :: "nat option"
  jm_objs :: "joinSession list"
  jm_conns :: "local_conn list"
  jm_sent :: "(uuid \<times> payload) list"

definition NewJoinManager :: "uuid \<Rightarrow> JoinManager" where
  "NewJoinManager peerPmid =
     \<lparr>jm_peerPmid = peerPmid, jm_listener = False, jm_stopCh = False, jm_doneCh = False,
      jm_current = None, jm_objs = [], jm_conns = [], jm_sent = []\<rparr>"

definition upd_js :: "nat \<Rightarrow> (joinSession \<Rightarrow> joinSession) \<Rightarrow> JoinManager \<Rightarrow> JoinManager" where
  "upd_js i f j = (if i < length (jm_objs j) then j\<lparr>jm_objs := (jm_objs j)[i := f (jm_objs j ! i)]\<rparr> else j)"

definition upd_conn :: "nat \<Rightarrow> (local_conn \<Rightarrow> local_conn) \<Rightarrow> JoinManager \<Rightarrow> JoinManager" where
  "upd_conn i f j = (if i < length (jm_conns j) then j\<lparr>jm_conns := (jm_conns j)[i := f (jm_conns j ! i)]\<rparr> else j)"

definition closeConn :: "nat \<Rightarrow> JoinManager \<Rightarrow> JoinManager" where
  "closeConn c j = upd_conn c (\<lambda>l. l\<lparr>lc_closed := True\<rparr>) j"

definition setPhase :: "join_phase \<Rightarrow> nat \<Rightarrow> JoinManager \<Rightarrow> JoinManager" where
  "setPhase ph i j = upd_js i (\<lambda>s. s\<lparr>js_phase := ph\<rparr>) j"

definition sendPeer :: "payload \<Rightarrow> JoinManager \<Rightarrow> JoinManager" where
  "sendPeer m j = j\<lparr>jm_sent := jm_sent j @ [(jm_peerPmid j, m)]\<rparr>"

definition Listen :: "bool \<Rightarrow> JoinManager \<Rightarrow> bool \<times> JoinManager" where
  "Listen err j = (if err then (False, j) else (True, j\<lparr>jm_listener := True\<rparr>))"

subsection \<open>One session\<close>

text \<open>\<^verbatim>\<open>joinSession.close\<close>: once, close the local connection and the WebRTC session.\<close>

definition joinSession_close :: "nat \<Rightarrow> JoinManager \<Rightarrow> JoinManager" where
  "joinSession_close i j =
     (if i < length (jm_objs j) \<and> \<not> js_closed (jm_objs j ! i)
      then let l = js_local (jm_objs j ! i);
               j1 = upd_js i (\<lambda>s. s\<lparr>js_closed := True, js_local := None\<rparr>) j;
               j2 = (case l of None \<Rightarrow> j1 | Some c \<Rightarrow> closeConn c j1)
           in upd_js i (\<lambda>s. s\<lparr>js_rtc := map_option Session_Close (js_rtc s)\<rparr>) j2
      else j)"

text \<open>The deferred function of \<^verbatim>\<open>handleIncoming\<close>, and with it the end of the goroutine.\<close>

definition finishIncoming :: "nat \<Rightarrow> JoinManager \<Rightarrow> JoinManager" where
  "finishIncoming i j =
     setPhase Finished i (if jm_current j = Some i then j\<lparr>jm_current := None\<rparr> else j)"

text \<open>\<^verbatim>\<open>handleIncoming\<close> up to its wait for the signaling connection; \<^verbatim>\<open>sid\<close> is the fresh uuid.\<close>

definition newJoinSession :: "string \<Rightarrow> nat \<Rightarrow> joinSession" where
  "newJoinSession sid c =
     \<lparr>js_sessionID = sid, js_conn = c, js_local = Some c, js_rtc = None, js_acceptCh = False,
      js_rejectCh = False, js_closed = False, js_phase = WaitingReady\<rparr>"

definition handleIncoming :: "string \<Rightarrow> JoinManager \<Rightarrow> JoinManager" where
  "handleIncoming sid j =
     (let c = length (jm_conns j);
          j1 = j\<lparr>jm_conns := jm_conns j @ [\<lparr>lc_closed = False, lc_written = []\<rparr>]\<rparr>
      in if jm_current j \<noteq> None then closeConn c j1
         else j1\<lparr>jm_objs := jm_objs j @ [newJoinSession sid c], jm_current := Some (length (jm_objs j))\<rparr>)"

definition abandon :: "nat \<Rightarrow> JoinManager \<Rightarrow> JoinManager" where
  "abandon i j = finishIncoming i (closeConn (js_conn (jm_objs j ! i)) j)"

definition sessClose :: "nat \<Rightarrow> JoinManager \<Rightarrow> JoinManager" where
  "sessClose i j = finishIncoming i (joinSession_close i j)"

definition requestJoin :: "bool \<Rightarrow> bool \<Rightarrow> nat \<Rightarrow> JoinManager \<Rightarrow> JoinManager" where
  "requestJoin readyErr sendErr i j =
     (if readyErr then abandon i j
      else let j1 = sendPeer (JoinRequest (js_sessionID (jm_objs j ! i))) j
           in if sendErr then abandon i j1 else setPhase AwaitingHost i j1)"

datatype host_verdict = HostAccepted | HostRejected | HostSilent

definition awaitHost :: "host_verdict \<Rightarrow> nat \<Rightarrow> JoinManager \<Rightarrow> JoinManager" where
  "awaitHost v i j = (if v = HostAccepted then setPhase StartingInitiator i j else abandon i j)"

text \<open>\<^verbatim>\<open>startInitiator\<close>; the result says whether it failed.\<close>

definition startInitiator :: "bool \<Rightarrow> pion \<Rightarrow> bool \<Rightarrow> nat \<Rightarrow> JoinManager \<Rightarrow> bool \<times> JoinManager" where
  "startInitiator turnErr p sendErr i j =
     (if turnErr then (True, j)
      else (case NewSession p RoleInitiator (js_sessionID (jm_objs j ! i)) (jm_peerPmid j) of
              Inl e \<Rightarrow> (True, j)
            | Inr rtc \<Rightarrow>
                (case CreateOffer p rtc of
                   (Inl e, rtc') \<Rightarrow> (True, upd_js i (\<lambda>s. s\<lparr>js_rtc := Some rtc'\<rparr>) j)
                 | (Inr offerSDP, rtc') \<Rightarrow>
                     (sendErr, sendPeer (Offer (js_sessionID (jm_objs j ! i)) offerSDP)
                                 (upd_js i (\<lambda>s. s\<lparr>js_rtc := Some rtc'\<rparr>) j)))))"

definition initiate :: "bool \<Rightarrow> pion \<Rightarrow> bool \<Rightarrow> nat \<Rightarrow> JoinManager \<Rightarrow> JoinManager" where
  "initiate turnErr p sendErr i j =
     (case startInitiator turnErr p sendErr i j of
        (failed, j') \<Rightarrow> if failed then sessClose i j' else setPhase AwaitingOpen i j')"

definition awaitOpen :: "bool \<Rightarrow> nat \<Rightarrow> JoinManager \<Rightarrow> JoinManager" where
  "awaitOpen timedOut i j =
     (case js_rtc (jm_objs j ! i) of
        None \<Rightarrow> j
      | Some rtc \<Rightarrow>
          (case WaitDataChannelOpen timedOut rtc of
             None \<Rightarrow> j
           | Some (Inl e) \<Rightarrow> sessClose i j
           | Some (Inr d) \<Rightarrow> setPhase Draining i j))"

text \<open>The loop of \<^verbatim>\<open>startTcpBridge\<close>: wait for the send queue, then read from the local client and send
  what was read. \<^verbatim>\<open>s.local\<close> is read without the mutex, and calling \<^verbatim>\<open>Read\<close> on the nil that \<^verbatim>\<open>close\<close>
  stores there panics. A read on a closed connection fails with no data.\<close>

definition bridgeDrain :: "(dc_state \<times> nat) list \<Rightarrow> nat \<Rightarrow> JoinManager \<Rightarrow> JoinManager" where
  "bridgeDrain polls i j =
     (case js_rtc (jm_objs j ! i) of
        None \<Rightarrow> j
      | Some rtc \<Rightarrow>
          (case WaitForBufferDrain maxBuffered polls rtc of
             None \<Rightarrow> j
           | Some (Some e) \<Rightarrow> sessClose i j
           | Some None \<Rightarrow> setPhase Reading i j))"

definition readLocal :: "nat \<Rightarrow> bytes \<Rightarrow> bool \<Rightarrow> JoinManager \<Rightarrow> bytes \<times> bool" where
  "readLocal c data err j = (if c < length (jm_conns j) \<and> lc_closed (jm_conns j ! c) then ([], True) else (data, err))"

definition sendChunk :: "pion \<Rightarrow> bytes \<Rightarrow> nat \<Rightarrow> JoinManager \<Rightarrow> bool \<times> JoinManager" where
  "sendChunk p chunk i j =
     (case js_rtc (jm_objs j ! i) of
        None \<Rightarrow> (False, j)
      | Some rtc \<Rightarrow>
          (case Send p chunk rtc of
             (e, rtc') \<Rightarrow> (e \<noteq> None, upd_js i (\<lambda>s. s\<lparr>js_rtc := Some rtc'\<rparr>) j)))"

definition bridgeRead :: "pion \<Rightarrow> bytes \<Rightarrow> bool \<Rightarrow> nat \<Rightarrow> JoinManager \<Rightarrow> JoinManager outcome" where
  "bridgeRead p data err i j =
     (case js_local (jm_objs j ! i) of
        None \<Rightarrow> Panic j
      | Some c \<Rightarrow>
          (case readLocal c data err j of
             (chunk, err') \<Rightarrow>
               (case (if chunk = [] then (False, j) else sendChunk p chunk i j) of
                  (sendErr, j') \<Rightarrow>
                    if sendErr \<or> err' then Done (sessClose i j') else Done (setPhase Draining i j'))))"

subsection \<open>Callbacks and messages\<close>

text \<open>The callbacks given to \<^verbatim>\<open>NewSession\<close>: a local candidate goes to the peer, data from the peer to the
  local client, and the end of the channel closes the session.\<close>

definition joinLocalICE :: "ICECandidateInit \<Rightarrow> nat \<Rightarrow> JoinManager \<Rightarrow> JoinManager" where
  "joinLocalICE c i j = sendPeer (localCandidate (js_sessionID (jm_objs j ! i)) c) j"

definition joinOnData :: "bytes \<Rightarrow> nat \<Rightarrow> JoinManager \<Rightarrow> JoinManager" where
  "joinOnData data i j =
     (case js_local (jm_objs j ! i) of
        None \<Rightarrow> j
      | Some c \<Rightarrow> upd_conn c (\<lambda>l. if lc_closed l then l else l\<lparr>lc_written := lc_written l @ data\<rparr>) j)"

definition joinOnClose :: "nat \<Rightarrow> JoinManager \<Rightarrow> JoinManager" where
  "joinOnClose i j = joinSession_close i j"

text \<open>\<^verbatim>\<open>j.current\<close> if it has the session id of the message.\<close>

definition currentFor :: "string \<Rightarrow> JoinManager \<Rightarrow> nat option" where
  "currentFor sid j =
     (case jm_current j of
        None \<Rightarrow> None
      | Some i \<Rightarrow> if js_sessionID (jm_objs j ! i) = sid then Some i else None)"

text \<open>Closing a channel that is already closed panics.\<close>

definition JoinManager_OnFriendJoin :: "uuid \<Rightarrow> payload \<Rightarrow> JoinManager \<Rightarrow> JoinManager outcome" where
  "JoinManager_OnFriendJoin fromPmid payload j =
     (if fromPmid \<noteq> jm_peerPmid j then Done j
      else (case currentFor (GetSessionID payload) j of
              None \<Rightarrow> Done j
            | Some i \<Rightarrow>
                if GetType payload = ''JOIN_ACCEPTED''
                then (if js_acceptCh (jm_objs j ! i) then Panic j
                      else Done (upd_js i (\<lambda>s. s\<lparr>js_acceptCh := True\<rparr>) j))
                else if GetType payload = ''JOIN_REJECTED''
                then (if js_rejectCh (jm_objs j ! i) then Panic j
                      else Done (upd_js i (\<lambda>s. s\<lparr>js_rejectCh := True\<rparr>) j))
                else Done j))"

definition handleAnswer :: "pion \<Rightarrow> payload \<Rightarrow> JoinManager \<Rightarrow> JoinManager outcome" where
  "handleAnswer p payload j =
     (case currentFor (GetSessionID payload) j of
        None \<Rightarrow> Done j
      | Some i \<Rightarrow>
          (case js_rtc (jm_objs j ! i) of
             None \<Rightarrow> Done j
           | Some rtc \<Rightarrow>
               (case HandleAnswer p (GetSDP payload) rtc of
                  (None, rtc') \<Rightarrow> Done (upd_js i (\<lambda>s. s\<lparr>js_rtc := Some rtc'\<rparr>) j)
                | (Some NilPeerConnection, rtc') \<Rightarrow> Panic j
                | (Some (RtcErr e), rtc') \<Rightarrow>
                    Done (joinSession_close i (upd_js i (\<lambda>s. s\<lparr>js_rtc := Some rtc'\<rparr>) j)))))"

definition JoinManager_handleICE :: "payload \<Rightarrow> JoinManager \<Rightarrow> JoinManager outcome" where
  "JoinManager_handleICE payload j =
     (case ParseIceCandidate payload of
        None \<Rightarrow> Done j
      | Some ic \<Rightarrow>
          (case currentFor (GetSessionID payload) j of
             None \<Rightarrow> Done j
           | Some i \<Rightarrow>
               (case js_rtc (jm_objs j ! i) of
                  None \<Rightarrow> Done j
                | Some rtc \<Rightarrow>
                    (case AddRemoteICE (candidateInit ic) rtc of
                       (None, rtc') \<Rightarrow> Done (upd_js i (\<lambda>s. s\<lparr>js_rtc := Some rtc'\<rparr>) j)
                     | (Some e, rtc') \<Rightarrow> Panic j))))"

definition JoinManager_onWebRtc :: "pion \<Rightarrow> uuid \<Rightarrow> payload \<Rightarrow> JoinManager \<Rightarrow> JoinManager outcome" where
  "JoinManager_onWebRtc p fromPmid payload j =
     (if fromPmid \<noteq> jm_peerPmid j then Done j
      else if GetType payload = ''ANSWER'' then handleAnswer p payload j
      else if GetType payload = ''ICE_CANDIDATE'' then JoinManager_handleICE payload j
      else Done j)"

subsection \<open>Accepting and closing\<close>

text \<open>\<^verbatim>\<open>acceptLoop\<close> ends at the first error of \<^verbatim>\<open>Accept\<close> and closes \<^verbatim>\<open>doneCh\<close>.\<close>

definition acceptFailed :: "JoinManager \<Rightarrow> JoinManager" where
  "acceptFailed j = j\<lparr>jm_doneCh := True\<rparr>"

text \<open>\<^verbatim>\<open>Close\<close> panics when called twice. Closing the listener ends the accept loop, which closes
  \<^verbatim>\<open>doneCh\<close>; without a listener there is no such loop and the receive from \<^verbatim>\<open>doneCh\<close> never returns.\<close>

definition JoinManager_Close :: "JoinManager \<Rightarrow> JoinManager outcome" where
  "JoinManager_Close j =
     (if jm_stopCh j then Panic j
      else let j1 = j\<lparr>jm_stopCh := True\<rparr>
           in if \<not> jm_listener j then Hang j1
              else let j2 = (acceptFailed j1)\<lparr>jm_current := None\<rparr>
                   in Done (case jm_current j of None \<Rightarrow> j2 | Some i \<Rightarrow> joinSession_close i j2))"

subsection \<open>The manager as a machine\<close>

datatype join_event =
    JListen bool
  | JAccept string
  | JAcceptFailed
  | JReady bool bool nat
  | JVerdict host_verdict nat
  | JInitiate bool pion bool nat
  | JOpen bool nat
  | JDrain "(dc_state \<times> nat) list" nat
  | JRead pion bytes bool nat
  | JLocalICE ICECandidateInit nat
  | JData bytes nat
  | JRtcClose nat
  | JRtc pion rtc_event nat
  | JFriend uuid payload
  | JWebRtc pion uuid payload
  | JClose

fun join_apply :: "join_event \<Rightarrow> JoinManager \<Rightarrow> JoinManager outcome" where
  "join_apply (JListen err) j = Done (snd (Listen err j))"
| "join_apply (JAccept sid) j = Done (handleIncoming sid j)"
| "join_apply JAcceptFailed j = Done (acceptFailed j)"
| "join_apply (JReady re se i) j = Done (requestJoin re se i j)"
| "join_apply (JVerdict v i) j = Done (awaitHost v i j)"
| "join_apply (JInitiate te p se i) j = Done (initiate te p se i j)"
| "join_apply (JOpen to i) j = Done (awaitOpen to i j)"
| "join_apply (JDrain polls i) j = Done (bridgeDrain polls i j)"
| "join_apply (JRead p data err i) j = bridgeRead p data err i j"
| "join_apply (JLocalICE c i) j = Done (joinLocalICE c i j)"
| "join_apply (JData data i) j = Done (joinOnData data i j)"
| "join_apply (JRtcClose i) j = Done (joinOnClose i j)"
| "join_apply (JRtc p ev i) j = Done (upd_js i (\<lambda>s. s\<lparr>js_rtc := map_option (rtc_apply p ev) (js_rtc s)\<rparr>) j)"
| "join_apply (JFriend from m) j = JoinManager_OnFriendJoin from m j"
| "join_apply (JWebRtc p from m) j = JoinManager_onWebRtc p from m j"
| "join_apply JClose j = JoinManager_Close j"

text \<open>A goroutine step runs at the point where the goroutine stands; \<^verbatim>\<open>select\<close> takes a branch only if
  its channel is closed. A connection accepted by the listener is handled whenever its goroutine
  gets to run; a
  callback belongs to a session that exists.\<close>

definition at_phase :: "join_phase \<Rightarrow> nat \<Rightarrow> JoinManager \<Rightarrow> bool" where
  "at_phase ph i j \<longleftrightarrow> i < length (jm_objs j) \<and> js_phase (jm_objs j ! i) = ph"

fun join_enabled :: "join_event \<Rightarrow> JoinManager \<Rightarrow> bool" where
  "join_enabled (JAccept sid) j \<longleftrightarrow> jm_listener j"
| "join_enabled (JReady re se i) j \<longleftrightarrow> at_phase WaitingReady i j"
| "join_enabled (JVerdict v i) j \<longleftrightarrow> at_phase AwaitingHost i j \<and>
     (v = HostAccepted \<longrightarrow> js_acceptCh (jm_objs j ! i)) \<and> (v = HostRejected \<longrightarrow> js_rejectCh (jm_objs j ! i))"
| "join_enabled (JInitiate te p se i) j \<longleftrightarrow> at_phase StartingInitiator i j"
| "join_enabled (JOpen to i) j \<longleftrightarrow> at_phase AwaitingOpen i j"
| "join_enabled (JDrain polls i) j \<longleftrightarrow> at_phase Draining i j"
| "join_enabled (JRead p data err i) j \<longleftrightarrow> at_phase Reading i j"
| "join_enabled (JLocalICE c i) j \<longleftrightarrow> i < length (jm_objs j)"
| "join_enabled (JData data i) j \<longleftrightarrow> i < length (jm_objs j)"
| "join_enabled _ j \<longleftrightarrow> True"

inductive join_step :: "JoinManager \<Rightarrow> JoinManager \<Rightarrow> bool" where
  join_event: "join_enabled ev j \<Longrightarrow> join_step j (state_of (join_apply ev j))"

inductive_cases join_stepE: "join_step j j'"

definition join_init :: "JoinManager \<Rightarrow> bool" where
  "join_init j \<longleftrightarrow> (\<exists>peer. j = NewJoinManager peer)"

section \<open>Invariant\<close>

definition running :: "joinSession \<Rightarrow> bool" where
  "running s \<longleftrightarrow> js_phase s \<noteq> Finished"

definition js_ok :: "local_conn list \<Rightarrow> joinSession \<Rightarrow> bool" where
  "js_ok conns s \<longleftrightarrow>
     js_conn s < length conns \<and>
     js_local s = (if js_closed s then None else Some (js_conn s)) \<and>
     (js_closed s \<or> \<not> running s \<longrightarrow> lc_closed (conns ! js_conn s)) \<and>
     (js_phase s \<in> {AwaitingOpen, Draining, Reading} \<longrightarrow> js_rtc s \<noteq> None)"

definition join_wf :: "JoinManager \<Rightarrow> bool" where
  "join_wf j \<longleftrightarrow>
     (\<forall>i < length (jm_objs j). js_ok (jm_conns j) (jm_objs j ! i)) \<and>
     (\<forall>i. jm_current j = Some i \<longrightarrow> i < length (jm_objs j) \<and> running (jm_objs j ! i)) \<and>
     (\<not> jm_stopCh j \<longrightarrow> (\<forall>i < length (jm_objs j). running (jm_objs j ! i) \<longrightarrow> jm_current j = Some i)) \<and>
     (\<forall>c < length (jm_conns j). \<not> lc_closed (jm_conns j ! c) \<longrightarrow>
        (\<exists>i < length (jm_objs j). js_conn (jm_objs j ! i) = c \<and> running (jm_objs j ! i)))"

lemma upd_js_frame [simp, frame_simps]:
  "jm_conns (upd_js i f j) = jm_conns j" "jm_current (upd_js i f j) = jm_current j"
  "jm_stopCh (upd_js i f j) = jm_stopCh j" "jm_peerPmid (upd_js i f j) = jm_peerPmid j"
  "jm_listener (upd_js i f j) = jm_listener j" "jm_sent (upd_js i f j) = jm_sent j"
  "length (jm_objs (upd_js i f j)) = length (jm_objs j)"
  by (simp_all add: upd_js_def)

lemma nth_upd_js [simp]:
  "k < length (jm_objs j) \<Longrightarrow> jm_objs (upd_js i f j) ! k = (if k = i then f (jm_objs j ! k) else jm_objs j ! k)"
  by (auto simp: upd_js_def)

lemma upd_conn_frame [simp, frame_simps]:
  "jm_objs (upd_conn c g j) = jm_objs j" "jm_current (upd_conn c g j) = jm_current j"
  "jm_stopCh (upd_conn c g j) = jm_stopCh j" "jm_peerPmid (upd_conn c g j) = jm_peerPmid j"
  "jm_listener (upd_conn c g j) = jm_listener j" "jm_sent (upd_conn c g j) = jm_sent j"
  "length (jm_conns (upd_conn c g j)) = length (jm_conns j)"
  by (simp_all add: upd_conn_def)

lemma nth_upd_conn [simp]:
  "k < length (jm_conns j) \<Longrightarrow> jm_conns (upd_conn c g j) ! k = (if k = c then g (jm_conns j ! k) else jm_conns j ! k)"
  by (auto simp: upd_conn_def)

lemma sendPeer_frame [simp, frame_simps]:
  "jm_objs (sendPeer m j) = jm_objs j" "jm_current (sendPeer m j) = jm_current j"
  "jm_stopCh (sendPeer m j) = jm_stopCh j" "jm_peerPmid (sendPeer m j) = jm_peerPmid j"
  "jm_listener (sendPeer m j) = jm_listener j" "jm_conns (sendPeer m j) = jm_conns j"
  by (simp_all add: sendPeer_def)

lemma join_wf_sendPeer [simp]: "join_wf (sendPeer m j) \<longleftrightarrow> join_wf j"
  by (simp add: join_wf_def)

lemma join_wf_ok: "join_wf j \<Longrightarrow> i < length (jm_objs j) \<Longrightarrow> js_ok (jm_conns j) (jm_objs j ! i)"
  by (simp add: join_wf_def)

lemma join_wf_current: "join_wf j \<Longrightarrow> jm_current j = Some i \<Longrightarrow> i < length (jm_objs j) \<and> running (jm_objs j ! i)"
  by (simp add: join_wf_def)

lemma join_wf_single:
  "join_wf j \<Longrightarrow> \<not> jm_stopCh j \<Longrightarrow> i < length (jm_objs j) \<Longrightarrow> running (jm_objs j ! i) \<Longrightarrow> jm_current j = Some i"
  unfolding join_wf_def by blast

lemma join_wf_served:
  "join_wf j \<Longrightarrow> c < length (jm_conns j) \<Longrightarrow> \<not> lc_closed (jm_conns j ! c) \<Longrightarrow>
   \<exists>i < length (jm_objs j). js_conn (jm_objs j ! i) = c \<and> running (jm_objs j ! i)"
  by (simp add: join_wf_def)

lemma join_wfI:
  assumes "\<And>i. i < length (jm_objs j) \<Longrightarrow> js_ok (jm_conns j) (jm_objs j ! i)"
    and "\<And>i. jm_current j = Some i \<Longrightarrow> i < length (jm_objs j) \<and> running (jm_objs j ! i)"
    and "\<And>i. \<not> jm_stopCh j \<Longrightarrow> i < length (jm_objs j) \<Longrightarrow> running (jm_objs j ! i) \<Longrightarrow> jm_current j = Some i"
    and "\<And>c. c < length (jm_conns j) \<Longrightarrow> \<not> lc_closed (jm_conns j ! c) \<Longrightarrow>
        \<exists>i < length (jm_objs j). js_conn (jm_objs j ! i) = c \<and> running (jm_objs j ! i)"
  shows "join_wf j"
  unfolding join_wf_def by (intro conjI; intro allI impI; rule assms; assumption)

lemma join_wf_upd_js:
  assumes "join_wf j"
    and "i < length (jm_objs j) \<Longrightarrow> js_ok (jm_conns j) (f (jm_objs j ! i))"
    and "js_conn (f (jm_objs j ! i)) = js_conn (jm_objs j ! i)"
    and "running (f (jm_objs j ! i)) = running (jm_objs j ! i)"
  shows "join_wf (upd_js i f j)"
proof -
  have k: "js_conn (jm_objs (upd_js i f j) ! k) = js_conn (jm_objs j ! k) \<and>
        running (jm_objs (upd_js i f j) ! k) = running (jm_objs j ! k)" if "k < length (jm_objs j)" for k
    using that assms(3,4) by auto
  have "js_ok (jm_conns j) (jm_objs (upd_js i f j) ! k)" if "k < length (jm_objs j)" for k
    using that assms(2) join_wf_ok[OF assms(1)] by auto
  with k assms(1) show ?thesis unfolding join_wf_def upd_js_frame by metis
qed

lemma js_ok_mono:
  assumes "js_ok conns s" and "length conns' = length conns"
    and "\<And>c. c < length conns \<Longrightarrow> lc_closed (conns ! c) \<Longrightarrow> lc_closed (conns' ! c)"
  shows "js_ok conns' s"
  using assms by (auto simp: js_ok_def)

lemma join_wf_upd_conn:
  assumes "join_wf j" and "\<And>l. lc_closed l \<Longrightarrow> lc_closed (g l)"
  shows "join_wf (upd_conn c g j)"
proof -
  have mono: "lc_closed (jm_conns (upd_conn c g j) ! k)" if "k < length (jm_conns j)" "lc_closed (jm_conns j ! k)" for k
    using that assms(2) by auto
  have "js_ok (jm_conns (upd_conn c g j)) (jm_objs j ! i)" if "i < length (jm_objs j)" for i
    by (rule js_ok_mono[OF join_wf_ok[OF assms(1) that]]) (simp_all add: mono del: nth_upd_conn)
  with mono assms(1) show ?thesis unfolding join_wf_def upd_conn_frame by metis
qed

lemma join_wf_closeConn [intro]: "join_wf j \<Longrightarrow> join_wf (closeConn c j)"
  unfolding closeConn_def by (rule join_wf_upd_conn) simp_all

lemma closeConn_frame [simp, frame_simps]:
  "jm_objs (closeConn c j) = jm_objs j" "jm_current (closeConn c j) = jm_current j"
  "jm_stopCh (closeConn c j) = jm_stopCh j" "length (jm_conns (closeConn c j)) = length (jm_conns j)"
  "c < length (jm_conns j) \<Longrightarrow> lc_closed (jm_conns (closeConn c j) ! c)"
  by (simp_all add: closeConn_def)

lemma join_wf_setPhase:
  assumes "join_wf j" and "at_phase old i j" and "old \<noteq> Finished" and "ph \<noteq> Finished"
    and "ph \<in> {AwaitingOpen, Draining, Reading} \<Longrightarrow> js_rtc (jm_objs j ! i) \<noteq> None"
  shows "join_wf (setPhase ph i j)"
  unfolding setPhase_def
proof (rule join_wf_upd_js[OF assms(1)])
  assume "i < length (jm_objs j)"
  with join_wf_ok[OF assms(1)] assms(2-5)
  show "js_ok (jm_conns j) ((jm_objs j ! i)\<lparr>js_phase := ph\<rparr>)"
    by (auto simp: js_ok_def running_def at_phase_def)
qed (use assms(2-4) in \<open>auto simp: running_def at_phase_def\<close>)

lemma join_wf_finish:
  assumes wf: "join_wf j" and i: "i < length (jm_objs j)" and cl: "lc_closed (jm_conns j ! js_conn (jm_objs j ! i))"
  shows "join_wf (finishIncoming i j)"
proof -
  let ?j = "finishIncoming i j"
  have objs: "jm_objs ?j = (jm_objs j)[i := (jm_objs j ! i)\<lparr>js_phase := Finished\<rparr>]"
    using i by (simp add: finishIncoming_def setPhase_def upd_js_def)
  have fr: "jm_conns ?j = jm_conns j" "jm_stopCh ?j = jm_stopCh j"
    "jm_current ?j = (if jm_current j = Some i then None else jm_current j)"
    by (simp_all add: finishIncoming_def setPhase_def)
  have ok: "js_ok (jm_conns j) (jm_objs ?j ! k)" if "k < length (jm_objs j)" for k
    using join_wf_ok[OF wf that] cl that by (cases "k = i") (auto simp: objs js_ok_def running_def)
  have run: "running (jm_objs ?j ! k) \<longleftrightarrow> k \<noteq> i \<and> running (jm_objs j ! k)"
    and conn: "js_conn (jm_objs ?j ! k) = js_conn (jm_objs j ! k)" if "k < length (jm_objs j)" for k
    using that i by (auto simp: objs nth_list_update running_def)
  have len: "length (jm_objs ?j) = length (jm_objs j)" by (simp add: objs)
  have serve: "\<exists>k < length (jm_objs j). js_conn (jm_objs ?j ! k) = c \<and> running (jm_objs ?j ! k)"
    if c: "c < length (jm_conns j)" "\<not> lc_closed (jm_conns j ! c)" for c
  proof -
    from wf c obtain k where "k < length (jm_objs j)" "js_conn (jm_objs j ! k) = c" "running (jm_objs j ! k)"
      unfolding join_wf_def by blast
    with c cl show ?thesis using run conn by metis
  qed
  have cur: "k < length (jm_objs j) \<and> running (jm_objs ?j ! k)" if "jm_current ?j = Some k" for k
    using that join_wf_current[OF wf, of k] run by (auto simp: fr split: if_splits)
  have one: "jm_current ?j = Some k" if "\<not> jm_stopCh j" "k < length (jm_objs j)" "running (jm_objs ?j ! k)" for k
    using join_wf_single[OF wf that(1,2)] run[OF that(2)] that(3) by (simp add: fr)
  show ?thesis
  proof (rule join_wfI)
    show "js_ok (jm_conns ?j) (jm_objs ?j ! k)" if "k < length (jm_objs ?j)" for k
      using ok that by (simp only: len fr)
    show "k < length (jm_objs ?j) \<and> running (jm_objs ?j ! k)" if "jm_current ?j = Some k" for k
      using cur[OF that] by (simp only: len)
    show "jm_current ?j = Some k" if "\<not> jm_stopCh ?j" "k < length (jm_objs ?j)" "running (jm_objs ?j ! k)" for k
      using one[OF that[unfolded len fr(2)]] .
    show "\<exists>k < length (jm_objs ?j). js_conn (jm_objs ?j ! k) = c \<and> running (jm_objs ?j ! k)"
      if "c < length (jm_conns ?j)" "\<not> lc_closed (jm_conns ?j ! c)" for c
      using serve[OF that[unfolded fr(1)]] by (simp only: len)
  qed
qed

lemma joinSession_close_frame [simp, frame_simps]:
  "jm_current (joinSession_close i j) = jm_current j" "jm_stopCh (joinSession_close i j) = jm_stopCh j"
  "jm_listener (joinSession_close i j) = jm_listener j"
  "jm_sent (joinSession_close i j) = jm_sent j"
  "length (jm_objs (joinSession_close i j)) = length (jm_objs j)"
  "length (jm_conns (joinSession_close i j)) = length (jm_conns j)"
  by (simp_all add: joinSession_close_def Let_def closeConn_def split: option.split)

lemma nth_joinSession_close:
  "k < length (jm_objs j) \<Longrightarrow>
   jm_objs (joinSession_close i j) ! k =
     (if k = i \<and> \<not> js_closed (jm_objs j ! i)
      then (jm_objs j ! k)\<lparr>js_closed := True, js_local := None,
                           js_rtc := map_option Session_Close (js_rtc (jm_objs j ! k))\<rparr>
      else jm_objs j ! k)"
  by (auto simp: joinSession_close_def Let_def split: option.split)

lemma conns_joinSession_close:
  assumes "js_ok (jm_conns j) (jm_objs j ! i)" and "i < length (jm_objs j)"
  shows "jm_conns (joinSession_close i j) = jm_conns (if js_closed (jm_objs j ! i) then j
            else closeConn (js_conn (jm_objs j ! i)) j)"
  using assms by (auto simp: joinSession_close_def js_ok_def Let_def closeConn_def upd_conn_def)

lemma joinSession_close_closes:
  assumes "join_wf j" and "i < length (jm_objs j)"
  shows "lc_closed (jm_conns (joinSession_close i j) ! js_conn (jm_objs j ! i))"
proof -
  note ok = join_wf_ok[OF assms]
  then show ?thesis unfolding conns_joinSession_close[OF ok assms(2)] by (auto simp: js_ok_def)
qed

lemma join_wf_close [intro]:
  assumes wf: "join_wf j"
  shows "join_wf (joinSession_close i j)"
proof (cases "i < length (jm_objs j) \<and> \<not> js_closed (jm_objs j ! i)")
  case True
  let ?s = "jm_objs j ! i"
  let ?f = "\<lambda>s. s\<lparr>js_closed := True, js_local := None, js_rtc := map_option Session_Close (js_rtc s)\<rparr>"
  note ok = join_wf_ok[OF wf conjunct1[OF True]]
  then have eq: "joinSession_close i j = upd_js i ?f (closeConn (js_conn ?s) j)"
    using True by (simp add: joinSession_close_def js_ok_def Let_def upd_js_def closeConn_def upd_conn_def)
  have "js_ok (jm_conns (closeConn (js_conn ?s) j)) ?s"
    using join_wf_ok[OF join_wf_closeConn[OF wf], of i] True by simp
  then have "js_ok (jm_conns (closeConn (js_conn ?s) j)) (?f ?s)"
    using ok by (auto simp: js_ok_def running_def)
  then show ?thesis unfolding eq
    by (intro join_wf_upd_js join_wf_closeConn wf) (simp_all add: running_def)
next
  case False
  have "joinSession_close i j = j" unfolding joinSession_close_def by (rule if_not_P[OF False])
  with wf show ?thesis by simp
qed

lemma join_wf_sessClose [intro]:
  assumes "join_wf j" and "i < length (jm_objs j)"
  shows "join_wf (sessClose i j)"
  unfolding sessClose_def
  by (rule join_wf_finish) (use assms joinSession_close_closes[OF assms] in \<open>auto simp: nth_joinSession_close\<close>)

lemma join_wf_abandon [intro]:
  assumes "join_wf j" and "i < length (jm_objs j)"
  shows "join_wf (abandon i j)"
  unfolding abandon_def
  by (rule join_wf_finish) (use assms join_wf_ok[OF assms] in \<open>auto simp: js_ok_def\<close>)

lemma join_wf_set_rtc:
  assumes "join_wf j" and "r \<noteq> None"
  shows "join_wf (upd_js i (\<lambda>s. s\<lparr>js_rtc := r\<rparr>) j)"
  by (rule join_wf_upd_js[OF assms(1)])
     (use join_wf_ok[OF assms(1)] assms(2) in \<open>auto simp: js_ok_def running_def\<close>)

lemma join_wf_handleIncoming:
  assumes wf: "join_wf j"
  shows "join_wf (handleIncoming sid j)"
proof -
  let ?new = "\<lparr>lc_closed = False, lc_written = []\<rparr>"
  let ?c = "length (jm_conns j)"
  have ok: "js_ok (jm_conns j @ [l]) (jm_objs j ! i)" if "i < length (jm_objs j)" for i l
    using join_wf_ok[OF wf that] by (auto simp: js_ok_def nth_append)
  show ?thesis
  proof (cases "jm_current j")
    case None
    let ?s = "newJoinSession sid ?c"
    let ?j = "j\<lparr>jm_conns := jm_conns j @ [?new], jm_objs := jm_objs j @ [?s], jm_current := Some (length (jm_objs j))\<rparr>"
    have new: "js_ok (jm_conns j @ [?new]) ?s" "running ?s" "js_conn ?s = ?c"
      by (simp_all add: js_ok_def newJoinSession_def running_def)
    have "join_wf ?j"
    proof (rule join_wfI)
      show "\<exists>i < length (jm_objs ?j). js_conn (jm_objs ?j ! i) = c \<and> running (jm_objs ?j ! i)"
        if c: "c < length (jm_conns ?j)" "\<not> lc_closed (jm_conns ?j ! c)" for c
      proof (cases "c = ?c")
        case True
        with new show ?thesis by (intro exI[of _ "length (jm_objs j)"]) simp
      next
        case False
        with c have "c < ?c" "\<not> lc_closed (jm_conns j ! c)" by (auto simp: nth_append)
        from join_wf_served[OF wf this] obtain i where "i < length (jm_objs j)" "js_conn (jm_objs j ! i) = c"
          "running (jm_objs j ! i)" by blast
        then show ?thesis by (intro exI[of _ i]) (simp add: nth_append)
      qed
    qed (use ok new None join_wf_single[OF wf] in \<open>auto simp: nth_append less_Suc_eq\<close>)
    moreover have "handleIncoming sid j = ?j" using None by (simp add: handleIncoming_def Let_def)
    ultimately show ?thesis by simp
  next
    case (Some i)
    then have "handleIncoming sid j = j\<lparr>jm_conns := jm_conns j @ [?new\<lparr>lc_closed := True\<rparr>]\<rparr>"
      by (simp add: handleIncoming_def Let_def closeConn_def upd_conn_def)
    moreover have "join_wf (j\<lparr>jm_conns := jm_conns j @ [?new\<lparr>lc_closed := True\<rparr>]\<rparr>)"
    proof (rule join_wfI, goal_cases)
      case (1 i) then show ?case using ok by simp
    next
      case (2 i) then show ?case using join_wf_current[OF wf, of i] by simp
    next
      case (3 i) then show ?case using join_wf_single[OF wf, of i] by simp
    next
      case (4 c) then show ?case using join_wf_served[OF wf, of c] by (auto simp: nth_append less_Suc_eq split: if_splits)
    qed
    ultimately show ?thesis by simp
  qed
qed

lemma length_set_rtc_at: "at_phase ph i (upd_js i (\<lambda>s. s\<lparr>js_rtc := r\<rparr>) j) \<longleftrightarrow> at_phase ph i j"
  by (auto simp: at_phase_def)

lemma at_phase_sendPeer [simp]: "at_phase ph i (sendPeer m j) \<longleftrightarrow> at_phase ph i j"
  by (simp add: at_phase_def)

lemma join_wf_requestJoin:
  "join_wf j \<Longrightarrow> at_phase WaitingReady i j \<Longrightarrow> join_wf (requestJoin re se i j)"
  by (auto simp: requestJoin_def Let_def at_phase_def intro!: join_wf_setPhase[where old = WaitingReady])

lemma join_wf_awaitHost: "join_wf j \<Longrightarrow> at_phase AwaitingHost i j \<Longrightarrow> join_wf (awaitHost v i j)"
  by (auto simp: awaitHost_def at_phase_def intro!: join_wf_setPhase[where old = AwaitingHost])

lemma startInitiator_result:
  assumes "join_wf j" and "at_phase ph i j" and "startInitiator te p se i j = (failed, j')"
  shows "join_wf j' \<and> at_phase ph i j' \<and> (\<not> failed \<longrightarrow> js_rtc (jm_objs j' ! i) \<noteq> None)"
proof -
  have wf: "join_wf (upd_js i (\<lambda>s. s\<lparr>js_rtc := Some r\<rparr>) j)" for r
    using assms(1) by (rule join_wf_set_rtc) simp
  show ?thesis
    using assms wf
    by (auto simp: startInitiator_def length_set_rtc_at split: if_splits sum.splits prod.splits)
       (auto simp: at_phase_def)
qed

lemma join_wf_initiate:
  assumes "join_wf j" and "at_phase StartingInitiator i j"
  shows "join_wf (initiate te p se i j)"
proof (cases "startInitiator te p se i j")
  case (Pair failed j')
  note r = startInitiator_result[OF assms Pair]
  show ?thesis
  proof (cases failed)
    case True
    then show ?thesis using r by (auto simp: initiate_def Pair at_phase_def)
  next
    case False
    then have "join_wf (setPhase AwaitingOpen i j')"
      using r by (intro join_wf_setPhase[where old = StartingInitiator]) simp_all
    with False show ?thesis by (simp add: initiate_def Pair)
  qed
qed

lemma join_wf_awaitOpen: "join_wf j \<Longrightarrow> at_phase AwaitingOpen i j \<Longrightarrow> join_wf (awaitOpen to i j)"
  by (auto simp: awaitOpen_def at_phase_def split: option.split sum.split
      intro!: join_wf_setPhase[where old = AwaitingOpen])

lemma join_wf_bridgeDrain: "join_wf j \<Longrightarrow> at_phase Draining i j \<Longrightarrow> join_wf (bridgeDrain polls i j)"
  by (auto simp: bridgeDrain_def at_phase_def split: option.split
      intro!: join_wf_setPhase[where old = Draining])

lemma sendChunk_result:
  assumes "join_wf j" and "at_phase Reading i j" and "sendChunk p chunk i j = (e, j')"
  shows "join_wf j' \<and> at_phase Reading i j'"
proof -
  have "join_wf (upd_js i (\<lambda>s. s\<lparr>js_rtc := Some r\<rparr>) j)" for r
    using assms(1) by (rule join_wf_set_rtc) simp
  with assms show ?thesis
    by (auto simp: sendChunk_def length_set_rtc_at split: option.splits prod.splits)
qed

lemma join_wf_bridgeRead:
  assumes "join_wf j" and "at_phase Reading i j"
  shows "join_wf (state_of (bridgeRead p data err i j))"
proof -
  have step: "join_wf (state_of (if b then Done (sessClose i j') else Done (setPhase Draining i j')))"
    if j': "join_wf j'" "at_phase Reading i j'" for b j'
  proof -
    have "js_rtc (jm_objs j' ! i) \<noteq> None"
      using join_wf_ok[OF j'(1), of i] j'(2) by (auto simp: at_phase_def js_ok_def)
    with j' show ?thesis
      by (auto simp: at_phase_def intro!: join_wf_setPhase[where old = Reading])
  qed
  show ?thesis
    using assms step sendChunk_result[OF assms]
    by (cases "sendChunk p (fst (readLocal (the (js_local (jm_objs j ! i))) data err j)) i j")
       (auto simp: bridgeRead_def split: option.split prod.split)
qed

lemma join_wf_joinOnData: "join_wf j \<Longrightarrow> join_wf (joinOnData data i j)"
  by (auto simp: joinOnData_def intro!: join_wf_upd_conn split: option.split)

lemma join_wf_map_rtc:
  assumes "join_wf j"
  shows "join_wf (upd_js i (\<lambda>s. s\<lparr>js_rtc := map_option f (js_rtc s)\<rparr>) j)"
  by (rule join_wf_upd_js[OF assms])
     (use join_wf_ok[OF assms] in \<open>auto simp: js_ok_def running_def\<close>)

lemma join_wf_channels:
  assumes "join_wf j"
  shows "join_wf (upd_js i (\<lambda>s. s\<lparr>js_acceptCh := a\<rparr>) j)" and "join_wf (upd_js i (\<lambda>s. s\<lparr>js_rejectCh := a\<rparr>) j)"
  by (rule join_wf_upd_js[OF assms]; use join_wf_ok[OF assms] in \<open>auto simp: js_ok_def running_def\<close>)+

lemma join_wf_OnFriendJoin: "join_wf j \<Longrightarrow> join_wf (state_of (JoinManager_OnFriendJoin from m j))"
  by (auto simp: JoinManager_OnFriendJoin_def intro: join_wf_channels split: option.split)

lemma join_wf_onWebRtc:
  assumes "join_wf j"
  shows "join_wf (state_of (JoinManager_onWebRtc p from m j))"
proof -
  have rtc: "join_wf (upd_js i (\<lambda>s. s\<lparr>js_rtc := Some r\<rparr>) j)" for i r
    using assms by (rule join_wf_set_rtc) simp
  have "join_wf (state_of (handleAnswer p m j))"
    using assms rtc by (auto simp: handleAnswer_def split: option.split prod.split rtc_error.split)
  moreover have "join_wf (state_of (JoinManager_handleICE m j))"
    using assms rtc by (auto simp: JoinManager_handleICE_def split: option.split prod.split)
  ultimately show ?thesis using assms by (simp add: JoinManager_onWebRtc_def)
qed

lemma join_wf_Close:
  assumes "join_wf j"
  shows "join_wf (state_of (JoinManager_Close j))"
proof -
  have stop: "join_wf (j\<lparr>jm_stopCh := True\<rparr>)"
    and reset: "join_wf ((acceptFailed (j\<lparr>jm_stopCh := True\<rparr>))\<lparr>jm_current := None\<rparr>)"
    using assms by (simp_all add: join_wf_def acceptFailed_def)
  from assms stop show ?thesis
    by (auto simp: JoinManager_Close_def Let_def reset join_wf_close[OF reset] split: option.split)
qed

lemma join_wf_flags:
  "join_wf (j\<lparr>jm_listener := b\<rparr>) \<longleftrightarrow> join_wf j" "join_wf (j\<lparr>jm_doneCh := b\<rparr>) \<longleftrightarrow> join_wf j"
  by (simp_all add: join_wf_def)

lemma join_wf_apply:
  assumes "join_wf j" and "join_enabled ev j"
  shows "join_wf (state_of (join_apply ev j))"
proof -
  have flags: "join_wf (snd (Listen e j))" "join_wf (acceptFailed j)" for e
    using assms(1) by (simp_all add: Listen_def acceptFailed_def join_wf_flags)
  show ?thesis
    using assms flags
    by (cases ev) (simp_all add: join_wf_handleIncoming join_wf_requestJoin join_wf_awaitHost join_wf_initiate
        join_wf_awaitOpen join_wf_bridgeDrain join_wf_bridgeRead joinLocalICE_def join_wf_joinOnData joinOnClose_def
        join_wf_close join_wf_map_rtc join_wf_OnFriendJoin join_wf_onWebRtc join_wf_Close)
qed

lemma join_wf_init: "join_init j \<Longrightarrow> join_wf j"
  by (auto simp: join_init_def NewJoinManager_def join_wf_def)

interpretation join: invariant_system join_init join_step join_wf
  by unfold_locales (auto simp: join_wf_init join_wf_apply elim!: join_stepE)

interpretation join_close: once_guarded
  "joinSession_close i" "\<lambda>j. i < length (jm_objs j) \<longrightarrow> js_closed (jm_objs j ! i)" for i
proof
  fix j
  show "i < length (jm_objs (joinSession_close i j)) \<longrightarrow> js_closed (jm_objs (joinSession_close i j) ! i)"
    by (auto simp: nth_joinSession_close)
  show "joinSession_close i j = j" if "i < length (jm_objs j) \<longrightarrow> js_closed (jm_objs j ! i)"
    unfolding joinSession_close_def using that by (auto simp del: upd_js_frame)
qed

section \<open>Relaying the local connection\<close>

text \<open>The loop of \<^verbatim>\<open>startTcpBridge\<close> over what the polls and the reads of its rounds see.\<close>

fun startTcpBridge :: "pion \<Rightarrow> ((dc_state \<times> nat) list \<times> bytes \<times> bool) list \<Rightarrow> nat \<Rightarrow> JoinManager \<Rightarrow> JoinManager outcome" where
  "startTcpBridge p [] i j = Done j"
| "startTcpBridge p ((polls, data, err) # rounds) i j =
     (let j1 = bridgeDrain polls i j
      in if at_phase Reading i j1
         then andThen (bridgeRead p data err i j1)
                (\<lambda>j2. if at_phase Draining i j2 then startTcpBridge p rounds i j2 else Done j2)
         else Done j1)"

definition linked :: "pion \<Rightarrow> nat \<Rightarrow> Session \<Rightarrow> JoinManager \<Rightarrow> bool" where
  "linked p i rtc j \<longleftrightarrow>
     at_phase Draining i j \<and> \<not> js_closed (jm_objs j ! i) \<and> js_rtc (jm_objs j ! i) = Some rtc \<and>
     js_local (jm_objs j ! i) = Some (js_conn (jm_objs j ! i)) \<and>
     js_conn (jm_objs j ! i) < length (jm_conns j) \<and> \<not> lc_closed (jm_conns j ! js_conn (jm_objs j ! i)) \<and>
     (\<exists>d. dc rtc = Some d \<and> readyState p d = DcOpen \<and> (\<forall>data. dcSend p d data = None))"

definition drains :: "(dc_state \<times> nat) list \<times> bytes \<times> bool \<Rightarrow> bool" where
  "drains r \<longleftrightarrow> drainLoop maxBuffered (fst r) = Some None"

definition sendAll :: "bytes list \<Rightarrow> Session \<Rightarrow> Session" where
  "sendAll chunks rtc = rtc\<lparr>calls := calls rtc @ map DcSend (filter (\<lambda>c. c \<noteq> []) chunks)\<rparr>"

definition afterRead :: "bytes \<Rightarrow> Session \<Rightarrow> nat \<Rightarrow> JoinManager \<Rightarrow> JoinManager" where
  "afterRead data rtc i j = upd_js i (\<lambda>s. s\<lparr>js_rtc := Some (sendAll [data] rtc)\<rparr>) (setPhase Reading i j)"

lemma linked_drain: "linked p i rtc j \<Longrightarrow> drains (polls, r) \<Longrightarrow> bridgeDrain polls i j = setPhase Reading i j"
  by (auto simp: linked_def drains_def bridgeDrain_def WaitForBufferDrain_def)

lemma sendChunk_or_skip:
  assumes "linked p i rtc j"
  shows "(if data = [] then (False, setPhase Reading i j) else sendChunk p data i (setPhase Reading i j)) =
     (False, afterRead data rtc i j)"
proof -
  have self: "s\<lparr>js_phase := ph, js_rtc := Some rtc\<rparr> = s\<lparr>js_phase := ph\<rparr>" if "js_rtc s = Some rtc" for s :: joinSession and ph
    using that by (cases s) simp
  show ?thesis
    using assms
    by (auto simp: self linked_def at_phase_def sendChunk_def Send_def setPhase_def afterRead_def sendAll_def do_call_def
        upd_js_def)
qed

lemma linked_read:
  assumes "linked p i rtc j"
  shows "bridgeRead p data err i (setPhase Reading i j) =
     Done (if err then sessClose i (afterRead data rtc i j) else setPhase Draining i (afterRead data rtc i j))"
proof -
  have "js_local (jm_objs (setPhase Reading i j) ! i) = Some (js_conn (jm_objs j ! i))"
    "readLocal (js_conn (jm_objs j ! i)) data err (setPhase Reading i j) = (data, err)"
    using assms by (auto simp: linked_def at_phase_def setPhase_def readLocal_def)
  then show ?thesis unfolding bridgeRead_def using sendChunk_or_skip[OF assms, of data] by simp
qed

lemma linked_next:
  "linked p i rtc j \<Longrightarrow> linked p i (sendAll [data] rtc) (setPhase Draining i (afterRead data rtc i j))"
  by (auto simp: linked_def at_phase_def setPhase_def afterRead_def sendAll_def)

lemma sendAll_Cons: "sendAll cs (sendAll [c] rtc) = sendAll (c # cs) rtc"
  by (simp add: sendAll_def)

lemma linked_round:
  assumes "linked p i rtc j" and "drains (polls, data, False)"
  shows "startTcpBridge p ((polls, data, False) # rounds) i j =
     startTcpBridge p rounds i (setPhase Draining i (afterRead data rtc i j))"
proof -
  have "at_phase Reading i (setPhase Reading i j)" "at_phase Draining i (setPhase Draining i (afterRead data rtc i j))"
    using assms(1) by (auto simp: linked_def at_phase_def setPhase_def afterRead_def)
  then show ?thesis
    using linked_drain[OF assms] linked_read[OF assms(1), of data False] by (simp add: Let_def)
qed

section \<open>Properties\<close>

text \<open>
  C13. In every state the joining side can reach before it is closed, at most one local connection
  is being bridged, and it is the one in \<^verbatim>\<open>j.current\<close>: a second client is turned away until the first
  session's goroutine has ended.
\<close>

theorem join_single_session:
  assumes "join_step\<^sup>*\<^sup>* (NewJoinManager peer) j" and "\<not> jm_stopCh j"
    and "i < length (jm_objs j)" and "js_phase (jm_objs j ! i) \<noteq> Finished"
  shows "jm_current j = Some i"
proof -
  have "join_wf j" using join.inv_reachable[OF _ assms(1)] by (auto simp: join_init_def)
  then show ?thesis using join_wf_single assms(2-4) by (auto simp: running_def)
qed

definition sample_joining :: JoinManager where
  "sample_joining = handleIncoming ''sid'' (snd (Listen False (NewJoinManager ''peer'')))"

lemma sample_joining_run: "join_step\<^sup>*\<^sup>* (NewJoinManager ''peer'') sample_joining"
proof -
  let ?j = "snd (Listen False (NewJoinManager ''peer''))"
  have "join_step (NewJoinManager ''peer'') ?j"
    using join_event[of "JListen False" "NewJoinManager ''peer''"] by simp
  moreover have "join_step ?j sample_joining"
    using join_event[of "JAccept ''sid''" ?j] by (simp add: sample_joining_def Listen_def)
  ultimately show ?thesis by (meson converse_rtranclp_into_rtranclp rtranclp.rtrancl_refl)
qed

lemma sample_joining_state:
  "jm_stopCh sample_joining = False" "jm_objs sample_joining = [newJoinSession ''sid'' 0]"
  "jm_conns sample_joining = [\<lparr>lc_closed = False, lc_written = []\<rparr>]" "jm_peerPmid sample_joining = ''peer''"
  "jm_current sample_joining = Some 0"
  by (simp_all add: sample_joining_def handleIncoming_def Listen_def NewJoinManager_def Let_def)

theorem join_single_session_witness: "jm_current sample_joining = Some 0"
  by (rule join_single_session[OF sample_joining_run]) (simp_all add: sample_joining_state newJoinSession_def)

text \<open>
  C12. No local connection is left behind: in every reachable state, whatever failed and whoever
  closed what, a connection that is still open belongs to a session whose goroutine is still
  running, so every way out of \<^verbatim>\<open>handleIncoming\<close> closes it.
\<close>

theorem join_connections_served:
  assumes "join_step\<^sup>*\<^sup>* (NewJoinManager peer) j"
    and "c < length (jm_conns j)" and "\<not> lc_closed (jm_conns j ! c)"
  shows "\<exists>i < length (jm_objs j). js_conn (jm_objs j ! i) = c \<and> js_phase (jm_objs j ! i) \<noteq> Finished"
proof -
  have "join_wf j" using join.inv_reachable[OF _ assms(1)] by (auto simp: join_init_def)
  from join_wf_served[OF this assms(2,3)] show ?thesis by (simp add: running_def)
qed

theorem join_connections_served_witness:
  "\<exists>i < length (jm_objs sample_joining). js_conn (jm_objs sample_joining ! i) = 0 \<and>
     js_phase (jm_objs sample_joining ! i) \<noteq> Finished"
  by (rule join_connections_served[OF sample_joining_run]) (simp_all add: sample_joining_state)

text \<open>
  The joining side reacts only to its host and to its current session: a message from another
  player, or one that carries another session id, changes nothing, whatever its type.
\<close>

theorem join_foreign_messages:
  assumes "from \<noteq> jm_peerPmid j \<or> (case jm_current j of None \<Rightarrow> True
             | Some i \<Rightarrow> js_sessionID (jm_objs j ! i) \<noteq> GetSessionID m)"
  shows "JoinManager_OnFriendJoin from m j = Done j \<and> JoinManager_onWebRtc p from m j = Done j"
  using assms
  by (auto simp: JoinManager_OnFriendJoin_def JoinManager_onWebRtc_def handleAnswer_def JoinManager_handleICE_def
      currentFor_def split: option.splits)

theorem join_foreign_messages_witness:
  "JoinManager_OnFriendJoin ''peer'' (JoinAccepted ''old'') sample_joining = Done sample_joining"
  using join_foreign_messages[of "''peer''" sample_joining "JoinAccepted ''old''" undefined]
  by (simp add: sample_joining_state newJoinSession_def)

text \<open>
  C14. \<^verbatim>\<open>startTcpBridge\<close> on an open link sends every chunk it reads, in order and exactly once,
  including a chunk that comes with the final read error; after that error the session is closed,
  the local connection with it, and \<^verbatim>\<open>j.current\<close> is free for the next client.
\<close>

theorem join_relay:
  assumes "linked p i rtc j" and "list_all drains rounds" and "list_all (\<lambda>(polls, data, err). \<not> err) rounds"
    and "drains (polls, final, True)"
  shows "\<exists>j'. startTcpBridge p (rounds @ [(polls, final, True)]) i j = Done j' \<and>
     js_rtc (jm_objs j' ! i) = Some (Session_Close (sendAll (map (fst \<circ> snd) rounds @ [final]) rtc)) \<and>
     lc_closed (jm_conns j' ! js_conn (jm_objs j ! i)) \<and> js_phase (jm_objs j' ! i) = Finished \<and>
     jm_current j' \<noteq> Some i"
  using assms
proof (induction rounds arbitrary: rtc j)
  case Nil
  let ?j = "afterRead final rtc i j"
  have "at_phase Reading i (setPhase Reading i j)" "\<not> at_phase Draining i (sessClose i ?j)"
    using Nil(1) by (auto simp: linked_def at_phase_def setPhase_def sessClose_def finishIncoming_def afterRead_def)
  then have "startTcpBridge p [(polls, final, True)] i j = Done (sessClose i ?j)"
    using linked_drain[OF Nil(1,4)] linked_read[OF Nil(1), of final True] by (simp add: Let_def)
  moreover have "i < length (jm_objs j)" using Nil(1) by (simp add: linked_def at_phase_def)
  moreover have "lc_closed (jm_conns (sessClose i ?j) ! js_conn (jm_objs j ! i))"
    using Nil(1)
    by (auto simp: linked_def at_phase_def sessClose_def finishIncoming_def setPhase_def joinSession_close_def
        afterRead_def Let_def)
  ultimately show ?case
    using Nil(1)
    by (auto simp: linked_def at_phase_def sessClose_def finishIncoming_def setPhase_def nth_joinSession_close
        afterRead_def)
next
  case (Cons r rounds)
  obtain polls' data where r: "r = (polls', data, False)" using Cons.prems(3) by (cases r) auto
  have d: "drains (polls', data, False)" using Cons.prems(2) r by simp
  let ?j = "setPhase Draining i (afterRead data rtc i j)"
  have "js_conn (jm_objs ?j ! i) = js_conn (jm_objs j ! i)"
    using Cons.prems(1) by (auto simp: linked_def at_phase_def setPhase_def afterRead_def)
  with Cons.IH[OF linked_next[OF Cons.prems(1), of data]] Cons.prems(2-4) show ?case
    using linked_round[OF Cons.prems(1) d, of "rounds @ [(polls, final, True)]"] by (simp add: r sendAll_Cons)
qed

definition sample_linked :: JoinManager where
  "sample_linked = upd_js 0 (\<lambda>s. s\<lparr>js_rtc := Some (sample_session\<lparr>dc := Some 0\<rparr>), js_phase := Draining\<rparr>) sample_joining"

lemma sample_linked_ok: "linked sample_pion 0 (sample_session\<lparr>dc := Some 0\<rparr>) sample_linked"
  by (simp add: linked_def at_phase_def sample_linked_def sample_joining_state newJoinSession_def upd_js_def sample_pion_def)

theorem join_relay_witness:
  "\<exists>j'. startTcpBridge sample_pion [([(DcOpen, 9)], [1, 2], False), ([(DcOpen, 0)], [], False), ([(DcOpen, 0)], [3], True)]
          0 sample_linked = Done j' \<and>
     js_rtc (jm_objs j' ! 0) =
       Some (Session_Close (sample_session\<lparr>dc := Some 0, calls := calls sample_session @ [DcSend [1, 2], DcSend [3]]\<rparr>))"
  using join_relay[OF sample_linked_ok, of "[([(DcOpen, 9)], [1, 2], False), ([(DcOpen, 0)], [], False)]" "[(DcOpen, 0)]" "[3]"]
  by (auto simp: drains_def maxBuffered_def sendAll_def)

text \<open>
  A host that accepts the same request twice makes the joining side panic: the second
  \<^verbatim>\<open>JOIN_ACCEPTED\<close> closes a channel that is closed already. The first is taken as meant.
\<close>

theorem join_duplicate_accept_panics:
  assumes "jm_current j = Some i" and "i < length (jm_objs j)" and "\<not> js_acceptCh (jm_objs j ! i)"
  shows "\<exists>j'. JoinManager_OnFriendJoin (jm_peerPmid j) (JoinAccepted (js_sessionID (jm_objs j ! i))) j = Done j' \<and>
     js_acceptCh (jm_objs j' ! i) \<and>
     JoinManager_OnFriendJoin (jm_peerPmid j) (JoinAccepted (js_sessionID (jm_objs j ! i))) j' = Panic j'"
  using assms by (auto simp: JoinManager_OnFriendJoin_def currentFor_def)

theorem join_duplicate_accept_panics_witness:
  "\<exists>j'. JoinManager_OnFriendJoin ''peer'' (JoinAccepted ''sid'') sample_joining = Done j' \<and>
     JoinManager_OnFriendJoin ''peer'' (JoinAccepted ''sid'') j' = Panic j'"
  using join_duplicate_accept_panics[of sample_joining 0] by (auto simp: sample_joining_state newJoinSession_def)

text \<open>
  The bridge loop reads \<^verbatim>\<open>s.local\<close> after its wait for the send queue: if the data channel's
  close callback runs in between, the field is nil and the read panics, on a goroutine where
  nothing recovers it.
\<close>

theorem join_read_after_close_panics:
  assumes "linked p i rtc j" and "drains (polls, data, err)"
  shows "at_phase Reading i (joinOnClose i (bridgeDrain polls i j)) \<and>
     bridgeRead p data err i (joinOnClose i (bridgeDrain polls i j)) = Panic (joinOnClose i (bridgeDrain polls i j))"
proof -
  have i: "i < length (jm_objs j)" "\<not> js_closed (jm_objs j ! i)" using assms(1) by (auto simp: linked_def at_phase_def)
  let ?j = "joinOnClose i (setPhase Reading i j)"
  have "jm_objs ?j ! i = (jm_objs j ! i)\<lparr>js_phase := Reading, js_closed := True, js_local := None,
      js_rtc := map_option Session_Close (js_rtc (jm_objs j ! i))\<rparr>"
    using i by (simp add: joinOnClose_def nth_joinSession_close setPhase_def)
  moreover have "i < length (jm_objs ?j)" using i by (simp add: joinOnClose_def setPhase_def)
  ultimately show ?thesis
    unfolding linked_drain[OF assms] by (simp add: at_phase_def bridgeRead_def)
qed

theorem join_read_after_close_panics_witness:
  "\<exists>j. bridgeRead sample_pion [1] False 0 j = Panic j \<and> at_phase Reading 0 j"
  using join_read_after_close_panics[OF sample_linked_ok, of "[(DcOpen, 0)]" "[1]" False]
  by (auto simp: drains_def)

text \<open>
  \<^verbatim>\<open>JoinManager.Close\<close>: with the listener up, the first call completes, leaves no current
  session and closes the local connection of the session that was current; a second call panics.
  Without a successful \<^verbatim>\<open>Listen\<close> the call never returns, since nobody closes \<^verbatim>\<open>doneCh\<close>.
\<close>

theorem join_close_outcome:
  assumes "join_wf j" and "\<not> jm_stopCh j"
  shows "(jm_listener j \<longrightarrow> (\<exists>j'. JoinManager_Close j = Done j' \<and> jm_current j' = None \<and>
            (\<forall>i. jm_current j = Some i \<longrightarrow> lc_closed (jm_conns j' ! js_conn (jm_objs j ! i))) \<and>
            JoinManager_Close j' = Panic j')) \<and>
         (\<not> jm_listener j \<longrightarrow> (\<exists>j'. JoinManager_Close j = Hang j'))"
proof (intro conjI impI)
  assume "\<not> jm_listener j"
  with assms(2) show "\<exists>j'. JoinManager_Close j = Hang j'" by (simp add: JoinManager_Close_def Let_def)
next
  assume l: "jm_listener j"
  let ?j = "(acceptFailed (j\<lparr>jm_stopCh := True\<rparr>))\<lparr>jm_current := None\<rparr>"
  have wf: "join_wf ?j" using assms(1) by (simp add: join_wf_def acceptFailed_def)
  have objs: "jm_objs ?j = jm_objs j" by (simp add: acceptFailed_def)
  have stop: "jm_stopCh ?j" by (simp add: acceptFailed_def)
  show "\<exists>j'. JoinManager_Close j = Done j' \<and> jm_current j' = None \<and>
          (\<forall>i. jm_current j = Some i \<longrightarrow> lc_closed (jm_conns j' ! js_conn (jm_objs j ! i))) \<and>
          JoinManager_Close j' = Panic j'"
  proof (cases "jm_current j")
    case None
    then show ?thesis using assms(2) l stop
      by (intro exI[of _ ?j]) (simp add: JoinManager_Close_def Let_def)
  next
    case (Some i)
    have i: "i < length (jm_objs ?j)" using join_wf_current[OF assms(1) Some] by (simp add: objs)
    then show ?thesis using assms(2) l stop Some joinSession_close_closes[OF wf i]
      by (intro exI[of _ "joinSession_close i ?j"]) (simp add: JoinManager_Close_def Let_def objs)
  qed
qed

theorem join_close_outcome_witness:
  "\<exists>j'. JoinManager_Close sample_joining = Done j' \<and> lc_closed (jm_conns j' ! 0)"
proof -
  have "join_wf sample_joining" using join.inv_reachable[OF _ sample_joining_run] by (auto simp: join_init_def)
  moreover have "jm_listener sample_joining"
    by (simp add: sample_joining_def handleIncoming_def Listen_def Let_def NewJoinManager_def)
  ultimately show ?thesis
    using join_close_outcome[of sample_joining] by (auto simp: sample_joining_state newJoinSession_def)
qed

end
