(* ===== verification/Signaling.thy ===== *)
theory Signaling
  imports Messages "HOL-Library.Sublist"
begin

text \<open>
  The signaling client, \<^verbatim>\<open>src/internal/signaling\<close> (\<^verbatim>\<open>client.go\<close>, \<^verbatim>\<open>transport.go\<close>, \<^verbatim>\<open>jsonrpc.go\<close>,
  \<^verbatim>\<open>dispatch.go\<close>, \<^verbatim>\<open>turn.go\<close>): a WebSocket that is kept connected with exponential backoff, JSON-RPC
  calls matched to their answers by id, and incoming messages handed to the bridge.

  The client's goroutines are the field \<^verbatim>\<open>agents\<close>, each at the point where it waits: \<^verbatim>\<open>Attempt\<close> is about
  to check \<^verbatim>\<open>closed\<close>, \<^verbatim>\<open>Dialing\<close> is inside \<^verbatim>\<open>doConnect\<close>, \<^verbatim>\<open>Finishing\<close> has connected and is about to
  reset the backoff, \<^verbatim>\<open>Timer\<close> waits out a backoff delay, \<^verbatim>\<open>Reader\<close> is blocked in \<^verbatim>\<open>ws.Read\<close>. The ping
  loop lives as long as \<^verbatim>\<open>pingCancel\<close> is set. HTTP answers, the outcome of dialling and of writing
  to the socket, \<^verbatim>\<open>uuid.Parse\<close> (google/uuid) and the parser for the JSON text inside a message are
  arguments. Durations are nanoseconds.
\<close>

section \<open>Model\<close>

definition second :: int where "second = 1000000000"
definition pingInterval :: int where "pingInterval = 50 * second"
definition initialBackoff :: int where "initialBackoff = 1 * second"
definition maxBackoff :: int where "maxBackoff = 30 * second"

datatype agent = Attempt | Dialing | Finishing | Timer int | Reader nat

text \<open>A channel of \<^verbatim>\<open>sendRequestAwait\<close>: empty, holding the result and closed, or closed without one.\<close>

datatype chan = ChanEmpty | ChanResult json | ChanClosed

record Client =
  ws :: "nat option"
  connecting :: bool
  closed :: bool
  backoff :: int
  pingCancel :: bool
  rpcID :: int64
  pending :: "int64 \<rightharpoonup> nat"
  chans :: "chan list"
  ready :: bool
  agents :: "agent list"
  refreshes :: nat
  wire :: "json list"

definition NewClient :: Client where
  "NewClient = \<lparr>ws = None, connecting = False, closed = False, backoff = initialBackoff, pingCancel = False,
     rpcID = 0, pending = Map.empty, chans = [], ready = False, agents = [], refreshes = 0, wire = []\<rparr>"

definition markReady :: "Client \<Rightarrow> Client" where
  "markReady c = (if ready c then c else c\<lparr>ready := True\<rparr>)"

definition resetReady :: "Client \<Rightarrow> Client" where
  "resetReady c = (if ready c then c\<lparr>ready := False\<rparr> else c)"

text \<open>\<^verbatim>\<open>WaitReady\<close> waits on the channel it finds; \<^verbatim>\<open>None\<close> is still waiting.\<close>

definition WaitReady :: "bool \<Rightarrow> Client \<Rightarrow> go_error option option" where
  "WaitReady ctxDone c =
     (if ready c then Some None else if ctxDone then Some (Some ''context deadline exceeded'') else None)"

definition Connect :: "Client \<Rightarrow> Client" where
  "Connect c =
     (if closed c \<or> ws c \<noteq> None \<or> connecting c then c
      else c\<lparr>connecting := True, agents := agents c @ [Attempt]\<rparr>)"

definition Client_Close :: "Client \<Rightarrow> Client" where
  "Client_Close c = c\<lparr>closed := True, ws := None, pingCancel := False\<rparr>"

subsection \<open>Sending\<close>

text \<open>\<^verbatim>\<open>writeErr\<close> is the error of writing to the socket.\<close>

definition sendJSON :: "go_error option \<Rightarrow> json \<Rightarrow> Client \<Rightarrow> go_error option \<times> Client" where
  "sendJSON writeErr v c =
     (case ws c of
        None \<Rightarrow> (Some ''ws not connected'', c)
      | Some conn \<Rightarrow> (writeErr, if writeErr = None then c\<lparr>wire := wire c @ [v]\<rparr> else c))"

definition rpcBody :: "int64 option \<Rightarrow> string \<Rightarrow> json option \<Rightarrow> json" where
  "rpcBody i method params =
     JObj ((case i of None \<Rightarrow> [] | Some n \<Rightarrow> [(''id'', JNum (of_int (sint n)))]) @
           [(''jsonrpc'', JStr ''2.0''), (''method'', JStr method)] @
           (case params of None \<Rightarrow> [] | Some p \<Rightarrow> [(''params'', p)]))"

definition sendNotification :: "go_error option \<Rightarrow> string \<Rightarrow> json option \<Rightarrow> Client \<Rightarrow> go_error option \<times> Client" where
  "sendNotification writeErr method params c = sendJSON writeErr (rpcBody None method params) c"

definition sendRequest :: "go_error option \<Rightarrow> string \<Rightarrow> json option \<Rightarrow> Client \<Rightarrow> go_error option \<times> Client" where
  "sendRequest writeErr method params c =
     (let i = rpcID c + 1
      in sendJSON writeErr (rpcBody (Some i) method params) (c\<lparr>rpcID := i\<rparr>))"

definition sendResponse :: "go_error option \<Rightarrow> json \<Rightarrow> json \<Rightarrow> Client \<Rightarrow> go_error option \<times> Client" where
  "sendResponse writeErr i result c =
     sendJSON writeErr (JObj [(''id'', i), (''jsonrpc'', JStr ''2.0''), (''result'', result)]) c"

definition SendClientMessage :: "go_error option \<Rightarrow> uuid \<Rightarrow> string \<Rightarrow> Client \<Rightarrow> go_error option \<times> Client" where
  "SendClientMessage writeErr toPmid encoded c =
     sendRequest writeErr ''Signaling_SendClientMessage_v1_0'' (Some (JArr [JNull, JStr toPmid, JStr encoded])) c"

text \<open>\<^verbatim>\<open>sendRequestAwait\<close> up to its \<^verbatim>\<open>select\<close>: the id and the channel it waits on, or the error of
  sending; then the \<^verbatim>\<open>select\<close> itself, which is still waiting while neither branch is ready
  (\<^verbatim>\<open>None\<close>) and may take either when both are.\<close>

definition awaitStart ::
    "go_error option \<Rightarrow> string \<Rightarrow> json option \<Rightarrow> Client \<Rightarrow> (go_error + int64 \<times> nat) \<times> Client" where
  "awaitStart writeErr method params c =
     (let i = rpcID c + 1; ch = length (chans c);
          c1 = c\<lparr>rpcID := i, chans := chans c @ [ChanEmpty], pending := (pending c)(i \<mapsto> ch)\<rparr>
      in (case sendJSON writeErr (rpcBody (Some i) method params) c1 of
            (None, c2) \<Rightarrow> (Inr (i, ch), c2)
          | (Some e, c2) \<Rightarrow> (Inl e, c2\<lparr>pending := (pending c2)(i := None)\<rparr>)))"

definition awaitSelect :: "bool \<Rightarrow> int64 \<Rightarrow> nat \<Rightarrow> Client \<Rightarrow> (go_error + json) option \<times> Client" where
  "awaitSelect takeCtx i ch c =
     (if takeCtx then (Some (Inl ''context deadline exceeded''), c\<lparr>pending := (pending c)(i := None)\<rparr>)
      else (case chans c ! ch of
              ChanEmpty \<Rightarrow> (None, c)
            | ChanResult raw \<Rightarrow> (Some (Inr raw), c)
            | ChanClosed \<Rightarrow> (Some (Inl ''rpc returned error''), c)))"

subsection \<open>Receiving\<close>

record rpcMessage =
  msgID :: "json option"
  Method :: string
  Params :: "json option"
  Result :: "json option"
  Error :: "json option"

definition unmarshalRpc :: "json \<Rightarrow> rpcMessage option" where
  "unmarshalRpc v =
     (case v of
        JNull \<Rightarrow> Some \<lparr>msgID = None, Method = '''', Params = None, Result = None, Error = None\<rparr>
      | JObj m \<Rightarrow>
          (case (strField (jfields ''jsonrpc'' m), strField (jfields ''method'' m)) of
             (Some _, Some meth) \<Rightarrow>
               Some \<lparr>msgID = rawField (jfields ''id'' m), Method = meth, Params = rawField (jfields ''params'' m),
                     Result = rawField (jfields ''result'' m), Error = rawField (jfields ''error'' m)\<rparr>
           | _ \<Rightarrow> None)
      | _ \<Rightarrow> None)"

text \<open>\<^verbatim>\<open>json.Unmarshal\<close> of the id into an \<^verbatim>\<open>int64\<close>; null leaves 0.\<close>

definition unmarshalInt64 :: "json \<Rightarrow> int64 option" where
  "unmarshalInt64 v =
     (case v of
        JNull \<Rightarrow> Some 0
      | JNum r \<Rightarrow> if r = of_int \<lfloor>r\<rfloor> \<and> - (2 ^ 63) \<le> \<lfloor>r\<rfloor> \<and> \<lfloor>r\<rfloor> < 2 ^ 63 then Some (of_int \<lfloor>r\<rfloor>) else None
      | _ \<Rightarrow> None)"

text \<open>A message for the bridge.\<close>

datatype dispatch = ToJoin uuid payload | ToRtc uuid payload

definition routed :: "uuid \<Rightarrow> payload \<Rightarrow> dispatch option" where
  "routed fromPmid payload =
     (let typ = jstr ''type'' payload
      in if prefix ''JOIN_'' typ \<or> typ = ''INVITE_DECLINED'' then Some (ToJoin fromPmid payload)
         else if typ = ''OFFER'' \<or> typ = ''ANSWER'' \<or> typ = ''ICE_CANDIDATE'' then Some (ToRtc fromPmid payload)
         else None)"

text \<open>The parameters are parsed as an array of objects; the inner message is JSON text of its own. The
  request is acknowledged before anything is parsed.\<close>

definition unmarshalObjects :: "json \<Rightarrow> payload list option" where
  "unmarshalObjects v =
     (case v of
        JNull \<Rightarrow> Some []
      | JArr vs \<Rightarrow>
          if list_all (\<lambda>x. case x of JObj m \<Rightarrow> True | JNull \<Rightarrow> True | _ \<Rightarrow> False) vs
          then Some (map (\<lambda>x. case x of JObj m \<Rightarrow> m | _ \<Rightarrow> []) vs) else None
      | _ \<Rightarrow> None)"

definition receivedMessage ::
    "(string \<Rightarrow> uuid option) \<Rightarrow> (string \<Rightarrow> json option) \<Rightarrow> json option \<Rightarrow> dispatch option" where
  "receivedMessage uuid_parse json_parse params =
     (case Option.bind params unmarshalObjects of
        Some (envelope # _) \<Rightarrow>
          (case uuid_parse (jstr ''From'' envelope) of
             None \<Rightarrow> None
           | Some fromPmid \<Rightarrow>
               (case Option.bind (json_parse (jstr ''Message'' envelope)) unmarshalPayload of
                  None \<Rightarrow> None
                | Some payload \<Rightarrow> routed fromPmid payload))
      | _ \<Rightarrow> None)"

definition handleReceiveMessage ::
    "(string \<Rightarrow> uuid option) \<Rightarrow> (string \<Rightarrow> json option) \<Rightarrow> go_error option \<Rightarrow> json option \<Rightarrow> json option \<Rightarrow> Client \<Rightarrow>
     dispatch option \<times> Client" where
  "handleReceiveMessage uuid_parse json_parse writeErr i params c =
     (receivedMessage uuid_parse json_parse params,
      case i of
        Some v \<Rightarrow> if v \<noteq> JNull then snd (sendResponse writeErr v (JObj []) c) else c
      | None \<Rightarrow> c)"

definition handleIncomingMethod ::
    "(string \<Rightarrow> uuid option) \<Rightarrow> (string \<Rightarrow> json option) \<Rightarrow> go_error option \<Rightarrow> json option \<Rightarrow> string \<Rightarrow> json option \<Rightarrow>
     Client \<Rightarrow> dispatch option \<times> Client" where
  "handleIncomingMethod uuid_parse json_parse writeErr i method params c =
     (if method = ''System_Pong_v1_0'' then (None, c)
      else if method = ''Signaling_ReceiveMessage_v1_0''
      then handleReceiveMessage uuid_parse json_parse writeErr i params c
      else (None, c))"

text \<open>An answer goes to the channel that waits for its id. A send on a closed channel, and closing
  one, panic.\<close>

definition resolve :: "int64 \<Rightarrow> json option \<Rightarrow> Client \<Rightarrow> Client outcome" where
  "resolve i answer c =
     (case pending c i of
        None \<Rightarrow> Done c
      | Some ch \<Rightarrow>
          let c1 = c\<lparr>pending := (pending c)(i := None)\<rparr>
          in if ch < length (chans c) \<and> chans c ! ch = ChanEmpty
             then Done (c1\<lparr>chans := (chans c)[ch := case answer of None \<Rightarrow> ChanClosed | Some r \<Rightarrow> ChanResult r]\<rparr>)
             else Panic c1)"

definition handleMessage ::
    "(string \<Rightarrow> uuid option) \<Rightarrow> (string \<Rightarrow> json option) \<Rightarrow> go_error option \<Rightarrow> json \<Rightarrow> Client \<Rightarrow>
     dispatch option \<times> Client outcome" where
  "handleMessage uuid_parse json_parse writeErr raw c =
     (case unmarshalRpc raw of
        None \<Rightarrow> (None, Done c)
      | Some msg \<Rightarrow>
          if Method msg \<noteq> ''''
          then (case handleIncomingMethod uuid_parse json_parse writeErr (msgID msg) (Method msg) (Params msg) c of
                  (d, c') \<Rightarrow> (d, Done c'))
          else (case msgID msg of
                  None \<Rightarrow> (None, Done c)
                | Some i \<Rightarrow>
                    if Result msg = None \<and> Error msg = None then (None, Done c)
                    else (case unmarshalInt64 i of
                            None \<Rightarrow> (None, Done c)
                          | Some idNum \<Rightarrow>
                              (None, resolve idNum (if Error msg \<noteq> None then None else Result msg) c))))"

text \<open>\<^verbatim>\<open>safeCall\<close>: a panic of a listener is recovered; a listener that never returns is not.\<close>

definition safeCall :: "'s outcome \<Rightarrow> 's outcome" where
  "safeCall r = (case r of Panic s \<Rightarrow> Done s | _ \<Rightarrow> r)"

subsection \<open>TURN credentials\<close>

record TurnAuth =
  Username :: string
  Password :: string
  URLs :: "string list"

text \<open>\<^verbatim>\<open>json.Unmarshal\<close> into a slice of strings, and of the server list.\<close>

definition strElem :: "json \<Rightarrow> string option" where
  "strElem v = (case v of JStr s \<Rightarrow> Some s | JNull \<Rightarrow> Some '''' | _ \<Rightarrow> None)"

definition unmarshalStrings :: "json option \<Rightarrow> string list option" where
  "unmarshalStrings v =
     (case v of
        None \<Rightarrow> Some []
      | Some JNull \<Rightarrow> Some []
      | Some (JArr vs) \<Rightarrow> if list_all (\<lambda>x. strElem x \<noteq> None) vs then Some (map (the \<circ> strElem) vs) else None
      | _ \<Rightarrow> None)"

definition unmarshalServer :: "json \<Rightarrow> TurnAuth option" where
  "unmarshalServer v =
     (case v of
        JNull \<Rightarrow> Some \<lparr>Username = '''', Password = '''', URLs = []\<rparr>
      | JObj m \<Rightarrow>
          (case (strField (jfields ''Username'' m), strField (jfields ''Password'' m),
                 unmarshalStrings (rawField (jfields ''Urls'' m))) of
             (Some u, Some p, Some us) \<Rightarrow> Some \<lparr>Username = u, Password = p, URLs = us\<rparr>
           | _ \<Rightarrow> None)
      | _ \<Rightarrow> None)"

definition unmarshalServers :: "json \<Rightarrow> TurnAuth list option" where
  "unmarshalServers v =
     (case v of
        JNull \<Rightarrow> Some []
      | JObj m \<Rightarrow>
          (case rawField (jfields ''TurnAuthServers'' m) of
             None \<Rightarrow> Some []
           | Some JNull \<Rightarrow> Some []
           | Some (JArr vs) \<Rightarrow>
               if list_all (\<lambda>x. unmarshalServer x \<noteq> None) vs then Some (map (the \<circ> unmarshalServer) vs) else None
           | _ \<Rightarrow> None)
      | _ \<Rightarrow> None)"

text \<open>\<^verbatim>\<open>RequestTurnAuth\<close> from the answer of its call on.\<close>

definition turnAuth :: "go_error + json \<Rightarrow> go_error + TurnAuth" where
  "turnAuth answer =
     (case answer of
        Inl e \<Rightarrow> Inl e
      | Inr raw \<Rightarrow>
          (case unmarshalServers raw of
             None \<Rightarrow> Inl ''json: cannot unmarshal''
           | Some [] \<Rightarrow> Inl ''turn auth returned no servers''
           | Some (s # ss) \<Rightarrow>
               Inr \<lparr>Username = Username s, Password = Password s, URLs = concat (map URLs (s # ss))\<rparr>))"

definition RequestTurnAuth :: "go_error option \<Rightarrow> Client \<Rightarrow> (go_error + int64 \<times> nat) \<times> Client" where
  "RequestTurnAuth writeErr c = awaitStart writeErr ''Signaling_TurnAuth_v1_0'' (Some (JArr [])) c"

subsection \<open>Connecting\<close>

text \<open>One HTTP exchange: a transport error, or the status with the body as text and as parsed.\<close>

datatype http_result = HttpErr go_error | HttpResp nat string "json option"

definition RefreshNow :: "Client \<Rightarrow> Client" where
  "RefreshNow c = c\<lparr>refreshes := refreshes c + 1\<rparr>"

definition configURI :: "nat \<Rightarrow> string \<Rightarrow> json option \<Rightarrow> go_error + string" where
  "configURI status raw body =
     (if status \<noteq> 200 then Inl (''signaling config failed: status='' @ show_nat status @ '' body='' @ raw)
      else (case Option.bind body unmarshalPayload of
              None \<Rightarrow> Inl ''invalid character in config response''
            | Some j \<Rightarrow>
                let uri = (case jget ''result'' j of Some (JObj result) \<Rightarrow> jstr ''signalingUri'' result | _ \<Rightarrow> '''')
                in if uri = '''' then Inl ''missing signalingUri in config response'' else Inr uri))"

text \<open>\<^verbatim>\<open>fetchSignalingURI\<close>: a 401 refreshes the token and asks once more; \<^verbatim>\<open>first\<close> and \<^verbatim>\<open>again\<close> are what
  the two exchanges answer.\<close>

definition fetchSignalingURI :: "http_result \<Rightarrow> http_result \<Rightarrow> Client \<Rightarrow> (go_error + string) \<times> Client" where
  "fetchSignalingURI first again c =
     (case first of
        HttpErr e \<Rightarrow> (Inl e, c)
      | HttpResp status raw body \<Rightarrow>
          if status = 401
          then (case again of
                  HttpErr e \<Rightarrow> (Inl e, RefreshNow c)
                | HttpResp status' raw' body' \<Rightarrow> (configURI status' raw' body', RefreshNow c))
          else (configURI status raw body, c))"

text \<open>\<^verbatim>\<open>doConnect\<close> on a fresh connection \<^verbatim>\<open>conn\<close>; on success the read loop starts.\<close>

definition doConnect ::
    "http_result \<Rightarrow> http_result \<Rightarrow> go_error option \<Rightarrow> nat \<Rightarrow> Client \<Rightarrow> go_error option \<times> Client" where
  "doConnect first again dialErr conn c =
     (case fetchSignalingURI first again c of
        (Inl e, c1) \<Rightarrow> (Some e, c1)
      | (Inr uri, c1) \<Rightarrow>
          (case dialErr of
             Some e \<Rightarrow> (Some e, c1)
           | None \<Rightarrow>
               let c2 = markReady (c1\<lparr>ws := Some conn, pingCancel := True\<rparr>)
               in (None, c2\<lparr>agents := agents c2 @ [Reader conn]\<rparr>)))"

definition scheduleReconnect :: "go_error \<Rightarrow> Client \<Rightarrow> Client" where
  "scheduleReconnect cause c =
     (if closed c then c
      else let delay = backoff c;
               b = backoff c * 2;
               c1 = c\<lparr>ws := None, connecting := True, backoff := (if b > maxBackoff then maxBackoff else b)\<rparr>;
               c2 = (if sublist ''status=401'' cause then RefreshNow c1 else c1)
           in c2\<lparr>agents := agents c2 @ [Timer delay]\<rparr>)"

text \<open>\<^verbatim>\<open>attemptConnect\<close> in three parts: the check of \<^verbatim>\<open>closed\<close>, \<^verbatim>\<open>doConnect\<close> with the failure branch, and
  the reset after a success. A goroutine that has nothing left to do is gone from \<^verbatim>\<open>agents\<close>.\<close>

definition attemptConnect :: "Client \<Rightarrow> Client" where
  "attemptConnect c = (if closed c then c else c\<lparr>agents := agents c @ [Dialing]\<rparr>)"

definition attemptDial ::
    "http_result \<Rightarrow> http_result \<Rightarrow> go_error option \<Rightarrow> nat \<Rightarrow> Client \<Rightarrow> Client" where
  "attemptDial first again dialErr conn c =
     (case doConnect first again dialErr conn c of
        (None, c1) \<Rightarrow> c1\<lparr>agents := agents c1 @ [Finishing]\<rparr>
      | (Some e, c1) \<Rightarrow> scheduleReconnect e c1)"

definition attemptFinish :: "Client \<Rightarrow> Client" where
  "attemptFinish c = c\<lparr>backoff := initialBackoff, connecting := False\<rparr>"

definition handleClose :: "go_error \<Rightarrow> Client \<Rightarrow> Client" where
  "handleClose cause c = scheduleReconnect cause (resetReady (c\<lparr>pingCancel := False, ws := None\<rparr>))"

definition pingTick :: "go_error option \<Rightarrow> Client \<Rightarrow> Client" where
  "pingTick writeErr c =
     (if pingCancel c then snd (sendNotification writeErr ''System_Ping_v1_0'' None c) else c)"

subsection \<open>The client as a machine\<close>

datatype sig_event =
    SAttempt
  | SDial http_result http_result "go_error option" nat
  | SFinish
  | STimer int bool
  | SRead nat "string \<Rightarrow> uuid option" "string \<Rightarrow> json option" "go_error option" json
  | SReadEnd nat go_error
  | SPing "go_error option"
  | SSend "go_error option" uuid string
  | SAwait "go_error option" string "json option"
  | SSelect bool int64 nat
  | SClose

definition drop_agent :: "agent \<Rightarrow> Client \<Rightarrow> Client" where
  "drop_agent a c = c\<lparr>agents := remove1 a (agents c)\<rparr>"

fun sig_apply :: "sig_event \<Rightarrow> Client \<Rightarrow> Client outcome" where
  "sig_apply SAttempt c = Done (attemptConnect (drop_agent Attempt c))"
| "sig_apply (SDial first again err conn) c = Done (attemptDial first again err conn (drop_agent Dialing c))"
| "sig_apply SFinish c = Done (attemptFinish (drop_agent Finishing c))"
| "sig_apply (STimer d cancelled) c =
     Done (if cancelled then drop_agent (Timer d) c else attemptConnect (drop_agent (Timer d) c))"
| "sig_apply (SRead conn up jp err raw) c = snd (handleMessage up jp err raw c)"
| "sig_apply (SReadEnd conn cause) c = Done (handleClose cause (drop_agent (Reader conn) c))"
| "sig_apply (SPing err) c = Done (pingTick err c)"
| "sig_apply (SSend err to m) c = Done (snd (SendClientMessage err to m c))"
| "sig_apply (SAwait err meth ps) c = Done (snd (awaitStart err meth ps c))"
| "sig_apply (SSelect ctx i ch) c = Done (snd (awaitSelect ctx i ch c))"
| "sig_apply SClose c = Done (Client_Close c)"

text \<open>A goroutine moves where it stands; the context of a timer is cancelled only by \<^verbatim>\<open>Close\<close>, and
  reads go on while the reader lives.\<close>

fun sig_enabled :: "sig_event \<Rightarrow> Client \<Rightarrow> bool" where
  "sig_enabled SAttempt c \<longleftrightarrow> Attempt \<in> set (agents c)"
| "sig_enabled (SDial first again err conn) c \<longleftrightarrow> Dialing \<in> set (agents c)"
| "sig_enabled SFinish c \<longleftrightarrow> Finishing \<in> set (agents c)"
| "sig_enabled (STimer d cancelled) c \<longleftrightarrow> Timer d \<in> set (agents c) \<and> (cancelled \<longrightarrow> closed c)"
| "sig_enabled (SRead conn up jp err raw) c \<longleftrightarrow> Reader conn \<in> set (agents c)"
| "sig_enabled (SReadEnd conn cause) c \<longleftrightarrow> Reader conn \<in> set (agents c)"
| "sig_enabled (SSelect ctx i ch) c \<longleftrightarrow> ch < length (chans c)"
| "sig_enabled _ c \<longleftrightarrow> True"

inductive sig_step :: "Client \<Rightarrow> Client \<Rightarrow> bool" where
  sig_event: "sig_enabled ev c \<Longrightarrow> sig_step c (state_of (sig_apply ev c))"

inductive_cases sig_stepE: "sig_step c c'"

definition sig_init :: "Client \<Rightarrow> bool" where
  "sig_init c \<longleftrightarrow> c = Connect NewClient"

section \<open>The connection\<close>

definition workers :: "Client \<Rightarrow> agent list" where
  "workers c = filter (\<lambda>a. a \<noteq> Finishing) (agents c)"

definition backoffs :: "int list" where
  "backoffs = map (\<lambda>k. k * second) [1, 2, 4, 8, 16, 30]"

definition conn_wf :: "Client \<Rightarrow> bool" where
  "conn_wf c \<longleftrightarrow>
     length (workers c) \<le> 1 \<and>
     (\<not> closed c \<longrightarrow> workers c \<noteq> []) \<and>
     (ready c \<longleftrightarrow> (\<exists>n. workers c = [Reader n])) \<and>
     (\<forall>n. ws c = Some n \<longrightarrow> workers c = [Reader n]) \<and>
     (\<not> closed c \<and> ready c \<longrightarrow> ws c \<noteq> None) \<and>
     backoff c \<in> set backoffs"

lemma worker_unique:
  assumes "conn_wf c" and "a \<in> set (agents c)" and "a \<noteq> Finishing"
  shows "workers c = [a]"
proof -
  have "a \<in> set (workers c)" using assms(2,3) by (simp add: workers_def)
  moreover have "length (workers c) \<le> 1" using assms(1) by (simp add: conn_wf_def)
  ultimately show ?thesis by (cases "workers c") auto
qed

lemma workers_drop [simp]: "workers (drop_agent a c) = remove1 a (workers c)"
  by (simp add: workers_def drop_agent_def filter_remove1)

lemma drop_agent_frame [simp, frame_simps]:
  "ws (drop_agent a c) = ws c" "closed (drop_agent a c) = closed c" "ready (drop_agent a c) = ready c"
  "backoff (drop_agent a c) = backoff c" "pending (drop_agent a c) = pending c" "chans (drop_agent a c) = chans c"
  by (simp_all add: drop_agent_def)

lemma workers_update [simp]:
  "workers (c\<lparr>agents := agents c @ [a]\<rparr>) = workers c @ (if a = Finishing then [] else [a])"
  "workers (c\<lparr>ws := w\<rparr>) = workers c" "workers (c\<lparr>connecting := b\<rparr>) = workers c" "workers (c\<lparr>backoff := d\<rparr>) = workers c"
  "workers (c\<lparr>pingCancel := b\<rparr>) = workers c" "workers (c\<lparr>ready := b\<rparr>) = workers c" "workers (c\<lparr>closed := b\<rparr>) = workers c"
  "workers (c\<lparr>refreshes := n\<rparr>) = workers c" "workers (c\<lparr>pending := p\<rparr>) = workers c" "workers (c\<lparr>chans := h\<rparr>) = workers c"
  "workers (c\<lparr>rpcID := i\<rparr>) = workers c" "workers (c\<lparr>wire := w'\<rparr>) = workers c"
  by (simp_all add: workers_def)

lemma backoff_double:
  "b \<in> set backoffs \<Longrightarrow> (if b * 2 > maxBackoff then maxBackoff else b * 2) \<in> set backoffs"
  by (auto simp: backoffs_def maxBackoff_def second_def)

text \<open>What the connection invariant looks at; an operation that leaves it alone keeps the invariant.\<close>

definition link :: "Client \<Rightarrow> agent list \<times> bool \<times> bool \<times> nat option \<times> int" where
  "link c = (workers c, closed c, ready c, ws c, backoff c)"

lemma conn_wf_link: "link c' = link c \<Longrightarrow> conn_wf c' \<longleftrightarrow> conn_wf c"
  by (simp add: link_def conn_wf_def)

lemma link_sendJSON [simp]: "link (snd (sendJSON e v c)) = link c"
  by (simp add: sendJSON_def link_def split: option.split)

lemma link_updates [simp]:
  "link (c\<lparr>rpcID := i\<rparr>) = link c" "link (c\<lparr>pending := p\<rparr>) = link c" "link (c\<lparr>chans := h\<rparr>) = link c"
  "link (c\<lparr>refreshes := n\<rparr>) = link c"
  by (simp_all add: link_def)

lemma link_awaitStart [simp]: "link (snd (awaitStart e m ps c)) = link c"
  by (auto simp: awaitStart_def sendJSON_def link_def Let_def split: option.split)

lemma link_handleMessage [simp]: "link (state_of (snd (handleMessage up jp e raw c))) = link c"
  by (auto simp: handleMessage_def handleIncomingMethod_def handleReceiveMessage_def sendResponse_def resolve_def Let_def
      split: option.split prod.split)

lemma link_rpc [simp]:
  "link (snd (SendClientMessage e to m c)) = link c" "link (snd (awaitSelect ctx i ch c)) = link c"
  "link (pingTick e c) = link c"
  by (simp_all add: SendClientMessage_def sendRequest_def Let_def awaitSelect_def pingTick_def sendNotification_def
      split: chan.split)

lemma link_fetch [simp]: "link (snd (fetchSignalingURI first again c)) = link c"
  by (simp add: fetchSignalingURI_def RefreshNow_def split: http_result.split)

lemma link_doConnect:
  "link (snd (doConnect first again err conn c)) =
     (if fst (doConnect first again err conn c) = None
      then (workers c @ [Reader conn], closed c, True, Some conn, backoff c) else link c)"
proof (cases "fetchSignalingURI first again c")
  case (Pair r c1)
  with link_fetch[of first again c] have "link c1 = link c" by simp
  then show ?thesis
    by (auto simp: doConnect_def Pair Let_def markReady_def link_def split: sum.split option.split)
qed

lemma link_schedule:
  "link (scheduleReconnect cause c) =
     (if closed c then link c
      else (workers c @ [Timer (backoff c)], False, ready c, None,
            if backoff c * 2 > maxBackoff then maxBackoff else backoff c * 2))"
  by (simp add: scheduleReconnect_def Let_def RefreshNow_def link_def)

text \<open>A client whose one working goroutine is being replaced: nothing is connected.\<close>

definition between :: "Client \<Rightarrow> bool" where
  "between c \<longleftrightarrow> workers c = [] \<and> \<not> ready c \<and> ws c = None \<and> backoff c \<in> set backoffs"

lemma between_drop:
  assumes "conn_wf c" and "a \<in> set (agents c)" and "a \<noteq> Finishing" and "\<forall>n. a \<noteq> Reader n"
  shows "between (drop_agent a c)"
proof -
  have "workers c = [a]" using assms(1-3) by (rule worker_unique)
  then show ?thesis using assms(1,4) by (cases "ws c") (auto simp: between_def conn_wf_def)
qed

lemma between_closed: "between c \<Longrightarrow> closed c \<Longrightarrow> conn_wf c"
  by (simp add: between_def conn_wf_def)

lemma between_attempt: "between c \<Longrightarrow> conn_wf (attemptConnect c)"
  by (auto simp: attemptConnect_def between_closed) (simp add: between_def conn_wf_def)

lemma between_link: "link c' = link c \<Longrightarrow> between c' \<longleftrightarrow> between c"
  by (simp add: link_def between_def)

lemma between_schedule:
  assumes "between c"
  shows "conn_wf (scheduleReconnect cause c)"
proof (cases "closed c")
  case True
  then show ?thesis using assms by (simp add: scheduleReconnect_def between_closed)
next
  case False
  then show ?thesis
    using assms backoff_double[of "backoff c"] link_schedule[of cause c]
    by (auto simp: link_def between_def conn_wf_def)
qed

lemma between_dial:
  assumes "between c"
  shows "conn_wf (attemptDial first again err conn c)"
proof (cases "doConnect first again err conn c")
  case (Pair r c1)
  note l = link_doConnect[of first again err conn c, unfolded Pair, simplified]
  show ?thesis
  proof (cases r)
    case None
    then show ?thesis using l assms by (auto simp: attemptDial_def Pair link_def between_def conn_wf_def)
  next
    case (Some e)
    then have "between c1" using l assms between_link[of c1 c] by simp
    then show ?thesis by (simp add: attemptDial_def Pair Some between_schedule)
  qed
qed

lemma conn_wf_handleClose:
  assumes "conn_wf c" and "Reader conn \<in> set (agents c)"
  shows "conn_wf (handleClose cause (drop_agent (Reader conn) c))"
proof -
  have "workers c = [Reader conn]" using worker_unique[OF assms] by simp
  then have "between (resetReady ((drop_agent (Reader conn) c)\<lparr>pingCancel := False, ws := None\<rparr>))"
    using assms(1) by (auto simp: between_def resetReady_def conn_wf_def)
  then show ?thesis unfolding handleClose_def by (rule between_schedule)
qed

lemma conn_wf_apply:
  assumes "conn_wf c" and "sig_enabled ev c"
  shows "conn_wf (state_of (sig_apply ev c))"
proof (cases ev)
  case SAttempt
  then show ?thesis using assms between_drop[of c Attempt] by (simp add: between_attempt)
next
  case (SDial first again err conn)
  then show ?thesis using assms between_drop[of c Dialing] by (simp add: between_dial)
next
  case SFinish
  then show ?thesis using assms(1) by (auto simp: attemptFinish_def conn_wf_def backoffs_def initialBackoff_def workers_def
      drop_agent_def filter_remove1 remove1_idem)
next
  case (STimer d cancelled)
  then have "between (drop_agent (Timer d) c)" using assms between_drop[of c "Timer d"] by simp
  then show ?thesis using STimer assms(2) by (auto simp: between_attempt between_closed)
next
  case (SReadEnd conn cause)
  then show ?thesis using assms by (simp add: conn_wf_handleClose)
next
  case SClose
  then show ?thesis using assms(1) by (auto simp: Client_Close_def conn_wf_def)
qed (use assms(1) in \<open>simp_all add: conn_wf_link[OF link_handleMessage] conn_wf_link[OF link_rpc(1)]
       conn_wf_link[OF link_rpc(2)] conn_wf_link[OF link_rpc(3)] conn_wf_link[OF link_awaitStart]\<close>)

lemma conn_wf_init: "sig_init c \<Longrightarrow> conn_wf c"
  by (simp add: sig_init_def Connect_def NewClient_def conn_wf_def workers_def backoffs_def initialBackoff_def)

interpretation sig: invariant_system sig_init sig_step conn_wf
  by unfold_locales (auto simp: conn_wf_init conn_wf_apply elim!: sig_stepE)

section \<open>Calls and answers\<close>

text \<open>Every entry of the table of pending calls has a channel of its own, on which nothing has been sent.\<close>

definition rpc_wf :: "Client \<Rightarrow> bool" where
  "rpc_wf c \<longleftrightarrow>
     (\<forall>i ch. pending c i = Some ch \<longrightarrow> ch < length (chans c) \<and> chans c ! ch = ChanEmpty) \<and>
     (\<forall>i k ch. pending c i = Some ch \<and> pending c k = Some ch \<longrightarrow> i = k)"

definition calls_view :: "Client \<Rightarrow> (int64 \<rightharpoonup> nat) \<times> chan list" where
  "calls_view c = (pending c, chans c)"

lemma rpc_wf_view: "calls_view c' = calls_view c \<Longrightarrow> rpc_wf c' \<longleftrightarrow> rpc_wf c"
  by (simp add: calls_view_def rpc_wf_def)

lemma view_sendJSON [simp]: "calls_view (snd (sendJSON e v c)) = calls_view c"
  by (simp add: sendJSON_def calls_view_def split: option.split)

lemma view_updates [simp]:
  "calls_view (c\<lparr>rpcID := i\<rparr>) = calls_view c" "calls_view (c\<lparr>agents := as\<rparr>) = calls_view c"
  "calls_view (c\<lparr>ws := w\<rparr>) = calls_view c" "calls_view (c\<lparr>backoff := d\<rparr>) = calls_view c"
  "calls_view (c\<lparr>connecting := b\<rparr>) = calls_view c" "calls_view (c\<lparr>ready := b\<rparr>) = calls_view c"
  "calls_view (c\<lparr>closed := b\<rparr>) = calls_view c" "calls_view (c\<lparr>pingCancel := b\<rparr>) = calls_view c"
  "calls_view (c\<lparr>refreshes := n\<rparr>) = calls_view c"
  by (simp_all add: calls_view_def)

lemma view_transport [simp]:
  "calls_view (drop_agent a c) = calls_view c" "calls_view (attemptConnect c) = calls_view c"
  "calls_view (attemptFinish c) = calls_view c" "calls_view (scheduleReconnect cause c) = calls_view c"
  "calls_view (handleClose cause c) = calls_view c" "calls_view (Client_Close c) = calls_view c"
  "calls_view (pingTick e c) = calls_view c" "calls_view (snd (SendClientMessage e to m c)) = calls_view c"
  by (simp_all add: drop_agent_def attemptConnect_def attemptFinish_def scheduleReconnect_def RefreshNow_def Let_def
      handleClose_def resetReady_def Client_Close_def pingTick_def sendNotification_def SendClientMessage_def
      sendRequest_def)

lemma view_dial [simp]: "calls_view (attemptDial first again err conn c) = calls_view c"
proof (cases "fetchSignalingURI first again c")
  case (Pair r c1)
  have "calls_view c1 = calls_view c"
    using Pair by (auto simp: fetchSignalingURI_def RefreshNow_def split: http_result.splits if_splits)
  then show ?thesis
    by (simp add: attemptDial_def doConnect_def Pair Let_def markReady_def split: sum.split option.split)
qed

lemma rpc_wf_unregister: "rpc_wf c \<Longrightarrow> rpc_wf (c\<lparr>pending := (pending c)(i := None)\<rparr>)"
  by (auto simp: rpc_wf_def)

lemma rpc_wf_register:
  assumes "rpc_wf c"
  shows "rpc_wf (c\<lparr>rpcID := n, chans := chans c @ [ChanEmpty], pending := (pending c)(i \<mapsto> length (chans c))\<rparr>)"
proof -
  have "pending c k \<noteq> Some (length (chans c))" for k using assms by (auto simp: rpc_wf_def)
  then show ?thesis using assms by (auto simp: rpc_wf_def nth_append less_Suc_eq)
qed

lemma rpc_wf_awaitStart:
  assumes "rpc_wf c"
  shows "rpc_wf (snd (awaitStart e m ps c))"
proof -
  let ?c = "c\<lparr>rpcID := rpcID c + 1, chans := chans c @ [ChanEmpty],
             pending := (pending c)(rpcID c + 1 \<mapsto> length (chans c))\<rparr>"
  have wf: "rpc_wf (snd (sendJSON e v ?c))" for v
    using rpc_wf_register[OF assms] rpc_wf_view[OF view_sendJSON] by blast
  obtain r c2 where s: "sendJSON e (rpcBody (Some (rpcID c + 1)) m ps) ?c = (r, c2)" by fastforce
  then have "rpc_wf c2" using wf[of "rpcBody (Some (rpcID c + 1)) m ps"] by simp
  then have "rpc_wf (c2\<lparr>pending := (pending c2)(rpcID c + 1 := None)\<rparr>)" by (rule rpc_wf_unregister)
  with \<open>rpc_wf c2\<close> show ?thesis by (cases r) (simp_all add: awaitStart_def Let_def s)
qed

lemma resolve_waiting:
  assumes "rpc_wf c" and "pending c i = Some ch"
  shows "resolve i answer c = Done (c\<lparr>pending := (pending c)(i := None),
     chans := (chans c)[ch := case answer of None \<Rightarrow> ChanClosed | Some r \<Rightarrow> ChanResult r]\<rparr>)"
  using assms by (simp add: resolve_def rpc_wf_def Let_def)

lemma resolve_unknown: "pending c i = None \<Longrightarrow> resolve i answer c = Done c"
  by (simp add: resolve_def)

lemma rpc_wf_resolve:
  assumes "rpc_wf c"
  shows "\<exists>c'. resolve i answer c = Done c' \<and> rpc_wf c'"
proof (cases "pending c i")
  case (Some ch)
  have "rpc_wf (c\<lparr>pending := (pending c)(i := None),
     chans := (chans c)[ch := case answer of None \<Rightarrow> ChanClosed | Some r \<Rightarrow> ChanResult r]\<rparr>)" (is "rpc_wf ?c")
  proof -
    have "pending c k \<noteq> Some ch" if "k \<noteq> i" for k using assms Some that by (auto simp: rpc_wf_def)
    then have "ch' < length (chans c) \<and> chans ?c ! ch' = ChanEmpty" if "pending ?c k = Some ch'" for k ch'
      using that assms by (cases "ch' = ch") (auto simp: rpc_wf_def split: if_splits)
    with assms show ?thesis by (auto simp: rpc_wf_def)
  qed
  then show ?thesis using resolve_waiting[OF assms Some] by blast
qed (use assms resolve_unknown in blast)

lemma rpc_wf_handleMessage:
  assumes "rpc_wf c"
  shows "\<exists>c'. snd (handleMessage up jp e raw c) = Done c' \<and> rpc_wf c'"
proof -
  have incoming: "rpc_wf c'" if "handleIncomingMethod up jp e i m ps c = (d, c')" for i m ps d c'
    using that assms rpc_wf_view[OF view_sendJSON]
    by (auto simp: handleIncomingMethod_def handleReceiveMessage_def sendResponse_def split: option.splits if_splits)
  show ?thesis
  proof (cases "unmarshalRpc raw")
    case None
    then show ?thesis using assms by (simp add: handleMessage_def)
  next
    case (Some msg)
    obtain d c' where "handleIncomingMethod up jp e (msgID msg) (Method msg) (Params msg) c = (d, c')" by fastforce
    then show ?thesis
      using assms rpc_wf_resolve[OF assms] incoming by (simp add: handleMessage_def Some split: option.split)
  qed
qed

lemma rpc_wf_frame:
  "rpc_wf (drop_agent a c) = rpc_wf c" "rpc_wf (attemptConnect c) = rpc_wf c"
  "rpc_wf (attemptFinish c) = rpc_wf c" "rpc_wf (handleClose cause c) = rpc_wf c" "rpc_wf (Client_Close c) = rpc_wf c"
  "rpc_wf (pingTick e c) = rpc_wf c" "rpc_wf (snd (SendClientMessage e to m c)) = rpc_wf c"
  "rpc_wf (attemptDial first again err conn c) = rpc_wf c"
  by (rule rpc_wf_view; simp)+

lemma rpc_wf_apply:
  assumes "rpc_wf c"
  shows "rpc_wf (state_of (sig_apply ev c))"
proof (cases ev)
  case (SRead conn up jp e raw)
  then show ?thesis using rpc_wf_handleMessage[OF assms, of up jp e raw] by auto
next
  case (SAwait e m ps)
  then show ?thesis using rpc_wf_awaitStart[OF assms] by simp
next
  case (SSelect ctx i ch)
  then show ?thesis using assms rpc_wf_unregister[OF assms] by (simp add: awaitSelect_def split: chan.split)
qed (use assms in \<open>simp_all add: rpc_wf_frame\<close>)

lemma rpc_wf_init: "sig_init c \<Longrightarrow> rpc_wf c"
  by (simp add: sig_init_def Connect_def NewClient_def rpc_wf_def)

interpretation rpc: invariant_system sig_init sig_step rpc_wf
  by unfold_locales (auto simp: rpc_wf_apply rpc_wf_init elim!: sig_stepE)

text \<open>The answers a server sends: a result, or an error object.\<close>

definition answerMsg :: "int64 \<Rightarrow> json option \<Rightarrow> json" where
  "answerMsg i answer =
     JObj ([(''id'', JNum (of_int (sint i))), (''jsonrpc'', JStr ''2.0'')] @
           (case answer of None \<Rightarrow> [(''error'', JObj [])] | Some r \<Rightarrow> [(''result'', r)]))"

lemma unmarshalInt64_sint: "unmarshalInt64 (JNum (of_int (sint i))) = Some i"
proof -
  have "- (2 ^ 63) \<le> sint i" "sint i < 2 ^ 63" using sint_greater_eq[of i] sint_less[of i] by simp_all
  moreover have "\<lfloor>of_int (sint i) :: rat\<rfloor> = sint i" by (rule floor_of_int)
  ultimately show ?thesis
    unfolding unmarshalInt64_def by (simp only: json.case if_True simp_thms) simp
qed

lemma handle_answer: "handleMessage up jp e (answerMsg i answer) c = (None, resolve i answer c)"
  by (simp add: handleMessage_def answerMsg_def unmarshalRpc_def jfields_def lower_char_def strField_def rawField_def
      unmarshalInt64_sint del: of_int_sint split: option.split)

section \<open>Properties\<close>

text \<open>
  C9. Until it is closed, a client that was told to connect has exactly one goroutine that works on
  the connection: it is about to dial, dialling, waiting out a backoff delay of 1, 2, 4, 8, 16 or
  30 seconds, or reading. So the client never gives up and never opens two sockets; and callers of
  \<^verbatim>\<open>WaitReady\<close> are let through exactly while the socket that messages are sent on is being read.
\<close>

theorem signaling_keeps_trying:
  assumes "sig_step\<^sup>*\<^sup>* (Connect NewClient) c" and "\<not> closed c"
  shows "\<exists>a. filter (\<lambda>a. a \<noteq> Finishing) (agents c) = [a] \<and>
     (WaitReady False c = Some None \<longleftrightarrow> (\<exists>n. a = Reader n \<and> ws c = Some n)) \<and>
     backoff c \<in> set [second, 2 * second, 4 * second, 8 * second, 16 * second, maxBackoff]"
proof -
  have wf: "conn_wf c" using sig.inv_reachable[OF _ assms(1)] by (simp add: sig_init_def)
  then obtain a where a: "workers c = [a]"
    using assms(2) by (cases "workers c") (auto simp: conn_wf_def)
  moreover have "WaitReady False c = Some None \<longleftrightarrow> (\<exists>n. a = Reader n \<and> ws c = Some n)"
    using wf a assms(2) by (auto simp: conn_wf_def WaitReady_def)
  moreover have "backoff c \<in> set [second, 2 * second, 4 * second, 8 * second, 16 * second, maxBackoff]"
    using wf by (simp add: conn_wf_def backoffs_def maxBackoff_def)
  ultimately show ?thesis by (auto simp: workers_def)
qed

theorem signaling_keeps_trying_witness:
  "\<exists>(c :: Client) a. filter (\<lambda>a. a \<noteq> Finishing) (agents c) = [a] \<and> \<not> closed c"
proof -
  have "\<not> closed (Connect NewClient)" by (simp add: Connect_def NewClient_def)
  with signaling_keeps_trying[OF rtranclp.rtrancl_refl] obtain a where
    "filter (\<lambda>a. a \<noteq> Finishing) (agents (Connect NewClient)) = [a]" by blast
  with \<open>\<not> closed (Connect NewClient)\<close> show ?thesis by blast
qed

text \<open>
  The delays double from one second and stay at thirty: after \<^verbatim>\<open>n\<close> failures in a row the next
  delay is 2 to the power \<^verbatim>\<open>n\<close> seconds, at most 30, and a successful connection starts over. The doubled value is
  at most a minute, so the multiplication of the 64-bit duration does not overflow.
\<close>

theorem backoff_schedule:
  assumes "\<not> closed c" and "backoff c = initialBackoff"
  shows "backoff ((scheduleReconnect cause ^^ n) c) = min (2 ^ n * second) maxBackoff \<and>
     Timer (min (2 ^ n * second) maxBackoff) \<in> set (agents ((scheduleReconnect cause ^^ Suc n) c)) \<and>
     backoff ((scheduleReconnect cause ^^ n) c) * 2 \<le> 60 * second \<and>
     backoff (attemptFinish ((scheduleReconnect cause ^^ n) c)) = second"
proof -
  have up: "\<not> closed ((scheduleReconnect cause ^^ k) c)" for k
    by (induction k) (auto simp: assms(1) scheduleReconnect_def Let_def RefreshNow_def)
  have b: "backoff ((scheduleReconnect cause ^^ k) c) = min (2 ^ k * second) maxBackoff" for k
  proof (induction k)
    case 0
    then show ?case by (simp add: assms(2) initialBackoff_def maxBackoff_def second_def)
  next
    case (Suc k)
    have "backoff (scheduleReconnect cause d) = min (backoff d * 2) maxBackoff" if "\<not> closed d" for d
      using that by (simp add: scheduleReconnect_def Let_def RefreshNow_def)
    from this[OF up[of k]] Suc show ?case by (simp add: maxBackoff_def second_def min_def)
  qed
  have "Timer (backoff d) \<in> set (agents (scheduleReconnect cause d))" if "\<not> closed d" for d
    using that by (simp add: scheduleReconnect_def Let_def)
  from this[OF up[of n]] have "Timer (min (2 ^ n * second) maxBackoff) \<in> set (agents ((scheduleReconnect cause ^^ Suc n) c))"
    by (simp add: b)
  with b[of n] show ?thesis by (simp add: attemptFinish_def initialBackoff_def maxBackoff_def second_def)
qed

theorem backoff_schedule_witness:
  "Timer (8 * second) \<in> set (agents ((scheduleReconnect ''EOF'' ^^ 4) (Connect NewClient)))"
  using backoff_schedule[of "Connect NewClient" 3 "''EOF''"]
  by (simp add: Connect_def NewClient_def initialBackoff_def maxBackoff_def second_def eval_nat_numeral)

text \<open>
  C10. In every reachable state an answer goes to the call that waits for its id and to no other: the
  call's channel gets the result (or is closed without one for an error answer), every other channel and
  every other pending call is as before, and a repeated answer changes nothing. No message whatsoever
  makes the reader panic on a closed channel.
\<close>

theorem rpc_answer_once:
  assumes "sig_step\<^sup>*\<^sup>* (Connect NewClient) c" and "pending c i = Some ch"
  shows "\<exists>c'. handleMessage up jp e (answerMsg i answer) c = (None, Done c') \<and>
     pending c' = (pending c)(i := None) \<and>
     chans c' = (chans c)[ch := case answer of None \<Rightarrow> ChanClosed | Some r \<Rightarrow> ChanResult r] \<and>
     awaitSelect False i ch c' =
       (Some (case answer of None \<Rightarrow> Inl ''rpc returned error'' | Some r \<Rightarrow> Inr r), c') \<and>
     handleMessage up jp e (answerMsg i answer') c' = (None, Done c') \<and>
     (\<exists>c''. snd (handleMessage up jp e raw c) = Done c'')"
proof -
  have wf: "rpc_wf c" using rpc.inv_reachable[OF _ assms(1)] by (simp add: sig_init_def)
  then have "ch < length (chans c)" using assms(2) by (auto simp: rpc_wf_def)
  with resolve_waiting[OF wf assms(2), of answer] rpc_wf_handleMessage[OF wf, of up jp e raw] show ?thesis
    by (auto simp: handle_answer resolve_unknown awaitSelect_def split: option.split)
qed

definition sample_call :: Client where
  "sample_call = snd (awaitStart None ''Signaling_TurnAuth_v1_0'' (Some (JArr []))
     (attemptDial (HttpResp 200 ''..'' (Some (JObj [(''result'', JObj [(''signalingUri'', JStr ''wss'')])]))) (HttpErr '''') None 7
       (drop_agent Dialing (attemptConnect (drop_agent Attempt (Connect NewClient))))))"

lemma sample_call_run: "sig_step\<^sup>*\<^sup>* (Connect NewClient) sample_call"
proof -
  let ?c1 = "attemptConnect (drop_agent Attempt (Connect NewClient))"
  let ?r = "HttpResp 200 ''..'' (Some (JObj [(''result'', JObj [(''signalingUri'', JStr ''wss'')])]))"
  let ?c2 = "attemptDial ?r (HttpErr '''') None 7 (drop_agent Dialing ?c1)"
  have "sig_step (Connect NewClient) ?c1"
    using sig_event[of SAttempt "Connect NewClient"] by (simp add: Connect_def NewClient_def)
  moreover have "sig_step ?c1 ?c2"
    using sig_event[of "SDial ?r (HttpErr '''') None 7" ?c1]
    by (simp add: Connect_def NewClient_def drop_agent_def attemptConnect_def)
  moreover have "sig_step ?c2 sample_call"
    using sig_event[of "SAwait None ''Signaling_TurnAuth_v1_0'' (Some (JArr []))" ?c2] by (simp add: sample_call_def)
  ultimately show ?thesis by (meson converse_rtranclp_into_rtranclp rtranclp.rtrancl_refl)
qed

lemma sample_call_pending: "pending sample_call 1 = Some 0"
  by (simp add: sample_call_def awaitStart_def attemptDial_def doConnect_def fetchSignalingURI_def configURI_def
      unmarshalPayload_def jget_def jstr_def Let_def drop_agent_def attemptConnect_def Connect_def NewClient_def
      sendJSON_def markReady_def)

theorem rpc_answer_once_witness:
  "\<exists>c'. handleMessage Some (\<lambda>_. None) None (answerMsg 1 (Some (JBool True))) sample_call = (None, Done c') \<and>
     awaitSelect False 1 0 c' = (Some (Inr (JBool True)), c')"
  using rpc_answer_once[OF sample_call_run sample_call_pending, of Some "\<lambda>_. None" None "Some (JBool True)" None JNull]
  by auto

text \<open>
  A message that another client sent with \<^verbatim>\<open>SendClientMessage\<close> is acknowledged under its id and
  reaches the listener of its kind, with the sender and the payload as sent: join requests and their
  verdicts go to the join listener, offers, answers and candidates to the WebRTC listener, and
  anything else to neither.
\<close>

definition deliveryMsg :: "json \<Rightarrow> string \<Rightarrow> string \<Rightarrow> json" where
  "deliveryMsg i from text =
     JObj [(''jsonrpc'', JStr ''2.0''), (''id'', i), (''method'', JStr ''Signaling_ReceiveMessage_v1_0''),
           (''params'', JArr [JObj [(''From'', JStr from), (''Message'', JStr text)]])]"

lemma handle_delivery:
  "handleMessage up jp e (deliveryMsg i from text) c =
     (case up from of
        None \<Rightarrow> None
      | Some p \<Rightarrow> (case Option.bind (jp text) unmarshalPayload of None \<Rightarrow> None | Some m \<Rightarrow> routed p m),
      Done (if i = JNull then c else snd (sendResponse e i (JObj []) c)))"
  by (simp add: handleMessage_def deliveryMsg_def unmarshalRpc_def jfields_def lower_char_def strField_def rawField_def
      handleIncomingMethod_def handleReceiveMessage_def receivedMessage_def unmarshalObjects_def jstr_def jget_def
      cong: option.case_cong)

theorem dispatch_routes:
  assumes "uuid_parse from = Some p" and "json_parse text = Some (JObj m)" and "ws c = Some conn"
  shows "\<exists>c'. handleMessage uuid_parse json_parse None (deliveryMsg (JNum 7) from text) c =
     ((if GetType m \<in> {''JOIN_REQUEST'', ''JOIN_ACCEPTED'', ''JOIN_REJECTED'', ''INVITE_DECLINED''} then Some (ToJoin p m)
       else if GetType m \<in> {''OFFER'', ''ANSWER'', ''ICE_CANDIDATE''} then Some (ToRtc p m)
       else if prefix ''JOIN_'' (GetType m) then Some (ToJoin p m)
       else None), Done c') \<and>
     wire c' = wire c @ [JObj [(''id'', JNum 7), (''jsonrpc'', JStr ''2.0''), (''result'', JObj [])]]"
proof -
  have "handleMessage uuid_parse json_parse None (deliveryMsg (JNum 7) from text) c =
     (routed p m, Done (snd (sendResponse None (JNum 7) (JObj []) c)))"
    using assms(1,2) by (simp add: handle_delivery unmarshalPayload_def)
  moreover have "wire (snd (sendResponse None (JNum 7) (JObj []) c)) =
      wire c @ [JObj [(''id'', JNum 7), (''jsonrpc'', JStr ''2.0''), (''result'', JObj [])]]"
    using assms(3) by (simp add: sendResponse_def sendJSON_def)
  moreover have "routed p m =
     (if GetType m \<in> {''JOIN_REQUEST'', ''JOIN_ACCEPTED'', ''JOIN_REJECTED'', ''INVITE_DECLINED''} then Some (ToJoin p m)
       else if GetType m \<in> {''OFFER'', ''ANSWER'', ''ICE_CANDIDATE''} then Some (ToRtc p m)
       else if prefix ''JOIN_'' (GetType m) then Some (ToJoin p m)
       else None)"
    by (auto simp: routed_def GetType_def Let_def)
  ultimately show ?thesis by auto
qed

theorem dispatch_routes_witness:
  "fst (handleMessage Some (\<lambda>_. Some (JObj (Offer ''sid'' ''sdp''))) None (deliveryMsg (JNum 7) ''alice'' ''{..}'')
     (NewClient\<lparr>ws := Some 0\<rparr>)) = Some (ToRtc ''alice'' (Offer ''sid'' ''sdp''))"
  using dispatch_routes[of Some "''alice''" "''alice''" "\<lambda>_. Some (JObj (Offer ''sid'' ''sdp''))" "''{..}''"
      "Offer ''sid'' ''sdp''" "NewClient\<lparr>ws := Some 0\<rparr>" 0]
  by auto

text \<open>
  From the answer to the TURN request the client takes the credentials of the first server and
  the URLs of all servers, in their order; an answer without servers is an error.
\<close>

definition serverJson :: "TurnAuth \<Rightarrow> json" where
  "serverJson t = JObj [(''Username'', JStr (Username t)), (''Password'', JStr (Password t)),
                        (''Urls'', JArr (map JStr (URLs t)))]"

lemma unmarshalServer_serverJson [simp]: "unmarshalServer (serverJson t) = Some t"
  by (simp add: unmarshalServer_def serverJson_def jfields_def lower_char_def strField_def rawField_def
      unmarshalStrings_def strElem_def list_all_iff o_def)

theorem turn_auth_servers:
  "turnAuth (Inr (JObj [(''TurnAuthServers'', JArr (map serverJson ts))])) =
     (case ts of
        [] \<Rightarrow> Inl ''turn auth returned no servers''
      | t # _ \<Rightarrow> Inr \<lparr>Username = Username t, Password = Password t, URLs = concat (map URLs ts)\<rparr>)"
proof -
  have "unmarshalServers (JObj [(''TurnAuthServers'', JArr (map serverJson ts))]) = Some ts"
    by (simp add: unmarshalServers_def jfields_def lower_char_def rawField_def list_all_iff o_def)
  then show ?thesis by (simp add: turnAuth_def split: list.split)
qed

text \<open>
  A rejected token is refreshed: one connection attempt asks for the configuration again
  after a first 401, and refreshes a second time only when that answer is a 401 too, in which case
  it schedules the next attempt. Any other first answer refreshes nothing unless the failure it reports
  mentions the status 401 itself.
\<close>

theorem connect_refreshes_token:
  assumes "\<not> closed c"
  shows "refreshes (attemptDial (HttpResp 401 raw body) (HttpResp 401 raw' body') dialErr conn c) = refreshes c + 2 \<and>
         Timer (backoff c) \<in> set (agents (attemptDial (HttpResp 401 raw body) (HttpResp 401 raw' body') dialErr conn c)) \<and>
         refreshes (attemptDial (HttpResp 401 raw body)
           (HttpResp 200 raw' (Some (JObj [(''result'', JObj [(''signalingUri'', JStr (u # us))])]))) None conn c) = refreshes c + 1 \<and>
         refreshes (attemptDial (HttpResp 200 raw' (Some (JObj [(''result'', JObj [(''signalingUri'', JStr (u # us))])])))
           again None conn c) = refreshes c"
proof -
  have "configURI 401 raw' body' = Inl (''signaling config failed: '' @ ''status=401'' @ '' body='' @ raw')"
    by (simp add: configURI_def show_nat.simps char_of_def bit_0)
  moreover have "sublist ''status=401'' (''signaling config failed: '' @ ''status=401'' @ '' body='' @ raw')"
    unfolding sublist_def by blast
  ultimately show ?thesis
    using assms
    by (simp add: attemptDial_def doConnect_def fetchSignalingURI_def scheduleReconnect_def RefreshNow_def Let_def
        configURI_def[of 200] unmarshalPayload_def jget_def jstr_def markReady_def)
qed

theorem connect_refreshes_token_witness:
  "refreshes (attemptDial (HttpResp 401 '''' None) (HttpResp 401 '''' None) None 1 NewClient) = 2"
  using connect_refreshes_token[of NewClient "''''" None "''''" None None 1 "CHR ''w''" "''ss''"]
  by (simp add: NewClient_def)

end
