(* ===== verification/IpcHost.thy ===== *)
theory IpcHost
  imports IpcWatch BypassKey JoinBridge Signaling
begin

text \<open>
  Hosting and joining on behalf of the launcher: \<^verbatim>\<open>src/internal/ipc/methods_host.go\<close>, and the whole table of methods.

  The objects that \<^verbatim>\<open>host.start\<close> and \<^verbatim>\<open>join.start\<close> create (signaling client, manager, broadcaster) are kept in lists and
  referred to by position, so that one which is no longer referred to is still there. \<^verbatim>\<open>host.start\<close> is also given in the
  two parts between which it holds no lock.
\<close>

section \<open>Model\<close>

record hosting =
  ho_sig :: Client
  ho_pm :: HostManager
  ho_bc :: Broadcaster

record joining =
  jo_sig :: Client
  jo_jm :: JoinManager

record hostState =
  hs_running :: bool
  hs_target :: string
  hs_bypassUsed :: bool
  hs_host :: "nat option"
  hs_hosts :: "hosting list"
  hs_joinRunning :: bool
  hs_joinPeer :: string
  hs_joinListen :: string
  hs_join :: "nat option"
  hs_joins :: "joining list"

definition newHostState :: hostState where
  "newHostState =
     \<lparr>hs_running = False, hs_target = '''', hs_bypassUsed = False, hs_host = None, hs_hosts = [], hs_joinRunning = False,
      hs_joinPeer = '''', hs_joinListen = '''', hs_join = None, hs_joins = []\<rparr>"

record HostHandlers = WatchHandlers +
  h_host :: hostState

text \<open>The path of \<^verbatim>\<open>bypass.pem\<close> beside the credentials file, the errors of the two attempts to listen, and the address of the second.\<close>

record host_env =
  he_keyPath :: string
  he_listenErr :: "string option"
  he_fallbackErr :: "string option"
  he_listenAddr :: string

subsection \<open>Hosting\<close>

record hostStartParams =
  hp_Target :: string
  hp_BypassKeyPath :: string
  hp_UseBypass :: bool

definition parseHostStart :: "json option \<Rightarrow> RPCError + hostStartParams" where
  "parseHostStart raw =
     (case raw of
        None \<Rightarrow> Inr \<lparr>hp_Target = '''', hp_BypassKeyPath = '''', hp_UseBypass = False\<rparr>
      | Some v \<Rightarrow>
          (case unmarshalPayload v of
             None \<Rightarrow> Inl invalidParams
           | Some m \<Rightarrow>
               (case (strField (jfields ''target'' m), strField (jfields ''bypassKeyPath'' m), boolField (jfields ''useBypass'' m)) of
                  (Some t, Some k, Some b) \<Rightarrow> Inr \<lparr>hp_Target = t, hp_BypassKeyPath = k, hp_UseBypass = b\<rparr>
                | _ \<Rightarrow> Inl invalidParams)))"

definition bypassBytes :: "ipc_env \<Rightarrow> host_env \<Rightarrow> hostStartParams \<Rightarrow> disk \<Rightarrow> RPCError + bytes option" where
  "bypassBytes e x p d =
     (if \<not> hp_UseBypass p then Inr None
      else let path = (if hp_BypassKeyPath p = '''' then he_keyPath x else hp_BypassKeyPath p)
           in (case LoadOrAbsent (ie_auth e) path d of
                 Inl err \<Rightarrow> Inl (apiError ''failed to load bypass key'')
               | Inr None \<Rightarrow> Inl (newError CodeNotFound ''bypass key not found'')
               | Inr (Some k) \<Rightarrow> Inr (Some k)))"

text \<open>Up to the creation of the objects: parameters, the test of \<^verbatim>\<open>running\<close>, the key.\<close>

definition hostStartCheck ::
    "ipc_env \<Rightarrow> host_env \<Rightarrow> json option \<Rightarrow> 'a HostHandlers_scheme \<Rightarrow> RPCError + string \<times> bytes option" where
  "hostStartCheck e x raw h =
     (case parseHostStart raw of
        Inl err \<Rightarrow> Inl err
      | Inr p \<Rightarrow>
          let target = TrimSpace (hp_Target p)
          in if target = '''' then Inl (newError CodeInvalidParams ''target required (host:port)'')
             else (case ParseTarget target of
                     Inl err \<Rightarrow> Inl (newErrorf CodeInvalidParams ''invalid target'' ErrText)
                   | Inr _ \<Rightarrow>
                       if hs_running (h_host h)
                       then Inl (newErrorf CodeAlreadyRunning ''host already running''
                                   (DataJson (JObj [(''target'', JStr (hs_target (h_host h)))])))
                       else (case bypassBytes e x p (se_disk (h_session h)) of
                               Inl err \<Rightarrow> Inl err
                             | Inr k \<Rightarrow> Inr (target, k))))"

definition hostStartedNote :: "string \<Rightarrow> bytes option \<Rightarrow> payload" where
  "hostStartedNote target key = [(''target'', JStr target), (''useBypass'', JBool (key \<noteq> None))]"

definition newHosting :: "string \<Rightarrow> bytes option \<Rightarrow> hosting" where
  "newHosting target key =
     \<lparr>ho_sig = Connect NewClient, ho_pm = NewHostManager target key,
      ho_bc = Broadcaster_Start (NewBroadcaster StatusPlayingHostedServer (30 * 1000000000) [])\<rparr>"

definition hostStartLaunch :: "string \<Rightarrow> bytes option \<Rightarrow> 'a HostHandlers_scheme \<Rightarrow> 'a HostHandlers_scheme" where
  "hostStartLaunch target key h =
     (let hs = h_host h
      in Notify ''host.started'' (JObj (hostStartedNote target key))
           (h\<lparr>h_host := hs\<lparr>hs_host := Some (length (hs_hosts hs)), hs_hosts := hs_hosts hs @ [newHosting target key],
                           hs_target := target, hs_bypassUsed := (key \<noteq> None), hs_running := True\<rparr>,
              h_watch := (h_watch h)\<lparr>currentStatus := StatusPlayingHostedServer\<rparr>\<rparr>))"

definition hostStart :: "ipc_env \<Rightarrow> host_env \<Rightarrow> json option \<Rightarrow> 'a HostHandlers_scheme \<Rightarrow> 'a HostHandlers_scheme call" where
  "hostStart e x raw h =
     requireAuth e h (\<lambda>h1.
       case hostStartCheck e x raw h1 of
         Inl err \<Rightarrow> Returned (Inl err) h1
       | Inr (target, key) \<Rightarrow>
           Returned (Inr (Some (JObj ((''running'', JBool True) # hostStartedNote target key)))) (hostStartLaunch target key h1))"

text \<open>The listener given to the signaling client of a hosting.\<close>

definition hostFriendJoined ::
    "ipc_env \<Rightarrow> bool \<Rightarrow> nat \<Rightarrow> uuid \<Rightarrow> payload \<Rightarrow> 'a HostHandlers_scheme \<Rightarrow> 'a HostHandlers_scheme" where
  "hostFriendJoined e probe i fromPmid payload h =
     (let h1 = Notify ''friend.joined'' (JObj [(''pmid'', JStr (ie_uuid_text e fromPmid))]) h; hs = h_host h1
      in if i < length (hs_hosts hs)
         then h1\<lparr>h_host := hs\<lparr>hs_hosts := (hs_hosts hs)[i := (hs_hosts hs ! i)\<lparr>ho_pm := OnFriendJoin probe fromPmid payload (ho_pm (hs_hosts hs ! i))\<rparr>]\<rparr>\<rparr>
         else h1)"

text \<open>Closing broadcaster, manager and client in this order; a manager that hangs keeps the client from being closed.\<close>

fun closeHosting :: "hosting \<Rightarrow> hosting outcome" where
  "closeHosting b =
     (let b1 = b\<lparr>ho_bc := Broadcaster_Close (ho_bc b)\<rparr>
      in (case HostManager_Close (ho_pm b) of
            Done pm \<Rightarrow> Done (b1\<lparr>ho_pm := pm, ho_sig := Client_Close (ho_sig b)\<rparr>)
          | Hang pm \<Rightarrow> Hang (b1\<lparr>ho_pm := pm\<rparr>)
          | Panic pm \<Rightarrow> Panic (b1\<lparr>ho_pm := pm\<rparr>)))"

definition hostStop :: "ipc_env \<Rightarrow> json option \<Rightarrow> 'a HostHandlers_scheme \<Rightarrow> 'a HostHandlers_scheme call" where
  "hostStop e raw h =
     (let hs = h_host h
      in if \<not> hs_running hs then Returned (Inr (runningIs False)) h
         else let target = hs_target hs;
                  hs1 = hs\<lparr>hs_host := None, hs_running := False, hs_target := '''', hs_bypassUsed := False\<rparr>;
                  finish = (\<lambda>hs2.
                    let h2 = h\<lparr>h_host := hs2, h_watch := (h_watch h)\<lparr>currentStatus := StatusOnline\<rparr>,
                               h_api := snd (PostPresence (ie_api e) (ie_now e) \<lparr>pr_Status = StatusOnline, pr_JoinInfo = None\<rparr> (h_api h))\<rparr>
                    in Returned (Inr (runningIs False)) (Notify ''host.stopped'' (JObj [(''target'', JStr target)]) h2))
              in (case hs_host hs of
                    None \<Rightarrow> finish hs1
                  | Some i \<Rightarrow>
                      if i < length (hs_hosts hs)
                      then (case closeHosting (hs_hosts hs ! i) of
                              Done b \<Rightarrow> finish (hs1\<lparr>hs_hosts := (hs_hosts hs)[i := b]\<rparr>)
                            | Hang b \<Rightarrow> Blocked (h\<lparr>h_host := hs1\<lparr>hs_hosts := (hs_hosts hs)[i := b]\<rparr>\<rparr>)
                            | Panic b \<Rightarrow> Panicked (h\<lparr>h_host := hs1\<lparr>hs_hosts := (hs_hosts hs)[i := b]\<rparr>\<rparr>))
                      else finish hs1))"

definition hostStatus :: "json option \<Rightarrow> 'a HostHandlers_scheme \<Rightarrow> 'a HostHandlers_scheme call" where
  "hostStatus raw h =
     Returned (Inr (Some (JObj [(''running'', JBool (hs_running (h_host h))), (''target'', JStr (hs_target (h_host h))),
                                (''useBypass'', JBool (hs_bypassUsed (h_host h)))]))) h"

subsection \<open>Joining\<close>

record joinStartParams =
  jp_Name :: string
  jp_ProfileID :: string
  jp_PMID :: string
  jp_Listen :: string

definition parseJoinStart :: "json option \<Rightarrow> RPCError + joinStartParams" where
  "parseJoinStart raw =
     (case raw of
        None \<Rightarrow> Inr \<lparr>jp_Name = '''', jp_ProfileID = '''', jp_PMID = '''', jp_Listen = ''''\<rparr>
      | Some v \<Rightarrow>
          (case unmarshalPayload v of
             None \<Rightarrow> Inl invalidParams
           | Some m \<Rightarrow>
               (case (strField (jfields ''name'' m), strField (jfields ''profileId'' m), strField (jfields ''pmid'' m),
                      strField (jfields ''listen'' m)) of
                  (Some n, Some i, Some p, Some l) \<Rightarrow> Inr \<lparr>jp_Name = n, jp_ProfileID = i, jp_PMID = p, jp_Listen = l\<rparr>
                | _ \<Rightarrow> Inl invalidParams)))"

text \<open>\<^verbatim>\<open>errors.Is(err, os.ErrNotExist)\<close>: none of the errors of \<^verbatim>\<open>ResolvePeer\<close> wraps it.\<close>

fun isNotExist :: "resolve_error \<Rightarrow> bool" where
  "isNotExist (ListFriends err) = False"
| "isNotExist FriendsUnavailable = False"
| "isNotExist NoSuchFriend = False"
| "isNotExist (FetchPresence err) = False"
| "isNotExist PresenceCached = False"
| "isNotExist NotSharingPresence = False"

definition resolveJoinPeer :: "ipc_env \<Rightarrow> joinStartParams \<Rightarrow> ApiClient \<Rightarrow> (RPCError + Peer) \<times> ApiClient" where
  "resolveJoinPeer e p c =
     (if jp_PMID p \<noteq> ''''
      then (case uuid_parse (ie_api e) (jp_PMID p) of
              None \<Rightarrow> (Inl (newError CodeInvalidParams ''invalid pmid''), c)
            | Some i \<Rightarrow> (Inr \<lparr>peer_Name = '''', peer_ProfileID = uuid_nil, peer_PMID = i\<rparr>, c))
      else let query = (if jp_Name p = '''' then jp_ProfileID p else jp_Name p)
           in (case ResolvePeer (ie_fold e) (ie_api e) (ie_now e) query c of
                 (Inl err, c1) \<Rightarrow>
                   (Inl (if isNotExist err then newError CodeNotFound (ie_resolve_text e err) else apiError ''resolve peer failed''), c1)
               | (Inr peer, c1) \<Rightarrow>
                   if peer_PMID peer = uuid_nil
                   then (Inl (newError CodeNotFound ''peer pmid unknown (presence may be unavailable)''), c1)
                   else (Inr peer, c1)))"

fun closeJoining :: "joining \<Rightarrow> joining outcome" where
  "closeJoining b =
     (case JoinManager_Close (jo_jm b) of
        Done jm \<Rightarrow> Done (b\<lparr>jo_jm := jm, jo_sig := Client_Close (jo_sig b)\<rparr>)
      | Hang jm \<Rightarrow> Hang (b\<lparr>jo_jm := jm\<rparr>)
      | Panic jm \<Rightarrow> Panic (b\<lparr>jo_jm := jm\<rparr>))"

definition clearJoin :: "hostState \<Rightarrow> hostState" where
  "clearJoin hs = hs\<lparr>hs_join := None, hs_joinRunning := False, hs_joinPeer := '''', hs_joinListen := ''''\<rparr>"

text \<open>The previous join is taken out of the state and closed.\<close>

definition closePrevious :: "hostState \<Rightarrow> hostState outcome" where
  "closePrevious hs =
     (case hs_join hs of
        None \<Rightarrow> Done (clearJoin hs)
      | Some i \<Rightarrow>
          if i < length (hs_joins hs)
          then (case closeJoining (hs_joins hs ! i) of
                  Done b \<Rightarrow> Done ((clearJoin hs)\<lparr>hs_joins := (hs_joins hs)[i := b]\<rparr>)
                | Hang b \<Rightarrow> Hang ((clearJoin hs)\<lparr>hs_joins := (hs_joins hs)[i := b]\<rparr>)
                | Panic b \<Rightarrow> Panic ((clearJoin hs)\<lparr>hs_joins := (hs_joins hs)[i := b]\<rparr>))
          else Done (clearJoin hs))"

definition joinResult :: "ipc_env \<Rightarrow> Peer \<Rightarrow> string \<Rightarrow> payload" where
  "joinResult e peer listen =
     [(''listen'', JStr listen), (''peer'', JStr (peer_Name peer)), (''pmid'', JStr (ie_uuid_text e (peer_PMID peer)))]"

definition joinLaunch ::
    "ipc_env \<Rightarrow> host_env \<Rightarrow> Peer \<Rightarrow> string \<Rightarrow> 'a HostHandlers_scheme \<Rightarrow> 'a HostHandlers_scheme call" where
  "joinLaunch e x peer listen h =
     (case Listen (he_listenErr x \<noteq> None) (NewJoinManager (peer_PMID peer)) of
        (listening, jm) \<Rightarrow>
          (case (if listening then (True, jm) else Listen (he_fallbackErr x \<noteq> None) jm) of
             (False, jm1) \<Rightarrow> 
               Returned (Inl (newError CodeAPIError (''listen failed: '' @ the (he_listenErr x)))) h
           | (True, jm1) \<Rightarrow>
               let actual = (if \<not> listening \<and> he_listenAddr x \<noteq> '''' then he_listenAddr x else listen);
                   hs = h_host h;
                   b = \<lparr>jo_sig = Connect NewClient, jo_jm = jm1\<rparr>
               in Returned (Inr (Some (JObj (joinResult e peer actual @ [(''running'', JBool True)]))))
                    (Notify ''join.started'' (JObj (joinResult e peer actual))
                      (h\<lparr>h_host := hs\<lparr>hs_join := Some (length (hs_joins hs)), hs_joins := hs_joins hs @ [b],
                                      hs_joinPeer := peer_Name peer, hs_joinListen := actual, hs_joinRunning := True\<rparr>\<rparr>))))"

definition joinStart :: "ipc_env \<Rightarrow> host_env \<Rightarrow> json option \<Rightarrow> 'a HostHandlers_scheme \<Rightarrow> 'a HostHandlers_scheme call" where
  "joinStart e x raw h =
     requireAuth e h (\<lambda>h1.
       case parseJoinStart raw of
         Inl err \<Rightarrow> Returned (Inl err) h1
       | Inr p \<Rightarrow>
           let listen = (if jp_Listen p = '''' then ''127.0.0.1:25577'' else jp_Listen p); hs = h_host h1
           in if jp_Name p = '''' \<and> jp_ProfileID p = '''' \<and> jp_PMID p = ''''
              then Returned (Inl (newError CodeInvalidParams ''name, profileId, or pmid required'')) h1
              else if hs_joinRunning hs \<and> hs_joinPeer hs = TrimSpace (jp_Name p) \<and> hs_joinListen hs = listen
              then Returned (Inr (Some (JObj [(''listen'', JStr (hs_joinListen hs)), (''peer'', JStr (hs_joinPeer hs)),
                                              (''pmid'', JStr ''''), (''running'', JBool True)]))) h1
              else (case closePrevious hs of
                      Hang hs1 \<Rightarrow> Blocked (h1\<lparr>h_host := hs1\<rparr>)
                    | Panic hs1 \<Rightarrow> Panicked (h1\<lparr>h_host := hs1\<rparr>)
                    | Done hs1 \<Rightarrow>
                        (case resolveJoinPeer e p (h_api h1) of
                           (Inl err, c) \<Rightarrow> Returned (Inl err) (h1\<lparr>h_host := hs1, h_api := c\<rparr>)
                         | (Inr peer, c) \<Rightarrow> joinLaunch e x peer listen (h1\<lparr>h_host := hs1, h_api := c\<rparr>))))"

definition joinStop :: "json option \<Rightarrow> 'a HostHandlers_scheme \<Rightarrow> 'a HostHandlers_scheme call" where
  "joinStop raw h =
     (let hs = h_host h
      in if \<not> hs_joinRunning hs then Returned (Inr (runningIs False)) h
         else (case closePrevious hs of
                 Hang hs1 \<Rightarrow> Blocked (h\<lparr>h_host := hs1\<rparr>)
               | Panic hs1 \<Rightarrow> Panicked (h\<lparr>h_host := hs1\<rparr>)
               | Done hs1 \<Rightarrow>
                   Returned (Inr (runningIs False)) (Notify ''join.stopped'' (JObj [(''peer'', JStr (hs_joinPeer hs))]) (h\<lparr>h_host := hs1\<rparr>))))"

definition registerHostMethods ::
    "ipc_env \<Rightarrow> host_env \<Rightarrow> 'a HostHandlers_scheme methods \<Rightarrow> 'a HostHandlers_scheme methods" where
  "registerHostMethods e x ms =
     Register ''join.stop'' joinStop (Register ''join.start'' (joinStart e x) (Register ''host.status'' hostStatus
     (Register ''host.stop'' (hostStop e) (Register ''host.start'' (hostStart e x) ms))))"

definition Handlers_Register :: "ipc_env \<Rightarrow> host_env \<Rightarrow> 'a HostHandlers_scheme methods" where
  "Handlers_Register e x = registerHostMethods e x (registerWatchMethods e (registerMethods e))"

subsection \<open>Setting up\<close>

definition NewHandlers ::
    "string \<Rightarrow> AuthSession \<Rightarrow> ApiClient \<Rightarrow> Refresher \<Rightarrow> string \<Rightarrow> Blocklist option \<Rightarrow> HostHandlers" where
  "NewHandlers vsn session api refresher authPath blocklist =
     \<lparr>lines = [], h_version = vsn, h_session = session, h_api = api, h_refresher = refresher, h_authPath = authPath,
      h_blocklist = blocklist, h_authRun = False, h_watch = newWatchState, h_host = newHostState\<rparr>"

text \<open>
  \<^verbatim>\<open>runIpcStdio\<close> up to \<^verbatim>\<open>server.Run\<close>: \<^verbatim>\<open>dir\<close> is the directory of the credentials file; a blocklist that cannot be read is nil.
\<close>

definition runIpcStdio ::
    "string \<Rightarrow> (string \<Rightarrow> uuid option) \<Rightarrow> string \<Rightarrow> string \<Rightarrow> disk \<Rightarrow> AuthNet \<Rightarrow> bl_file \<Rightarrow> diskCache option \<Rightarrow> string list \<Rightarrow>
     HostHandlers ServerRun" where
  "runIpcStdio vsn parse_uuid authFile dir d n blocks cache input =
     (let blocklist = (case LoadBlocklist parse_uuid blocks of Inl err \<Rightarrow> None | Inr b \<Rightarrow> Some b);
          session = NewAuthSession authFile True d n;
          client = LoadCacheFromDisk dir (NewApiClient cache);
          refresher = NewRefresher False
      in NewRun input (NewHandlers vsn session client refresher authFile blocklist))"

section \<open>The whole table of methods\<close>

lemma answers_host_frame [simp]:
  "answers (h\<lparr>h_host := hs\<rparr>) = answers (h :: 'a HostHandlers_scheme)"
  by (simp add: answers_def)

lemma answers_hostStartLaunch [simp]: "answers (hostStartLaunch t k h) = answers h"
  by (simp add: hostStartLaunch_def Let_def)

lemma answers_joinLaunch [simp]: "answers (call_state (joinLaunch e x p l h)) = answers h"
  by (auto simp: joinLaunch_def Let_def split: prod.split bool.split)

lemma silent_host [quiet_methods]:
  "silent (hostStart e x)" "silent (hostStop e)" "silent hostStatus" "silent (joinStart e x)" "silent joinStop"
  by (rule silentI; auto simp: hostStart_def hostStop_def hostStatus_def joinStart_def joinStop_def Let_def
      intro!: answers_requireAuth split: option.split sum.split prod.split outcome.split)+

lemma silent_Register:
  assumes "\<And>n f. ms n = Some f \<Longrightarrow> silent f" and "silent fn" and "Register name fn ms n = Some f"
  shows "silent f"
  using assms by (auto simp: Register_def split: if_splits)

lemma silent_table: "Handlers_Register e x name = Some fn \<Longrightarrow> silent fn"
  unfolding Handlers_Register_def registerHostMethods_def registerWatchMethods_def registerMethods_def
  by (elim silent_Register[rotated 2]) (simp_all add: quiet_methods)

lemma table_answers: "Handlers_Register e x name = Some fn \<Longrightarrow> answers (call_state (fn p w)) = answers w"
  by (drule silent_table) (simp add: silent_def)

interpretation table: rpc_methods "Handlers_Register e x" for e x
  by unfold_locales (rule table_answers)

text \<open>
  Whatever the launcher sends and however the goroutines that serve it interleave: when \<^verbatim>\<open>Run\<close> has
  returned, every request id but null has been answered exactly as often as it was asked among the lines that were
  read; a method's panic included. The lines read are the non-empty ones in order, and all of them when the server was
  neither asked to quit nor its input failed.
\<close>

theorem ipc_requests_answered:
  fixes w0 :: "'a HostHandlers_scheme"
  assumes "(run_step (Handlers_Register e x) parse)\<^sup>*\<^sup>* (NewRun input w0) r" and "sr_phase r = RunEnded err"
  shows "(\<forall>v. v \<noteq> JNull \<longrightarrow>
            count_list (answers (sr_state r)) v = count_list (answers w0) v + count_list (owing parse (sr_accepted r)) v) \<and>
         (\<exists>rest. filter (\<lambda>l. l \<noteq> '''') input = sr_accepted r @ rest \<and> (\<not> err \<and> \<not> sr_cancelled r \<longrightarrow> rest = []))"
  using table.run_answers[OF assms] table.run_accepts[OF assms(1)] assms(2) by auto

definition sample_host :: HostHandlers where
  "sample_host = WatchHandlers.extend sample_watch \<lparr>h_host = newHostState\<rparr>"

definition sample_host_env :: host_env where
  "sample_host_env = \<lparr>he_keyPath = ''k'', he_listenErr = None, he_fallbackErr = None, he_listenAddr = ''''\<rparr>"

definition sample_line :: "string \<Rightarrow> json option" where
  "sample_line s = (if s = ''q'' then Some (JObj [(''jsonrpc'', JStr ''2.0''), (''id'', JNum 7), (''method'', JStr ''version'')]) else None)"

theorem ipc_requests_answered_witness:
  "\<exists>r. (run_step (Handlers_Register sample_ipc_env sample_host_env) sample_line)\<^sup>*\<^sup>* (NewRun [''q''] sample_host) r \<and>
       sr_phase r = RunEnded False \<and> count_list (answers (sr_state r)) (JNum 7) = 1"
proof -
  let ?ms = "Handlers_Register sample_ipc_env sample_host_env :: HostHandlers methods"
  let ?R = "run_step ?ms sample_line"
  let ?r0 = "NewRun [''q''] sample_host"
  let ?r1 = "scan ?r0"
  let ?r2 = "scan ?r1"
  let ?r3 = "serve ?ms sample_line ''q'' ?r2"
  have scans: "sr_phase ?r0 = Scanning" "sr_phase ?r1 = Scanning" "sr_phase ?r2 = AwaitingCalls False"
      "sr_serving ?r2 = [''q'']" "sr_stuck ?r2 = []" "sr_cancelled ?r2 = False" "sr_accepted ?r2 = [''q'']"
    by (simp_all add: NewRun_def scan_def maxLine_def)
  have fin: "\<exists>s. dispatch ?ms sample_line ''q'' (sr_state ?r2) = Done s"
    by (simp add: dispatch_def sample_line_def decodeRequest_def unmarshalPayload_def jfields_def strField_def lower_char_def
        rawField_def Handlers_Register_def registerHostMethods_def registerWatchMethods_def registerMethods_def Register_def
        version_def)
  then have r3: "sr_phase ?r3 = AwaitingCalls False" "sr_serving ?r3 = []" "sr_stuck ?r3 = []" "sr_accepted ?r3 = [''q'']"
      "sr_cancelled ?r3 = False"
    using scans by (auto simp: serve_def)
  have "?R ?r0 ?r1" "?R ?r1 ?r2" using scans by (auto intro: run_step.scanned)
  moreover have "?R ?r2 ?r3" using scans by (auto intro: run_step.served)
  moreover have "?R ?r3 (?r3\<lparr>sr_phase := RunEnded False\<rparr>)" using r3 by (intro run_step.finished) auto
  ultimately have run: "?R\<^sup>*\<^sup>* ?r0 (?r3\<lparr>sr_phase := RunEnded False\<rparr>)"
    by (meson converse_rtranclp_into_rtranclp rtranclp.rtrancl_refl)
  have "count_list (answers (sr_state (?r3\<lparr>sr_phase := RunEnded False\<rparr>))) (JNum 7) = 1"
    using ipc_requests_answered[OF run, of False] r3
    by (simp add: owing_Cons owed_def sample_line_def decodeRequest_def unmarshalPayload_def jfields_def strField_def
        lower_char_def rawField_def answers_def sample_host_def sample_watch_def sample_handlers_def Handlers.extend_def
        WatchHandlers.extend_def List.map_filter_def)
  with run show ?thesis by (intro exI[of _ "?r3\<lparr>sr_phase := RunEnded False\<rparr>"]) simp
qed

section \<open>Hosting\<close>

definition announcing :: "hosting \<Rightarrow> bool" where
  "announcing b \<longleftrightarrow> bc_running (ho_bc b)"

definition hosts_ok :: "hostState \<Rightarrow> bool" where
  "hosts_ok hs \<longleftrightarrow>
     (\<forall>j<length (hs_hosts hs). announcing (hs_hosts hs ! j) \<longleftrightarrow> hs_running hs \<and> hs_host hs = Some j) \<and>
     (hs_running hs \<longrightarrow> (\<exists>i<length (hs_hosts hs). hs_host hs = Some i))"

text \<open>
  What happens to the hostings: the two methods, and the life of the managers and clients in between, which changes
  everything of a hosting but its broadcaster.
\<close>

inductive host_life :: "'a HostHandlers_scheme \<Rightarrow> 'a HostHandlers_scheme \<Rightarrow> bool" where
  hl_start: "host_life h (call_state (hostStart e x raw h))"
| hl_stop: "host_life h (call_state (hostStop e raw h))"
| hl_join: "host_life h (call_state (joinStart e x raw h))"
| hl_unjoin: "host_life h (call_state (joinStop raw h))"
| hl_evolve: "i < length (hs_hosts (h_host h)) \<Longrightarrow>
    host_life h (h\<lparr>h_host := (h_host h)\<lparr>hs_hosts := (hs_hosts (h_host h))[i := (hs_hosts (h_host h) ! i)\<lparr>ho_sig := s, ho_pm := p\<rparr>]\<rparr>\<rparr>)"

lemma announcing_simps [simp]:
  "announcing (newHosting t k)" "announcing (b\<lparr>ho_sig := s\<rparr>) = announcing b" "announcing (b\<lparr>ho_pm := p\<rparr>) = announcing b"
  by (simp_all add: announcing_def newHosting_def Broadcaster_Start_def NewBroadcaster_def)

lemma closeHosting_silent: "\<not> announcing (state_of (closeHosting b))"
  by (simp add: announcing_def Broadcaster_Close_def Let_def split: outcome.split)

lemma closeHosting_Done: "closeHosting b = Done b' \<Longrightarrow> \<not> announcing b' \<and> closed (ho_sig b')"
  using closeHosting_silent[of b]
  by (auto simp: announcing_def Let_def Client_Close_def split: outcome.splits)

lemma h_host_writes [simp]:
  "h_host (Notify n p h) = h_host h" "h_host (h\<lparr>h_session := s\<rparr>) = h_host (h :: 'a HostHandlers_scheme)"
  "h_host (h\<lparr>h_api := c\<rparr>) = h_host (h :: 'a HostHandlers_scheme)"
  by (simp_all add: Notify_def writeLine_def)

lemma hosts_ok_launch:
  assumes "hosts_ok (h_host h)" and "\<not> hs_running (h_host h)"
  shows "hosts_ok (h_host (hostStartLaunch t k h))"
  using assms by (auto simp: hosts_ok_def hostStartLaunch_def Let_def nth_append less_Suc_eq)

lemma hostStartCheck_idle: "hostStartCheck e x raw h = Inr y \<Longrightarrow> \<not> hs_running (h_host h)"
  by (auto simp: hostStartCheck_def Let_def split: sum.splits if_splits)

lemma hosts_ok_closed:
  assumes "hosts_ok hs" and "hs_host hs = Some i" and "i < length (hs_hosts hs)" and "\<not> announcing b"
  shows "hosts_ok (hs\<lparr>hs_host := None, hs_running := False, hs_target := t, hs_bypassUsed := u, hs_hosts := (hs_hosts hs)[i := b]\<rparr>)"
proof -
  have "\<not> announcing ((hs_hosts hs)[i := b] ! j)" if "j < length (hs_hosts hs)" for j
    using assms that by (cases "j = i") (auto simp: hosts_ok_def)
  then show ?thesis by (simp add: hosts_ok_def)
qed

lemma hosts_ok_stop:
  assumes "hosts_ok (h_host h)"
  shows "hosts_ok (h_host (call_state (hostStop e raw h)))"
proof (cases "hs_running (h_host h)")
  case False
  with assms show ?thesis by (simp add: hostStop_def Let_def)
next
  case True
  with assms obtain i where i: "hs_host (h_host h) = Some i" "i < length (hs_hosts (h_host h))"
    by (auto simp: hosts_ok_def)
  show ?thesis
    using True i hosts_ok_closed[OF assms i] closeHosting_silent[of "hs_hosts (h_host h) ! i"]
    by (cases "closeHosting (hs_hosts (h_host h) ! i)") (simp_all add: hostStop_def Let_def)
qed

lemma hosts_ok_cong:
  "hs_running hs' = hs_running hs \<Longrightarrow> hs_host hs' = hs_host hs \<Longrightarrow> hs_hosts hs' = hs_hosts hs \<Longrightarrow> hosts_ok hs' = hosts_ok hs"
  by (simp add: hosts_ok_def)

lemma closePrevious_hosts:
  "hs_running (state_of (closePrevious hs)) = hs_running hs" "hs_host (state_of (closePrevious hs)) = hs_host hs"
  "hs_hosts (state_of (closePrevious hs)) = hs_hosts hs"
  by (auto simp: closePrevious_def clearJoin_def split: option.split outcome.split)

lemma hosts_ok_closePrevious: "hosts_ok (state_of (closePrevious hs)) = hosts_ok hs"
  by (rule hosts_ok_cong) (rule closePrevious_hosts)+

lemma hosts_ok_joinLaunch: "hosts_ok (h_host h) \<Longrightarrow> hosts_ok (h_host (call_state (joinLaunch e x p l h)))"
  by (auto simp: joinLaunch_def Let_def hosts_ok_def split: prod.split bool.split)

lemma hosts_ok_life: "host_life h h' \<Longrightarrow> hosts_ok (h_host h) \<Longrightarrow> hosts_ok (h_host h')"
proof (induction rule: host_life.induct)
  case (hl_start h e x raw)
  then show ?case unfolding hostStart_def
    by - (rule requireAuth_invariant[where P = "\<lambda>h. hosts_ok (h_host h)"];
          auto intro: hosts_ok_launch dest: hostStartCheck_idle split: sum.split)
next
  case (hl_stop h e raw)
  then show ?case by (rule hosts_ok_stop)
next
  case (hl_join h e x raw)
  have "hosts_ok (state_of (closePrevious (h_host h)))" using hl_join by (simp add: hosts_ok_closePrevious)
  with hl_join show ?case unfolding joinStart_def
    by - (rule requireAuth_invariant[where P = "\<lambda>h. hosts_ok (h_host h)"];
          auto simp: Let_def intro!: hosts_ok_joinLaunch split: sum.split prod.split outcome.split)
next
  case (hl_unjoin h raw)
  have "hosts_ok (state_of (closePrevious (h_host h)))" using hl_unjoin by (simp add: hosts_ok_closePrevious)
  with hl_unjoin show ?case by (auto simp: joinStop_def Let_def split: outcome.split)
next
  case (hl_evolve i h p s)
  let ?b = "(hs_hosts (h_host h) ! i)\<lparr>ho_sig := s, ho_pm := p\<rparr>"
  have "announcing ((hs_hosts (h_host h))[i := ?b] ! j) = announcing (hs_hosts (h_host h) ! j)"
    if "j < length (hs_hosts (h_host h))" for j
    using that by (cases "j = i") simp_all
  with hl_evolve show ?case by (simp add: hosts_ok_def)
qed

interpretation hosting: invariant_system "\<lambda>h. h_host h = newHostState" host_life "\<lambda>h. hosts_ok (h_host h)"
proof unfold_locales
  show "hosts_ok (h_host h)" if "h_host h = newHostState" for h :: "'a HostHandlers_scheme"
    using that by (simp add: newHostState_def hosts_ok_def)
qed (rule hosts_ok_life)



text \<open>
  \<^verbatim>\<open>host.start\<close> tests whether a host is running in one critical section and sets the flag in another. If two
  requests both pass the test before either sets the flag, both succeed; stopping then closes only the second, and the
  first goes on announcing the server with nothing left that refers to it.
\<close>

theorem host_start_race:
  assumes "hostStartCheck e x raw1 h = Inr (t1, k1)" and "hostStartCheck e x raw2 h = Inr (t2, k2)"
    and "h2 = hostStartLaunch t2 k2 (hostStartLaunch t1 k1 h)" and "hostStop e raw h2 = Returned r h3"
  shows "\<not> hs_running (h_host h3) \<and> hs_host (h_host h3) = None \<and>
         announcing (hs_hosts (h_host h3) ! length (hs_hosts (h_host h)))"
proof -
  let ?n = "length (hs_hosts (h_host h))"
  have h2: "hs_running (h_host h2)" "hs_host (h_host h2) = Some (Suc ?n)"
      "hs_hosts (h_host h2) = hs_hosts (h_host h) @ [newHosting t1 k1, newHosting t2 k2]"
    using assms(3) by (simp_all add: hostStartLaunch_def Let_def)
  show ?thesis
  proof (cases "closeHosting (newHosting t2 k2)")
    case (Done b)
    with assms(4) h2 show ?thesis
      by (auto simp: hostStop_def Let_def nth_append list_update_append simp del: closeHosting.simps)
  qed (use assms(4) h2 in \<open>simp_all add: hostStop_def Let_def nth_append del: closeHosting.simps\<close>)
qed

definition sample_target :: "json option" where
  "sample_target = Some (JObj [(''target'', JStr ''h:1'')])"

lemma sample_check: "hostStartCheck sample_ipc_env sample_host_env sample_target sample_host = Inr (''h:1'', None)"
  by (simp add: hostStartCheck_def parseHostStart_def sample_target_def unmarshalPayload_def jfields_def strField_def
      boolField_def lower_char_def Let_def TrimSpace_def is_space_def ParseTarget_def SplitHostPort_def lastIndex_def
      checkBrackets_def JoinHostPort_def Atoi_def digits_val_def digit_val_def is_digit_def bypassBytes_def
      sample_host_def WatchHandlers.extend_def newHostState_def)

lemma fresh_hosting_closes: "\<exists>b. closeHosting (newHosting t k) = Done b"
  by (simp add: newHosting_def HostManager_Close_def NewHostManager_def liveSessions_def)

theorem host_start_race_witness:
  "\<exists>r h3. hostStop sample_ipc_env None (hostStartLaunch ''h:1'' None (hostStartLaunch ''h:1'' None sample_host)) = Returned r h3 \<and>
          \<not> hs_running (h_host h3) \<and> announcing (hs_hosts (h_host h3) ! 0)"
proof -
  have "hs_hosts (h_host sample_host) = []"
    by (simp add: sample_host_def WatchHandlers.extend_def newHostState_def)
  moreover obtain b where "closeHosting (newHosting ''h:1'' None) = Done b" using fresh_hosting_closes by blast
  ultimately obtain r h3 where
      "hostStop sample_ipc_env None (hostStartLaunch ''h:1'' None (hostStartLaunch ''h:1'' None sample_host)) = Returned r h3"
    by (simp add: hostStop_def hostStartLaunch_def Let_def nth_append del: closeHosting.simps)
  with host_start_race[OF sample_check sample_check refl this] \<open>hs_hosts _ = []\<close> show ?thesis by auto
qed

section \<open>Joining\<close>

text \<open>
  A peer joined by its pmid has no name, so a second \<^verbatim>\<open>join.start\<close> by pmid on the same address is taken for a
  repetition, whoever it names: it reports success, and the join stays with the first peer.
\<close>

theorem join_pmid_ignored:
  assumes "parseJoinStart raw1 = Inr \<lparr>jp_Name = '''', jp_ProfileID = '''', jp_PMID = a, jp_Listen = listen\<rparr>"
    and "parseJoinStart raw2 = Inr \<lparr>jp_Name = '''', jp_ProfileID = '''', jp_PMID = b, jp_Listen = listen\<rparr>"
    and "a \<noteq> ''''" and "b \<noteq> ''''" and "uuid_parse (ie_api e) a = Some i" and "he_listenErr x = None"
    and "\<not> hs_joinRunning (h_host h)" and "hs_join (h_host h) = None"
    and "joinStart e x raw1 h = Returned (Inr v1) h1" and "EnsureFreshSilent (ie_auth e) (h_session h1) = Some (Inr t, s)"
  shows "\<exists>v2 h2 k. joinStart e x raw2 h1 = Returned (Inr v2) h2 \<and> h_host h2 = h_host h1 \<and> hs_join (h_host h2) = Some k \<and>
           jm_peerPmid (jo_jm (hs_joins (h_host h2) ! k)) = i"
proof -
  let ?listen = "if listen = '''' then ''127.0.0.1:25577'' else listen"
  have h1: "hs_joinRunning (h_host h1)" "hs_joinPeer (h_host h1) = ''''" "hs_joinListen (h_host h1) = ?listen"
      "hs_join (h_host h1) = Some (length (hs_joins (h_host h)))"
      "jm_peerPmid (jo_jm (hs_joins (h_host h1) ! length (hs_joins (h_host h)))) = i"
    using assms(1,3,5-9)
    by (auto simp: joinStart_def requireAuth_def Let_def resolveJoinPeer_def joinLaunch_def Listen_def closePrevious_def
        clearJoin_def NewJoinManager_def nth_append TrimSpace_def split: option.splits sum.splits if_splits)
  then have "\<exists>v2. joinStart e x raw2 h1 = Returned (Inr v2) (h1\<lparr>h_session := s\<rparr>)"
    using assms(2,4,10) by (simp add: joinStart_def requireAuth_def Let_def TrimSpace_def)
  with h1 show ?thesis by fastforce
qed

text \<open>
  \<^verbatim>\<open>join.start\<close> with only a profile id looks it up as if it were a pmid: when the lookup succeeds, the peer
  that is joined has the profile id for its pmid.
\<close>

theorem join_profile_as_pmid:
  assumes "jp_PMID p = ''''" and "jp_Name p = ''''" and "ParseUndashed (uuid_parse (ie_api e)) (jp_ProfileID p) = Some i"
    and "resolveJoinPeer e p c = (Inr peer, c')"
  shows "peer_PMID peer = i"
proof -
  have "peer_PMID q = i" if "resolveByPmid e' now i c = (Inr q, c'')" for e' now q c''
    using that by (auto simp: resolveByPmid_def Let_def split: prod.splits sum.splits option.splits if_splits)
  then show ?thesis
    using assms by (auto simp: resolveJoinPeer_def ResolvePeer_def Let_def split: prod.splits sum.splits if_splits)
qed

definition lasting_host :: HostHandlers where
  "lasting_host = sample_host\<lparr>h_session := SetMojangSession ''t'' ''A'' ''n'' 1000000000000000 signed_in\<rparr>"

definition sample_pmid :: "string \<Rightarrow> json option" where
  "sample_pmid p = Some (JObj [(''pmid'', JStr p)])"

lemma sample_pmid_parsed:
  "parseJoinStart (sample_pmid p) = Inr \<lparr>jp_Name = '''', jp_ProfileID = '''', jp_PMID = p, jp_Listen = ''''\<rparr>"
  by (simp add: parseJoinStart_def sample_pmid_def unmarshalPayload_def jfields_def strField_def lower_char_def)

lemma lasting_fresh: "\<exists>t. EnsureFreshSilent e (SetMojangSession ''t'' ''A'' ''n'' 1000000000000000 signed_in) =
    Some (Inr t, SetMojangSession ''t'' ''A'' ''n'' 1000000000000000 signed_in)"
  by (simp add: EnsureFreshSilent_def EnsureFreshSilent_from_def SetMojangSession_def fresh_def refreshMargin_def signed_in_def)

theorem join_pmid_ignored_witness:
  "\<exists>v1 h1 v2 h2 k. joinStart sample_ipc_env sample_host_env (sample_pmid ''P'') lasting_host = Returned (Inr v1) h1 \<and>
     joinStart sample_ipc_env sample_host_env (sample_pmid ''Q'') h1 = Returned (Inr v2) h2 \<and>
     hs_join (h_host h2) = Some k \<and> jm_peerPmid (jo_jm (hs_joins (h_host h2) ! k)) = ''P''"
proof -
  have host: "h_host lasting_host = newHostState"
    by (simp add: lasting_host_def sample_host_def WatchHandlers.extend_def)
  obtain t where fr: "EnsureFreshSilent (ie_auth sample_ipc_env) (h_session lasting_host) = Some (Inr t, h_session lasting_host)"
    using lasting_fresh by (auto simp: lasting_host_def)
  have up: "uuid_parse (ie_api sample_ipc_env) ''P'' = Some ''P''"
    by (simp add: sample_ipc_env_def sample_api_env_def)
  obtain v1 h1 where j: "joinStart sample_ipc_env sample_host_env (sample_pmid ''P'') lasting_host = Returned (Inr v1) h1"
      and "h_session h1 = h_session lasting_host"
    using fr up
    by (simp add: joinStart_def requireAuth_def sample_pmid_parsed Let_def host newHostState_def closePrevious_def clearJoin_def
        resolveJoinPeer_def joinLaunch_def Listen_def sample_host_env_def Notify_def writeLine_def)
  then show ?thesis
    using join_pmid_ignored[OF sample_pmid_parsed sample_pmid_parsed, of "''P''" "''Q''" sample_ipc_env "''P''" sample_host_env lasting_host v1 h1]
      fr up host by (simp add: sample_host_env_def newHostState_def) blast
qed

theorem join_profile_as_pmid_witness:
  "\<exists>peer c'. resolveJoinPeer (accepting_env 5) \<lparr>jp_Name = '''', jp_ProfileID = ''X'', jp_PMID = '''', jp_Listen = ''''\<rparr>
       (NewApiClient None) = (Inr peer, c') \<and> peer_PMID peer = ''X''"
proof -
  let ?p = "\<lparr>jp_Name = '''', jp_ProfileID = ''X'', jp_PMID = '''', jp_Listen = ''''\<rparr>"
  have parse: "ParseUndashed (uuid_parse (ie_api (accepting_env 5))) ''X'' = Some ''X''"
    by (simp add: ParseUndashed_def accepting_env_def sample_api_env_def)
  have "\<exists>peer c'. resolveJoinPeer (accepting_env 5) ?p (NewApiClient None) = (Inr peer, c')"
    by (simp add: resolveJoinPeer_def ResolvePeer_def ParseUndashed_def accepting_env_def sample_api_env_def resolveByPmid_def
        PostPresence_def NewApiClient_def PresenceInCooldown_def ClearPresenceETag_def doWithRetry_def retryLoop.simps Let_def
        etagIfEnabled_def firstNonEmpty_def uuid_nil_def sample_ipc_env_def)
  then obtain peer c' where r: "resolveJoinPeer (accepting_env 5) ?p (NewApiClient None) = (Inr peer, c')" by blast
  have "peer_PMID peer = ''X''" using join_profile_as_pmid[OF _ _ _ r, of "''X''"] parse by simp
  with r show ?thesis by blast
qed

end
