(* ===== verification/Update.thy ===== *)
theory Update
  imports Messages
begin

text \<open>
  The self-updater, \<^verbatim>\<open>src/internal/update\<close> (\<^verbatim>\<open>update.go\<close>, \<^verbatim>\<open>replace_unix.go\<close>, \<^verbatim>\<open>replace_windows.go\<close>): the version
  check against the manifest, and the replacement of the running binary by a downloaded one.

  The answers to the two requests are arguments. The file system is a map from paths to
  contents, and the operations on it take whether the system refuses them.
\<close>

section \<open>Model\<close>

subsection \<open>Versions\<close>

text \<open>The digits before the first other character, as a 64-bit \<^verbatim>\<open>int\<close>.\<close>

fun leadingNumber :: "string \<Rightarrow> int64 \<Rightarrow> int64" where
  "leadingNumber [] n = n"
| "leadingNumber (ch # s) n = (if \<not> is_digit ch then n else leadingNumber s (n * 10 + of_int (digit_val ch)))"

definition parseVersion :: "string \<Rightarrow> int64 list" where
  "parseVersion s = map (\<lambda>p. leadingNumber p 0) (Split (CHR ''.'') (TrimPrefix ''v'' (TrimSpace s)))"

fun newerParts :: "int64 list \<Rightarrow> int64 list \<Rightarrow> bool" where
  "newerParts (x # a) (y # b) = (if x \<noteq> y then sint x > sint y else newerParts a b)"
| "newerParts a b = (length a > length b)"

definition isNewer :: "string \<Rightarrow> string \<Rightarrow> bool" where
  "isNewer latest current =
     (if latest = '''' then False
      else if current = '''' \<or> current = ''dev'' then True
      else newerParts (parseVersion latest) (parseVersion current))"

subsection \<open>The check\<close>

record Checker =
  ManifestURL :: string
  ManifestKey :: string
  Repo :: string
  Current :: string

definition DefaultManifestURL :: string where "DefaultManifestURL = ''https://api.zpw.jp/version/''"
definition DefaultManifestKey :: string where "DefaultManifestKey = ''OpenFriend''"
definition DefaultRepo :: string where "DefaultRepo = ''zerozshare/OpenFriendMC''"

definition DownloadURLTpl :: string where
  "DownloadURLTpl = ''https://github.com/{repo}/releases/download/v{version}/openfriend-{os}-{arch}{ext}''"

record Outcome =
  Latest :: string
  Available :: bool

datatype update_error =
    FetchManifest string
  | ManifestStatus nat
  | ManifestJSON
  | DownloadError string
  | DownloadStatus nat string
  | TempError
  | CopyError
  | SelfPathError string
  | ChmodError
  | RenameError

text \<open>The manifest answer: a transport error, or the status and the body as parsed.\<close>

definition fetchLatest :: "(string \<Rightarrow> string + nat \<times> json option) \<Rightarrow> Checker \<Rightarrow> update_error + string" where
  "fetchLatest get c =
     (case get (ManifestURL c) of
        Inl e \<Rightarrow> Inl (FetchManifest e)
      | Inr (status, body) \<Rightarrow>
          if status \<noteq> 200 then Inl (ManifestStatus status)
          else (case Option.bind body unmarshalPayload of
                  None \<Rightarrow> Inl ManifestJSON
                | Some m \<Rightarrow> Inr (TrimSpace (jstr (ManifestKey c) m))))"

definition withDefaults :: "Checker \<Rightarrow> Checker" where
  "withDefaults c =
     c\<lparr>ManifestURL := (if ManifestURL c = '''' then DefaultManifestURL else ManifestURL c),
       ManifestKey := (if ManifestKey c = '''' then DefaultManifestKey else ManifestKey c),
       Repo := (if Repo c = '''' then DefaultRepo else Repo c)\<rparr>"

definition Check :: "(string \<Rightarrow> string + nat \<times> json option) \<Rightarrow> Checker \<Rightarrow> (update_error + Outcome) \<times> Checker" where
  "Check get c =
     (let c1 = withDefaults c
      in (case fetchLatest get c1 of
            Inl e \<Rightarrow> (Inl e, c1)
          | Inr latest \<Rightarrow>
              let l = TrimPrefix ''v'' latest
              in (Inr \<lparr>Latest = l, Available = (l \<noteq> '''' \<and> isNewer l (Current c1))\<rparr>, c1)))"

subsection \<open>Replacing the binary\<close>

definition expandTemplate :: "string \<Rightarrow> string \<Rightarrow> string \<Rightarrow> string \<Rightarrow> string" where
  "expandTemplate goos goarch repo version =
     replacer [(''{repo}'', repo), (''{version}'', version), (''{os}'', goos), (''{arch}'', goarch),
               (''{ext}'', if goos = ''windows'' then ''.exe'' else '''')] 0 DownloadURLTpl"

type_synonym files = "string \<rightharpoonup> bytes"

definition fs_rename :: "bool \<Rightarrow> string \<Rightarrow> string \<Rightarrow> files \<Rightarrow> bool \<times> files" where
  "fs_rename refused old new fs =
     (if refused then (False, fs)
      else (case fs old of
              None \<Rightarrow> (False, fs)
            | Some content \<Rightarrow> (True, fs(old := None, new := Some content))))"

definition fs_remove :: "string \<Rightarrow> files \<Rightarrow> files" where
  "fs_remove path fs = fs(path := None)"

definition replaceSelf_unix :: "bool \<Rightarrow> string \<Rightarrow> string \<Rightarrow> files \<Rightarrow> bool \<times> files" where
  "replaceSelf_unix refused currentPath newPath fs = fs_rename refused newPath currentPath fs"

text \<open>On Windows the running binary is moved aside first; \<^verbatim>\<open>r1\<close>, \<^verbatim>\<open>r2\<close> and \<^verbatim>\<open>r3\<close> are whether the three
  renames are refused.\<close>

definition replaceSelf_windows :: "bool \<Rightarrow> bool \<Rightarrow> bool \<Rightarrow> string \<Rightarrow> string \<Rightarrow> files \<Rightarrow> bool \<times> files" where
  "replaceSelf_windows r1 r2 r3 currentPath newPath fs =
     (let oldBackup = currentPath @ ''.old'';
          fs1 = fs_remove oldBackup fs
      in (case fs_rename r1 currentPath oldBackup fs1 of
            (False, fs2) \<Rightarrow> (False, fs2)
          | (True, fs2) \<Rightarrow>
              (case fs_rename r2 newPath currentPath fs2 of
                 (True, fs3) \<Rightarrow> (True, fs3)
               | (False, fs3) \<Rightarrow> (False, snd (fs_rename r3 oldBackup currentPath fs3)))))"

text \<open>
  \<^verbatim>\<open>download\<close>: \<^verbatim>\<open>get\<close> gives a transport error, or the status, the bytes of the body that arrive, and whether the body
  breaks off. \<^verbatim>\<open>tmp\<close> is the fresh path of \<^verbatim>\<open>os.CreateTemp\<close>, \<^verbatim>\<open>None\<close> when it fails.
\<close>

definition download ::
    "(string \<Rightarrow> string + nat \<times> bytes \<times> bool) \<Rightarrow> string option \<Rightarrow> string \<Rightarrow> files \<Rightarrow> (update_error + string) \<times> files" where
  "download get tmp url fs =
     (case get url of
        Inl e \<Rightarrow> (Inl (DownloadError e), fs)
      | Inr (status, body, broken) \<Rightarrow>
          if status \<noteq> 200 then (Inl (DownloadStatus status url), fs)
          else (case tmp of
                  None \<Rightarrow> (Inl TempError, fs)
                | Some tmpPath \<Rightarrow>
                    if broken then (Inl CopyError, fs_remove tmpPath (fs(tmpPath \<mapsto> body)))
                    else (Inr tmpPath, fs(tmpPath \<mapsto> body))))"

text \<open>\<^verbatim>\<open>exe\<close> is what \<^verbatim>\<open>os.Executable\<close> says, \<^verbatim>\<open>links\<close> what \<^verbatim>\<open>filepath.EvalSymlinks\<close> makes of it.\<close>

definition selfExecutablePath :: "string + string \<Rightarrow> (string \<Rightarrow> string option) \<Rightarrow> update_error + string" where
  "selfExecutablePath exe links =
     (case exe of
        Inl e \<Rightarrow> Inl (SelfPathError e)
      | Inr p \<Rightarrow> Inr (case links p of None \<Rightarrow> p | Some q \<Rightarrow> q))"

text \<open>\<^verbatim>\<open>Apply\<close>: \<^verbatim>\<open>self\<close> is the result of \<^verbatim>\<open>selfExecutablePath\<close>, \<^verbatim>\<open>replace\<close> the platform's \<^verbatim>\<open>replaceSelf\<close>.\<close>

definition Apply ::
    "(string \<Rightarrow> string + nat \<times> bytes \<times> bool) \<Rightarrow> string option \<Rightarrow> update_error + string \<Rightarrow> bool \<Rightarrow>
     (string \<Rightarrow> string \<Rightarrow> files \<Rightarrow> bool \<times> files) \<Rightarrow> string \<Rightarrow> string \<Rightarrow> string \<Rightarrow> Checker \<Rightarrow> files \<Rightarrow>
     (update_error + string) \<times> files" where
  "Apply get tmp self chmodErr replace goos goarch version c fs =
     (let repo = (if Repo c = '''' then DefaultRepo else Repo c)
      in (case download get tmp (expandTemplate goos goarch repo version) fs of
            (Inl e, fs1) \<Rightarrow> (Inl e, fs1)
          | (Inr tmpPath, fs1) \<Rightarrow>
              (case self of
                 Inl e \<Rightarrow> (Inl e, fs_remove tmpPath fs1)
               | Inr selfPath \<Rightarrow>
                   if chmodErr then (Inl ChmodError, fs_remove tmpPath fs1)
                   else (case replace selfPath tmpPath fs1 of
                           (False, fs2) \<Rightarrow> (Inl RenameError, fs_remove tmpPath fs2)
                         | (True, fs2) \<Rightarrow> (Inr selfPath, fs2)))))"

text \<open>\<^verbatim>\<open>ReExec\<close> replaces the process, or on Windows starts another one and exits; it returns only when that fails.\<close>

datatype re_exec = Replaced string "string list" | Spawned string "string list" | ExecFailed

definition ReExec_unix :: "bool \<Rightarrow> string \<Rightarrow> string list \<Rightarrow> re_exec" where
  "ReExec_unix refused path args = (if refused then ExecFailed else Replaced path args)"

definition ReExec_windows :: "bool \<Rightarrow> string \<Rightarrow> string list \<Rightarrow> re_exec" where
  "ReExec_windows refused path args = (if refused then ExecFailed else Spawned path (path # drop 1 args))"

section \<open>The order of versions\<close>

lemma leadingNumber_digits:
  "list_all is_digit s \<Longrightarrow> leadingNumber s n = of_int (foldl (\<lambda>n ch. n * 10 + digit_val ch) (uint n) s)"
proof (induction s arbitrary: n)
  case (Cons ch s)
  have "(of_int (foldl (\<lambda>n ch. n * 10 + digit_val ch) a s) :: int64) = of_int (foldl (\<lambda>n ch. n * 10 + digit_val ch) b s)"
    if "(of_int a :: int64) = of_int b" for a b
    using that by (induction s arbitrary: a b) simp_all
  from this[of "uint (n * 10 + of_int (digit_val ch))" "uint n * 10 + digit_val ch"] Cons show ?case by simp
qed simp

lemma leadingNumber_show: "leadingNumber (show_nat n) 0 = of_nat n"
  using leadingNumber_digits[of "show_nat n" 0] show_nat_digits[of n] by (simp add: digits_val_def)

text \<open>A version number as it is written: decimal numbers with dots between them.\<close>

definition render :: "nat list \<Rightarrow> string" where
  "render ns = Join (CHR ''.'') (map show_nat ns)"

lemma digit_not_dot: "is_digit ch \<Longrightarrow> ch \<noteq> CHR ''.'' \<and> \<not> is_space ch \<and> ch \<noteq> CHR ''v'' \<and> ch \<noteq> CHR ''d''"
  by (auto simp: is_digit_def digit_val_def is_space_def)

lemma Join_ends:
  assumes "ps \<noteq> []" and "list_all (\<lambda>p. p \<noteq> [] \<and> list_all is_digit p) ps"
  shows "Join sep ps \<noteq> [] \<and> is_digit (hd (Join sep ps)) \<and> is_digit (last (Join sep ps))"
  using assms
proof (induction sep ps rule: Join.induct)
  case (2 sep p)
  then show ?case by (auto simp: list_all_iff)
next
  case (3 sep p q ps)
  then show ?case by (cases p) auto
qed simp

lemma show_nat_parts: "list_all (\<lambda>p. p \<noteq> [] \<and> list_all is_digit p) (map show_nat ns)"
  using show_nat_digits by (simp add: list_all_iff)

lemma parseVersion_render:
  assumes "ns \<noteq> []"
  shows "parseVersion (render ns) = map of_nat ns"
proof -
  have ends: "render ns \<noteq> []" "is_digit (hd (render ns))" "is_digit (last (render ns))"
    using Join_ends[OF _ show_nat_parts, of ns "CHR ''.''"] assms by (auto simp: render_def)
  then have "TrimSpace (render ns) = render ns" using digit_not_dot by (intro TrimSpace_id) auto
  moreover have "TrimPrefix ''v'' (render ns) = render ns"
    using ends digit_not_dot[OF ends(2)] by (cases "render ns") (auto simp: TrimPrefix_def)
  moreover have "list_all (\<lambda>p. CHR ''.'' \<notin> set p) (map show_nat ns)"
    using show_nat_parts[of ns] digit_not_dot by (auto simp: list_all_iff)
  then have "Split (CHR ''.'') (render ns) = map show_nat ns"
    unfolding render_def using assms by (intro Split_Join) simp_all
  ultimately show ?thesis by (simp add: parseVersion_def leadingNumber_show)
qed

lemma sint_of_nat64: "n < 2 ^ 63 \<Longrightarrow> sint (of_nat n :: int64) = int n"
  by (simp add: signed_of_nat signed_take_bit_int_eq_self)

lemma newerParts_lexord:
  assumes "list_all (\<lambda>n. n < 2 ^ 63) as" and "list_all (\<lambda>n. n < 2 ^ 63) bs"
  shows "newerParts (map of_nat as) (map of_nat bs) \<longleftrightarrow> (bs, as) \<in> lexord {(x, y). x < y}"
  using assms
proof (induction as bs rule: list_induct2')
  case (4 x as y bs)
  have s: "sint (of_nat x :: int64) = int x" "sint (of_nat y :: int64) = int y"
    using 4(2,3) by (simp_all add: sint_of_nat64)
  then have "(of_nat x :: int64) = of_nat y \<longleftrightarrow> x = y" by (metis of_nat_eq_iff)
  with s 4 show ?case by auto
qed auto

text \<open>
  The updater offers exactly the later releases: of two dotted version numbers one is newer
  than the other when it is larger in the lexicographic order of its numbers, a proper extension
  counting as larger. (Each number fits the 64-bit \<^verbatim>\<open>int\<close> it is parsed into.)
\<close>

theorem version_order:
  assumes "as \<noteq> []" and "bs \<noteq> []" and "list_all (\<lambda>n. n < 2 ^ 63) as" and "list_all (\<lambda>n. n < 2 ^ 63) bs"
  shows "isNewer (render as) (render bs) \<longleftrightarrow> (bs, as) \<in> lexord {(x, y). x < y}"
proof -
  have "render as \<noteq> []" "render bs \<noteq> []" "is_digit (hd (render bs))"
    using Join_ends[OF _ show_nat_parts, of as "CHR ''.''"] Join_ends[OF _ show_nat_parts, of bs "CHR ''.''"] assms(1,2)
    by (auto simp: render_def)
  moreover from this have "render bs \<noteq> ''dev''" using digit_not_dot[of "hd (render bs)"] by auto
  ultimately show ?thesis
    using assms by (simp add: isNewer_def parseVersion_render newerParts_lexord)
qed

theorem version_order_witness:
  "isNewer (render [1, 10]) (render [1, 9, 3]) \<and> \<not> isNewer (render [1, 9, 3]) (render [1, 10])"
  using version_order[of "[1, 10]" "[1, 9, 3]"] version_order[of "[1, 9, 3]" "[1, 10]"] by simp

section \<open>Replacing the binary\<close>

lemma expandTemplate_url:
  "expandTemplate goos goarch repo version =
     ''https://github.com/'' @ repo @ ''/releases/download/v'' @ version @ ''/openfriend-'' @ goos @ ''-'' @ goarch @
     (if goos = ''windows'' then ''.exe'' else '''')"
  by (simp add: expandTemplate_def DownloadURLTpl_def)

text \<open>What \<^verbatim>\<open>Apply\<close> relies on in the platform's \<^verbatim>\<open>replaceSelf\<close>: the new binary is in place, or the old one still is.\<close>

locale binary_replacer =
  fixes replace :: "string \<Rightarrow> string \<Rightarrow> files \<Rightarrow> bool \<times> files"
  assumes replaced: "fs self = Some old \<Longrightarrow> fs tmp = Some new \<Longrightarrow> tmp \<noteq> self \<Longrightarrow> tmp \<noteq> self @ ''.old'' \<Longrightarrow>
      replace self tmp fs = (True, fs') \<Longrightarrow> fs' self = Some new \<and> fs' tmp = None"
    and kept: "fs self = Some old \<Longrightarrow> fs tmp = Some new \<Longrightarrow> tmp \<noteq> self \<Longrightarrow> tmp \<noteq> self @ ''.old'' \<Longrightarrow>
      replace self tmp fs = (False, fs') \<Longrightarrow> fs' self = Some old"
begin

lemma Apply_result:
  assumes "fs self = Some old" and "tmp \<noteq> self" and "tmp \<noteq> self @ ''.old''" and "fs tmp = None"
    and "Apply get (Some tmp) (Inr self) chmodErr replace goos goarch version c fs = (r, fs')"
  shows "fs' tmp = None \<and>
     (case r of
        Inl e \<Rightarrow> fs' self = Some old
      | Inr p \<Rightarrow> p = self \<and> (\<exists>content. fs' self = Some content \<and>
          get (expandTemplate goos goarch (if Repo c = '''' then DefaultRepo else Repo c) version) = Inr (200, content, False)))"
proof (cases "download get (Some tmp) (expandTemplate goos goarch (if Repo c = '''' then DefaultRepo else Repo c) version) fs")
  case (Pair dl fs1)
  show ?thesis
  proof (cases dl)
    case (Inl e)
    then show ?thesis using assms Pair
      by (auto simp: Apply_def Let_def download_def fs_remove_def split: sum.splits prod.splits if_splits)
  next
    case (Inr p)
    then obtain content where c: "p = tmp" "fs1 = fs(tmp \<mapsto> content)"
        "get (expandTemplate goos goarch (if Repo c = '''' then DefaultRepo else Repo c) version) = Inr (200, content, False)"
      using Pair by (auto simp: download_def split: sum.splits prod.splits if_splits)
    obtain ok fs2 where rp: "replace self tmp fs1 = (ok, fs2)" by fastforce
    have pre: "fs1 self = Some old" "fs1 tmp = Some content" using assms(1,2) c(2) by simp_all
    have "ok \<Longrightarrow> fs2 self = Some content \<and> fs2 tmp = None" "\<not> ok \<Longrightarrow> fs2 self = Some old"
      using replaced[where fs = fs1 and fs' = fs2, OF pre assms(2,3)] kept[where fs = fs1 and fs' = fs2, OF pre assms(2,3)] rp
      by (cases ok; simp)+
    then show ?thesis
      using assms(2,5) pre Pair Inr rp c by (cases chmodErr; cases ok) (auto simp: Apply_def Let_def fs_remove_def)
  qed
qed

end

interpretation unix: binary_replacer "replaceSelf_unix refused" for refused
  by unfold_locales (auto simp: replaceSelf_unix_def fs_rename_def split: if_splits option.splits)

interpretation windows: binary_replacer "replaceSelf_windows r1 r2 False" for r1 r2
proof
  fix fs :: files and self tmp :: string and old new fs'
  assume a: "fs self = Some old" "fs tmp = Some new" "tmp \<noteq> self" "tmp \<noteq> self @ ''.old''"
  then have eq: "replaceSelf_windows r1 r2 False self tmp fs =
      (if r1 then (False, fs(self @ ''.old'' := None))
       else if r2 then (False, fs(self @ ''.old'' := None))
       else (True, fs(tmp := None, self @ ''.old'' := Some old, self := Some new)))"
    by (auto simp: replaceSelf_windows_def fs_rename_def fs_remove_def Let_def fun_eq_iff)
  show "fs' self = Some new \<and> fs' tmp = None" if "replaceSelf_windows r1 r2 False self tmp fs = (True, fs')"
    using that a unfolding eq by (auto split: if_splits)
  show "fs' self = Some old" if "replaceSelf_windows r1 r2 False self tmp fs = (False, fs')"
    using that a unfolding eq by (auto split: if_splits)
qed


definition sample_checker :: Checker where
  "sample_checker = \<lparr>ManifestURL = '''', ManifestKey = '''', Repo = '''', Current = ''1''\<rparr>"


end
