(* ===== verification/Command.thy ===== *)
theory Command
  imports CmdFlags Skin StatusFile IpcHost Update
begin

text \<open>
  The command itself, \<^verbatim>\<open>src/cmd/openfriend\<close>: the modes of \<^verbatim>\<open>main.go\<close> composed from the components, self-update, resetting,
  joining, the data directory and the shutdown.

  A run of \<^verbatim>\<open>main\<close> up to the point where it waits for a signal is a function of the command line, the files and what the
  environment answers. What it prints is left out, but for the prompts of the sign-in that the session records.
\<close>

section \<open>Model\<close>

record update_env =
  up_manifest :: "string \<Rightarrow> string + nat \<times> json option"
  up_get :: "string \<Rightarrow> string + nat \<times> bytes \<times> bool"
  up_tmp :: "string option"
  up_exe :: "string + string"
  up_links :: "string \<Rightarrow> string option"
  up_chmodErr :: bool
  up_replace :: "string \<Rightarrow> string \<Rightarrow> files \<Rightarrow> bool \<times> files"
  up_goos :: string
  up_goarch :: string
  up_exec :: "string \<Rightarrow> string list \<Rightarrow> re_exec"

record 'p cmd_env =
  ce_version :: string
  ce_auth :: auth_env
  ce_api :: env
  ce_equalFold :: "string \<Rightarrow> string \<Rightarrow> bool"
  ce_skin :: "'p skin_env"
  ce_skinAnswer :: "nat \<Rightarrow> http_answer"
  ce_fuel :: nat
  ce_status :: status_env
  ce_update :: update_env
  ce_home :: "string option"
  ce_mkdir :: "string \<Rightarrow> bool"
  ce_temp :: "string \<Rightarrow> bool"
  ce_listenErr :: bool
  ce_blocks :: bl_file
  ce_cache :: "diskCache option"
  ce_input :: "string list"

subsection \<open>Self-update\<close>

text \<open>\<^verbatim>\<open>args\<close> is \<^verbatim>\<open>os.Args[1:]\<close>. The result is what became of the process, \<^verbatim>\<open>None\<close> when it goes on.\<close>

definition maybeSelfUpdate :: "update_env \<Rightarrow> string \<Rightarrow> string list \<Rightarrow> files \<Rightarrow> re_exec option \<times> files" where
  "maybeSelfUpdate u vsn args fs =
     (case Check (up_manifest u) \<lparr>ManifestURL = '''', ManifestKey = '''', Repo = '''', Current = vsn\<rparr> of
        (Inl err, c) \<Rightarrow> (None, fs)
      | (Inr out, c) \<Rightarrow>
          if \<not> Available out then (None, fs)
          else (case Apply (up_get u) (up_tmp u) (selfExecutablePath (up_exe u) (up_links u)) (up_chmodErr u) (up_replace u)
                       (up_goos u) (up_goarch u) (Latest out) c fs of
                  (Inl err, fs1) \<Rightarrow> (None, fs1)
                | (Inr newPath, fs1) \<Rightarrow>
                    (case up_exec u newPath (newPath # ''--no-update'' # args) of
                       ExecFailed \<Rightarrow> (None, fs1)
                     | r \<Rightarrow> (Some r, fs1))))"

subsection \<open>Directories\<close>

definition canWriteDir :: "'p cmd_env \<Rightarrow> string \<Rightarrow> bool" where
  "canWriteDir e dir \<longleftrightarrow> ce_mkdir e dir \<and> ce_temp e dir"

definition resolveDataDir :: "'p cmd_env \<Rightarrow> string" where
  "resolveDataDir e =
     (let home = (case ce_home e of Some h \<Rightarrow> path_Join h ''.openfriend'' | None \<Rightarrow> ''openfriend-data'')
      in (case selfExecutablePath (up_exe (ce_update e)) (up_links (ce_update e)) of
            Inl err \<Rightarrow> home
          | Inr exe \<Rightarrow>
              let candidate = path_Join (path_Dir exe) ''data''
              in if canWriteDir e candidate then candidate else home))"

definition authPath :: "'p cmd_env \<Rightarrow> Flags \<Rightarrow> string" where
  "authPath e fl =
     (if authFile fl = ''''
      then path_Join (if dataDir fl = '''' then resolveDataDir e else dataDir fl) ''auth.pem''
      else authFile fl)"

subsection \<open>Resetting\<close>

text \<open>The files, the requests of the sign-in and of the services client, and the prompts that nobody saw.\<close>

record ResetRun =
  rr_disk :: disk
  rr_net :: AuthNet
  rr_api :: "ApiClient option"
  rr_prompts :: "DeviceCodePrompt list"

definition announceOfflineBeforeReset :: "auth_env \<Rightarrow> env \<Rightarrow> string \<Rightarrow> disk \<Rightarrow> AuthNet \<Rightarrow> ResetRun option" where
  "announceOfflineBeforeReset au ae path d n =
     (case Authenticate au (NewAuthSession path True d n) of
        None \<Rightarrow> None
      | Some (r, s) \<Rightarrow>
          Some \<lparr>rr_disk = se_disk s, rr_net = se_net s,
                rr_api = (case r of
                            Inl err \<Rightarrow> None
                          | Inr t \<Rightarrow> Some (snd (AnnounceOffline ae (net_now (se_net s)) (NewApiClient None)))),
                rr_prompts = se_prompts s\<rparr>)"

definition removeIfExists :: "auth_env \<Rightarrow> string \<Rightarrow> disk \<Rightarrow> disk" where
  "removeIfExists au path d = removeFile au path d"

definition TrimSuffix :: "string \<Rightarrow> string \<Rightarrow> string" where
  "TrimSuffix suf s = (if suffix suf s then take (length s - length suf) s else s)"

text \<open>What happens to the result of loading the credentials; \<^verbatim>\<open>None\<close> is a panic.\<close>

definition beforeReset ::
    "auth_env \<Rightarrow> env \<Rightarrow> string \<Rightarrow> store_error + Tokens option \<Rightarrow> disk \<Rightarrow> AuthNet \<Rightarrow> ResetRun option" where
  "beforeReset au ae path saved d n =
     (let quiet = Some \<lparr>rr_disk = d, rr_net = n, rr_api = None, rr_prompts = []\<rparr>
      in (case saved of
            Inr (Some t) \<Rightarrow> if MsRefreshToken t \<noteq> '''' then announceOfflineBeforeReset au ae path d n else quiet
          | _ \<Rightarrow> quiet))"

definition doReset :: "auth_env \<Rightarrow> env \<Rightarrow> string \<Rightarrow> disk \<Rightarrow> AuthNet \<Rightarrow> ResetRun option" where
  "doReset au ae path d n =
     (let skinLock = path_Join (path_Dir path) ''skin.lock'';
          legacyJSON = TrimSuffix ''.pem'' path @ ''.json''
      in (case Store_Load au path d of
            None \<Rightarrow> None
          | Some (saved, d1) \<Rightarrow>
              (case beforeReset au ae path saved d1 n of
                 None \<Rightarrow> None
               | Some r \<Rightarrow>
                   let d2 = removeIfExists au path (rr_disk r);
                       d3 = (if legacyJSON \<noteq> path then removeIfExists au legacyJSON d2 else d2)
                   in Some (r\<lparr>rr_disk := removeIfExists au skinLock d3\<rparr>))))"

subsection \<open>The modes\<close>

record Process =
  pr_session :: AuthSession
  pr_api :: ApiClient
  pr_status :: StatusWriter
  pr_uploads :: "(string \<times> string \<times> string) list"
  pr_files :: files

record hostRun =
  hr_host :: hosting
  hr_refresher :: Refresher
  hr_refreshing :: bool

record joinRun =
  jr_join :: joining
  jr_bc :: Broadcaster

text \<open>Where \<^verbatim>\<open>main\<close> is: at its end, crashed, in a call that has not returned, replaced, or serving until it is told to stop.\<close>

datatype main_end =
    Exited nat | Crashed | Uploading | ReExecuted re_exec | Serving "HostHandlers ServerRun" | Hosting hostRun | Joining joinRun

definition setStatus :: "'p cmd_env \<Rightarrow> (StatusSnapshot \<Rightarrow> StatusSnapshot) \<Rightarrow> Process \<Rightarrow> Process" where
  "setStatus e m p =
     (case Status_Update (ce_auth e) (ce_status e) m (net_now (se_net (pr_session p))) (pr_status p, se_disk (pr_session p)) of
        (w, d) \<Rightarrow> p\<lparr>pr_status := w, pr_session := (pr_session p)\<lparr>se_disk := d\<rparr>\<rparr>)"

definition runJoinMode :: "'p cmd_env \<Rightarrow> Flags \<Rightarrow> Process \<Rightarrow> main_end \<times> Process" where
  "runJoinMode e fl p =
     (case ResolvePeer (ce_equalFold e) (ce_api e) (net_now (se_net (pr_session p))) (joinTarget fl) (pr_api p) of
        (Inl err, c) \<Rightarrow> (Exited 1, p\<lparr>pr_api := c\<rparr>)
      | (Inr peer, c) \<Rightarrow>
          (case Listen (ce_listenErr e) (NewJoinManager (peer_PMID peer)) of
             (False, jm) \<Rightarrow> (Exited 1, p\<lparr>pr_api := c\<rparr>)
           | (True, jm) \<Rightarrow>
               (Joining \<lparr>jr_join = \<lparr>jo_sig = Connect NewClient, jo_jm = jm\<rparr>,
                         jr_bc = Broadcaster_Start (NewBroadcaster StatusOnline (30 * 1000000000) [])\<rparr>,
                p\<lparr>pr_api := c\<rparr>)))"

text \<open>The rest of \<^verbatim>\<open>main\<close> when no other mode is asked for; \<^verbatim>\<open>dir\<close> is the directory of the credentials.\<close>

definition runHostMode :: "'p cmd_env \<Rightarrow> Flags \<Rightarrow> string \<Rightarrow> Process \<Rightarrow> main_end \<times> Process" where
  "runHostMode e fl dir p =
     (let keyPath = (if bypassKeyPath fl = '''' then path_Join dir ''bypass.pem'' else bypassKeyPath fl);
          key = (case LoadOrAbsent (ce_auth e) keyPath (se_disk (pr_session p)) of Inl err \<Rightarrow> None | Inr k \<Rightarrow> k);
          p1 = setStatus e (\<lambda>s. s\<lparr>sn_BypassEnabled := (key \<noteq> None)\<rparr>) p;
          host = \<lparr>ho_sig = Connect NewClient, ho_pm = NewHostManager (target fl) key,
                  ho_bc = Broadcaster_Start (NewBroadcaster StatusPlayingHostedServer (intervalSec fl * 1000000000) [])\<rparr>;
          p2 = setStatus e (\<lambda>s. s\<lparr>sn_PresenceStatus := ''PLAYING_HOSTED_SERVER'', sn_PresenceRunning := True,
                                  sn_SignalingConnected := True\<rparr>) p1
      in (Hosting \<lparr>hr_host = host, hr_refresher = NewRefresher (\<not> noAutoAccept fl), hr_refreshing = True\<rparr>, p2))"

text \<open>\<^verbatim>\<open>main\<close> once the session is authenticated.\<close>

definition runSignedIn :: "'p cmd_env \<Rightarrow> Flags \<Rightarrow> string \<Rightarrow> Tokens \<Rightarrow> Process \<Rightarrow> main_end \<times> Process" where
  "runSignedIn e fl path tokens p =
     (let dir = path_Dir path;
          p1 = setStatus e (\<lambda>s. s\<lparr>sn_Authenticated := True, sn_ProfileID := au_uuid_text (ce_auth e) (ProfileID tokens),
                                  sn_ProfileName := tk_Name tokens, sn_Version := ce_version e\<rparr>)
                 (p\<lparr>pr_status := NewStatusWriter dir\<rparr>);
          go = (\<lambda>p. if announceOffline fl
                    then (Exited 0, p\<lparr>pr_api := snd (AnnounceOffline (ce_api e) (net_now (se_net (pr_session p))) (pr_api p))\<rparr>)
                    else if joinTarget fl \<noteq> '''' then runJoinMode e fl p
                    else runHostMode e fl dir p)
      in if skinPath fl = '''' then go p1
         else (case ensureSkin (ce_skin e) (ce_auth e) (ce_fuel e) (ce_skinAnswer e) (skinPath fl) (skinVariant fl)
                      (path_Join dir ''skin.lock'') (pr_api p1) (se_disk (pr_session p1)) of
                 None \<Rightarrow> (Uploading, p1)
               | Some r \<Rightarrow>
                   let p2 = p1\<lparr>pr_api := sr_client r, pr_uploads := sr_uploads r,
                               pr_session := (pr_session p1)\<lparr>se_disk := sr_disk r\<rparr>\<rparr>
                   in if sr_err r \<noteq> None then (Exited 1, p2) else go p2))"

definition runMain :: "'p cmd_env \<Rightarrow> Flags \<Rightarrow> Process \<Rightarrow> main_end \<times> Process" where
  "runMain e fl p =
     (let path = authPath e fl;
          d = se_disk (pr_session p); n = se_net (pr_session p)
      in if ipcStdio fl
         then (Serving (runIpcStdio (ce_version e) (au_uuid (ce_auth e)) path (path_Dir path) d n (ce_blocks e) (ce_cache e) (ce_input e)), p)
         else if resetState fl
         then (case doReset (ce_auth e) (ce_api e) path d n of
                 None \<Rightarrow> (Crashed, p)
               | Some r \<Rightarrow> (Exited 0, p\<lparr>pr_session := (pr_session p)\<lparr>se_disk := rr_disk r, se_net := rr_net r\<rparr>\<rparr>))
         else (case ParseTarget (target fl) of
                 Inl err \<Rightarrow> (Exited 2, p)
               | Inr hp \<Rightarrow>
                   (case Authenticate (ce_auth e) (NewAuthSession path True d n) of
                      None \<Rightarrow> (Crashed, p)
                    | Some (Inl err, s) \<Rightarrow> (Exited 1, p\<lparr>pr_session := s\<rparr>)
                    | Some (Inr tokens, s) \<Rightarrow> runSignedIn e fl path tokens (p\<lparr>pr_session := s\<rparr>))))"

definition newProcess :: "disk \<Rightarrow> AuthNet \<Rightarrow> files \<Rightarrow> Process" where
  "newProcess d n fs =
     \<lparr>pr_session = NewAuthSession '''' False d n, pr_api = NewApiClient None, pr_status = NewStatusWriter '''',
      pr_uploads = [], pr_files = fs\<rparr>"

definition openfriend :: "'p cmd_env \<Rightarrow> string list \<Rightarrow> disk \<Rightarrow> AuthNet \<Rightarrow> files \<Rightarrow> main_end \<times> Process" where
  "openfriend e args d n fs =
     (let p = newProcess d n fs
      in (case parseFlags args defaultFlags of
            Inl err \<Rightarrow> (Exited (exitCode err), p)
          | Inr fl \<Rightarrow>
              if showVersion fl then (Exited 0, p)
              else if noUpdate fl then runMain e fl p
              else (case maybeSelfUpdate (ce_update e) (ce_version e) args fs of
                      (Some r, fs1) \<Rightarrow> (ReExecuted r, p\<lparr>pr_files := fs1\<rparr>)
                    | (None, fs1) \<Rightarrow> runMain e fl (p\<lparr>pr_files := fs1\<rparr>))))"

subsection \<open>Stopping\<close>

definition stopHosting :: "hostRun \<Rightarrow> hostRun outcome" where
  "stopHosting r =
     (let b = hr_host r
      in (case HostManager_Close (ho_pm b) of
            Hang pm \<Rightarrow> Hang (r\<lparr>hr_host := b\<lparr>ho_pm := pm\<rparr>\<rparr>)
          | Panic pm \<Rightarrow> Panic (r\<lparr>hr_host := b\<lparr>ho_pm := pm\<rparr>\<rparr>)
          | Done pm \<Rightarrow>
              Done (r\<lparr>hr_host := \<lparr>ho_sig = Client_Close (ho_sig b), ho_pm = pm, ho_bc = Broadcaster_Close (ho_bc b)\<rparr>,
                      hr_refreshing := False\<rparr>)))"

definition stopJoining :: "joinRun \<Rightarrow> joinRun outcome" where
  "stopJoining r =
     (case closeJoining (jr_join r) of
        Hang b \<Rightarrow> Hang (r\<lparr>jr_join := b\<rparr>)
      | Panic b \<Rightarrow> Panic (r\<lparr>jr_join := b\<rparr>)
      | Done b \<Rightarrow> Done (r\<lparr>jr_join := b, jr_bc := Broadcaster_Close (jr_bc r)\<rparr>))"

section \<open>The updated program\<close>

lemma maybeSelfUpdate_args:
  assumes "maybeSelfUpdate u vsn args fs = (Some r, fs')"
  obtains path where "r = up_exec u path (path # ''--no-update'' # args)" and "r \<noteq> ExecFailed"
  using assms unfolding maybeSelfUpdate_def
  by (auto split: prod.splits sum.splits if_splits re_exec.splits) (metis re_exec.distinct)+

text \<open>
  C28. After an update the new program is started with the options of the old one: it reads the same values
  for all of them, except that it does not look for updates again, unless the user's own options say so.
\<close>

theorem reexec_keeps_flags:
  assumes "maybeSelfUpdate u vsn args fs = (Some r, fs')"
    and "up_exec u = ReExec_unix refused \<or> up_exec u = ReExec_windows refused"
    and "parseFlags args defaultFlags = Inr fl"
  shows "\<exists>path argv fl'. r \<in> {Replaced path argv, Spawned path argv} \<and>
     parseFlags (tl argv) defaultFlags = Inr fl' \<and> fl'\<lparr>noUpdate := noUpdate fl\<rparr> = fl \<and>
     (\<not> mentions args \<and> \<not> showVersion fl \<longrightarrow>
        openfriend e (tl argv) d n fs' = runMain e (fl\<lparr>noUpdate := True\<rparr>) (newProcess d n fs'))"
proof -
  obtain path where r: "r = up_exec u path (path # ''--no-update'' # args)" "r \<noteq> ExecFailed"
    using assms(1) by (rule maybeSelfUpdate_args)
  let ?argv = "path # ''--no-update'' # args"
  have argv: "r \<in> {Replaced path ?argv, Spawned path ?argv}"
    using assms(2) r by (auto simp: ReExec_unix_def ReExec_windows_def split: if_splits)
  obtain b where b: "parseFlags args (defaultFlags\<lparr>noUpdate := True\<rparr>) = Inr (fl\<lparr>noUpdate := b\<rparr>)" "\<not> mentions args \<longrightarrow> b"
    using parseFlags_noUpdate[where args = args and f = defaultFlags and b = True] assms(3) by auto
  then have parse: "parseFlags (tl ?argv) defaultFlags = Inr (fl\<lparr>noUpdate := b\<rparr>)"
    by (simp only: list.sel parseFlags_no_update)
  moreover have "openfriend e (tl ?argv) d n fs' = runMain e (fl\<lparr>noUpdate := True\<rparr>) (newProcess d n fs')"
    if "\<not> mentions args" "\<not> showVersion fl"
    unfolding openfriend_def parse using that b(2) by (simp add: Let_def)
  ultimately show ?thesis using argv by (intro exI[of _ path] exI[of _ ?argv] exI[of _ "fl\<lparr>noUpdate := b\<rparr>"]) auto
qed

section \<open>The files of a run\<close>

lemma writeFile_frame: "q \<noteq> path \<Longrightarrow> snd (writeFile au path c d) q = d q"
  by (auto simp: writeFile_def split: write_outcome.split)

lemma removeFile_frame: "q \<noteq> path \<Longrightarrow> removeFile au path d q = d q"
  by (auto simp: removeFile_def)

lemma Store_Save_frame: "q \<noteq> path \<Longrightarrow> snd (Store_Save au path t d) q = d q"
  by (simp add: Store_Save_def Let_def writeFile_frame)

text \<open>The legacy file of a store is the one that \<^verbatim>\<open>doReset\<close> removes.\<close>

lemma legacyPath_eq: "legacyPath path \<noteq> '''' \<Longrightarrow> legacyPath path = TrimSuffix ''.pem'' path @ ''.json''"
  by (auto simp: legacyPath_def TrimSuffix_def eval_nat_numeral split: if_splits)

lemma legacy_differs: "TrimSuffix ''.pem'' path @ ''.json'' \<noteq> path"
proof
  assume "TrimSuffix ''.pem'' path @ ''.json'' = path"
  then have "length (TrimSuffix ''.pem'' path) + 5 = length path" by (auto dest: arg_cong[where f = length])
  moreover have "length (TrimSuffix ''.pem'' path) + 4 \<ge> length path" by (simp add: TrimSuffix_def) arith
  ultimately show False by simp
qed

lemma Store_Load_frame:
  assumes "Store_Load au path d = Some (r, d1)" and "q \<noteq> path" and "q \<noteq> TrimSuffix ''.pem'' path @ ''.json''"
  shows "d1 q = d q"
proof -
  have save: "snd (Store_Save au path t d) q = d q" for t by (rule Store_Save_frame[OF assms(2)])
  have rem: "removeFile au (legacyPath path) (snd (Store_Save au path t d)) q = d q" if "legacyPath path \<noteq> ''''" for t
    using legacyPath_eq[OF that] assms(3) save by (simp add: removeFile_frame)
  show ?thesis
    using assms(1) save rem
    by (auto simp: Store_Load_def Let_def split: option.splits if_splits sum.splits prod.splits) (metis snd_conv)+
qed

lemma save_frame: "q \<noteq> se_path s \<Longrightarrow> se_disk (save au t s) q = se_disk s q" "se_path (save au t s) = se_path s"
  by (simp_all add: save_def Store_Save_frame)

lemma keep_file_frame: "q \<noteq> se_path s \<Longrightarrow> se_disk (keep au t s) q = se_disk s q"
  by (simp add: keep_def save_frame)

lemma deviceCode_frame: "q \<noteq> se_path s \<Longrightarrow> se_disk (snd (deviceCode au s)) q = se_disk s q"
  by (auto simp: deviceCode_def Let_def save_frame keep_file_frame split: sum.split prod.split)

lemma silently_frame: "q \<noteq> se_path s \<Longrightarrow> se_disk (snd (silently au t s)) q = se_disk s q" "se_path (snd (silently au t s)) = se_path s"
  by (auto simp: silently_def save_frame keep_def split: sum.split prod.split)

lemma Authenticate_frame:
  assumes "Authenticate au s = Some (r, s1)" and "q \<noteq> se_path s" and "q \<noteq> TrimSuffix ''.pem'' (se_path s) @ ''.json''"
  shows "se_disk s1 q = se_disk s q"
proof -
  obtain saved d1 where l: "Store_Load au (se_path s) (se_disk s) = Some (saved, d1)"
    using assms(1) by (auto simp: Authenticate_def split: option.splits)
  let ?s = "s\<lparr>se_disk := d1\<rparr>"
  have "s1 = snd (deviceCode au ?s) \<or> (\<exists>t. s1 = snd (silently au t ?s)) \<or> (\<exists>t. s1 = snd (deviceCode au (snd (silently au t ?s))))"
    using assms(1) l by (auto simp: Authenticate_def Let_def split: sum.splits option.splits if_splits prod.splits) (metis snd_conv)+
  moreover have "d1 q = se_disk s q" using Store_Load_frame[OF l] assms(2,3) by blast
  ultimately show ?thesis using assms(2) by (auto simp: deviceCode_frame silently_frame)
qed

lemma beforeReset_frame:
  assumes "beforeReset au ae path saved d n = Some r" and "q \<noteq> path" and "q \<noteq> TrimSuffix ''.pem'' path @ ''.json''"
  shows "rr_disk r q = d q"
  using assms Authenticate_frame[of au "NewAuthSession path True d n" _ _ q]
  by (auto simp: beforeReset_def announceOfflineBeforeReset_def NewAuthSession_def Let_def
      split: sum.splits option.splits if_splits)

lemma doReset_parts:
  assumes "doReset au ae path d n = Some r"
    and "legacy = TrimSuffix ''.pem'' path @ ''.json''" and "lock = path_Join (path_Dir path) ''skin.lock''"
  obtains d0 where "rr_disk r = removeIfExists au lock (removeIfExists au legacy (removeIfExists au path d0))"
    and "\<And>q. q \<noteq> path \<Longrightarrow> q \<noteq> legacy \<Longrightarrow> d0 q = d q"
proof -
  obtain saved d1 where l: "Store_Load au path d = Some (saved, d1)"
    using assms(1) by (cases "Store_Load au path d") (auto simp: doReset_def)
  obtain r0 where r0: "beforeReset au ae path saved d1 n = Some r0"
      "rr_disk r = removeIfExists au lock (removeIfExists au legacy (removeIfExists au path (rr_disk r0)))"
    using assms l legacy_differs[of path]
    by (cases "beforeReset au ae path saved d1 n") (auto simp: doReset_def)
  show thesis
    by (rule that[OF r0(2)]) (use beforeReset_frame[OF r0(1)] Store_Load_frame[OF l] assms(2) in simp)
qed

lemma doReset_frame:
  assumes "doReset au ae path d n = Some r" and "q \<noteq> path" and "q \<noteq> TrimSuffix ''.pem'' path @ ''.json''"
    and "q \<noteq> path_Join (path_Dir path) ''skin.lock''"
  shows "rr_disk r q = d q"
  by (rule doReset_parts[OF assms(1) refl refl]) (use assms(2-4) in \<open>simp add: removeIfExists_def removeFile_frame\<close>)

text \<open>
  C27. A reset that comes to its end leaves nothing of the account: the credentials, their legacy form and the skin
  lock are gone, a session on these files would have to sign in anew, and no other file is touched. (The system lets the
  three files be removed.)
\<close>

theorem reset_forgets:
  assumes "doReset au ae path d n = Some r"
    and "legacy = TrimSuffix ''.pem'' path @ ''.json''" and "lock = path_Join (path_Dir path) ''skin.lock''"
    and "au_removable au path" and "au_removable au legacy" and "au_removable au lock"
  shows "rr_disk r path = None \<and> rr_disk r legacy = None \<and> rr_disk r lock = None \<and>
     Store_Load au path (rr_disk r) = Some (Inr None, rr_disk r) \<and>
     (\<forall>q. q \<notin> {path, legacy, lock} \<longrightarrow> rr_disk r q = d q)"
proof -
  obtain d0 where d0: "rr_disk r = removeIfExists au lock (removeIfExists au legacy (removeIfExists au path d0))"
      "\<And>q. q \<noteq> path \<Longrightarrow> q \<noteq> legacy \<Longrightarrow> d0 q = d q"
    using doReset_parts[OF assms(1-3)] by blast
  have gone: "rr_disk r = d0(path := None, legacy := None, lock := None)"
    using d0(1) assms(4-6) by (simp add: removeIfExists_def removeFile_def)
  have "Store_Load au path (rr_disk r) = Some (Inr None, rr_disk r)"
    using legacyPath_eq[of path] by (auto simp: Store_Load_def gone assms(2) Let_def)
  then show ?thesis using d0(2) by (simp add: gone)
qed

theorem reset_forgets_witness:
  "\<exists>r. doReset machine_env (sample_env []) ''data/auth.pem'' [''data/auth.pem'' \<mapsto> Pem [], ''data/bypass.pem'' \<mapsto> Pem []]
         \<lparr>net_log = [], net_now = 0\<rparr> = Some r \<and>
       rr_disk r ''data/auth.pem'' = None \<and> rr_disk r ''data/bypass.pem'' = Some (Pem [])"
proof -
  have free: "au_removable machine_env p" and readable: "au_readable machine_env p" for p
    by (simp_all add: machine_env_def pending_env_def)
  obtain r where r: "doReset machine_env (sample_env []) ''data/auth.pem'' [''data/auth.pem'' \<mapsto> Pem [], ''data/bypass.pem'' \<mapsto> Pem []]
         \<lparr>net_log = [], net_now = 0\<rparr> = Some r"
    by (auto simp: doReset_def beforeReset_def Store_Load_def parsePEM_def readable Let_def)
  have paths: "TrimSuffix ''.pem'' ''data/auth.pem'' @ ''.json'' = ''data/auth.json''"
      "path_Join (path_Dir ''data/auth.pem'') ''skin.lock'' = ''data/skin.lock''"
    by (code_simp)+
  show ?thesis
    using reset_forgets[OF r refl refl free free free] r unfolding paths by auto
qed

text \<open>
  A saved refresh token that the service rejects makes a reset start a sign-in with a device code, whose prompt is not
  shown, and wait until the code expires; and a damaged file that makes the decryption panic cannot be reset at all.
\<close>

lemma reset_signs_in:
  assumes "Store_Load au path d = Some (Inr (Some t), d)" and "MsRefreshToken t \<noteq> ''''"
    and "SilentRefresh au (MsRefreshToken t) n = (Inl err, n1)"
    and "doReset au ae path d n = Some r"
  shows "rr_net r = se_net (snd (deviceCode au ((NewAuthSession path True d n)\<lparr>se_net := n1\<rparr>))) \<and>
     rr_prompts r = se_prompts (snd (deviceCode au ((NewAuthSession path True d n)\<lparr>se_net := n1\<rparr>)))"
  using assms
  by (auto simp: doReset_def beforeReset_def announceOfflineBeforeReset_def Authenticate_def silently_def NewAuthSession_def Let_def
      split: option.splits prod.splits)

lemma reset_panics: "Store_Load au path d = None \<Longrightarrow> doReset au ae path d n = None"
  by (simp add: doReset_def Let_def)

lemma setStatus_frame:
  "se_path (pr_session (setStatus e m p)) = se_path (pr_session p)" "pr_api (setStatus e m p) = pr_api p"
  "q \<noteq> sw_path (pr_status p) \<Longrightarrow> q \<noteq> sw_path (pr_status p) @ ''.tmp'' \<Longrightarrow>
     se_disk (pr_session (setStatus e m p)) q = se_disk (pr_session p) q"
  "sw_path (pr_status (setStatus e m p)) = sw_path (pr_status p)"
  by (simp_all add: setStatus_def Status_Update_def Let_def Status_write_frame Update_locked_def)

lemma ensureSkin_frame:
  "ensureSkin e au fuel answer skin variant lock c d = Some r \<Longrightarrow> q \<noteq> lock \<Longrightarrow> sr_disk r q = d q"
  by (auto simp: ensureSkin_def Let_def lockSkin_def writeFile_def
      split: sum.splits option.splits if_splits prod.splits write_outcome.splits)

lemma runJoinMode_frame: "pr_session (snd (runJoinMode e fl p)) = pr_session p"
  by (simp add: runJoinMode_def split: prod.split sum.split bool.split)

lemma runHostMode_frame:
  "q \<noteq> sw_path (pr_status p) \<Longrightarrow> q \<noteq> sw_path (pr_status p) @ ''.tmp'' \<Longrightarrow>
     se_disk (pr_session (snd (runHostMode e fl dir p))) q = se_disk (pr_session p) q"
  by (simp add: runHostMode_def Let_def setStatus_frame)

text \<open>The files that a run may write, given the path of the credentials.\<close>

definition ownFiles :: "string \<Rightarrow> string set" where
  "ownFiles path =
     {path, TrimSuffix ''.pem'' path @ ''.json'', path_Join (path_Dir path) ''skin.lock'',
      path_Join (path_Dir path) ''status.json'', path_Join (path_Dir path) ''status.json'' @ ''.tmp''}"

lemma runSignedIn_frame:
  assumes "q \<notin> ownFiles path"
  shows "se_disk (pr_session (snd (runSignedIn e fl path tokens p))) q = se_disk (pr_session p) q"
proof -
  have q: "q \<noteq> path_Join (path_Dir path) ''status.json''" "q \<noteq> path_Join (path_Dir path) ''status.json'' @ ''.tmp''"
      "q \<noteq> path_Join (path_Dir path) ''skin.lock''" using assms by (simp_all add: ownFiles_def)
  have path: "sw_path (NewStatusWriter (path_Dir path)) = path_Join (path_Dir path) ''status.json''"
    by (simp add: NewStatusWriter_def statusFile_def)
  show ?thesis
    using q by (auto simp: runSignedIn_def Let_def path setStatus_frame runJoinMode_frame runHostMode_frame
        ensureSkin_frame[where q = q] split: option.split)
qed


section \<open>Hosting\<close>

lemma newProcess_files [simp]: "(newProcess d n fs)\<lparr>pr_files := fs'\<rparr> = newProcess d n fs'"
  by (simp add: newProcess_def)

lemma runJoinMode_ends: "fst (runJoinMode e fl p) \<noteq> Hosting r"
  by (simp add: runJoinMode_def split: prod.split sum.split bool.split)

lemma runSignedIn_hosting:
  assumes "runSignedIn e fl path tokens p = (Hosting r, p')"
  shows "joinTarget fl = '''' \<and> \<not> announceOffline fl \<and>
     (\<exists>key. hr_host r = \<lparr>ho_sig = Connect NewClient, ho_pm = NewHostManager (target fl) key,
        ho_bc = Broadcaster_Start (NewBroadcaster StatusPlayingHostedServer (intervalSec fl * 1000000000) [])\<rparr>)"
proof -
  have join: "runJoinMode e fl p \<noteq> (Hosting r, p')" for p using runJoinMode_ends[of e fl p r] by (metis fst_conv)
  have host: "\<exists>key. hr_host r = \<lparr>ho_sig = Connect NewClient, ho_pm = NewHostManager (target fl) key,
        ho_bc = Broadcaster_Start (NewBroadcaster StatusPlayingHostedServer (intervalSec fl * 1000000000) [])\<rparr>"
    if "runHostMode e fl dir p = (Hosting r, p')" for dir p
    using that by (auto simp: runHostMode_def Let_def)
  show ?thesis
    using assms join host by (auto simp: runSignedIn_def Let_def split: if_splits option.splits)
qed

text \<open>
  C25. The command hosts only when its options could be read and ask for no other mode, the target is an address, and
  the account is signed in; it then announces a hosted server for that target. The announcing goroutine survives its
  first post exactly when the interval, in nanoseconds of 64 bits, is positive: \<^verbatim>\<open>-interval-s 0\<close> and intervals
  beyond 9223372036 seconds crash the process.
\<close>

theorem hosting_conditions:
  assumes "openfriend e args d n fs = (Hosting r, p)"
  shows "\<exists>fl tokens s.
     parseFlags args defaultFlags = Inr fl \<and> \<not> ipcStdio fl \<and> \<not> resetState fl \<and> \<not> announceOffline fl \<and> joinTarget fl = '''' \<and>
     \<not> isl (ParseTarget (target fl)) \<and>
     Authenticate (ce_auth e) (NewAuthSession (authPath e fl) True d n) = Some (Inr tokens, s) \<and>
     hm_target (ho_pm (hr_host r)) = target fl \<and> bc_status (ho_bc (hr_host r)) = StatusPlayingHostedServer \<and>
     (Broadcaster_loop start fires (ho_bc (hr_host r)) c = Panic (Broadcaster_tick (fst start) (snd start) (ho_bc (hr_host r)) c) \<longleftrightarrow>
        sint (intervalSec fl * 1000000000) \<le> 0)"
proof -
  obtain fl where fl: "parseFlags args defaultFlags = Inr fl"
    using assms by (cases "parseFlags args defaultFlags") (auto simp: openfriend_def Let_def)
  obtain fs' where m: "runMain e fl (newProcess d n fs') = (Hosting r, p)"
    using assms fl by (auto simp: openfriend_def Let_def split: if_splits option.splits prod.splits)
  then have no: "\<not> ipcStdio fl" "\<not> resetState fl"
    by (auto simp: runMain_def Let_def split: if_splits option.splits)
  obtain hp where hp: "ParseTarget (target fl) = Inr hp"
    using m no by (cases "ParseTarget (target fl)") (auto simp: runMain_def Let_def)
  obtain tokens s where a: "Authenticate (ce_auth e) (NewAuthSession (authPath e fl) True d n) = Some (Inr tokens, s)"
      and h: "runSignedIn e fl (authPath e fl) tokens ((newProcess d n fs')\<lparr>pr_session := s\<rparr>) = (Hosting r, p)"
    using m no hp by (auto simp: runMain_def newProcess_def NewAuthSession_def Let_def split: option.splits sum.splits prod.splits)
  from runSignedIn_hosting[OF h] obtain key where
    k: "joinTarget fl = ''''" "\<not> announceOffline fl"
       "hr_host r = \<lparr>ho_sig = Connect NewClient, ho_pm = NewHostManager (target fl) key,
          ho_bc = Broadcaster_Start (NewBroadcaster StatusPlayingHostedServer (intervalSec fl * 1000000000) [])\<rparr>" by blast
  have bc: "bc_interval (ho_bc (hr_host r)) = intervalSec fl * 1000000000" "bc_status (ho_bc (hr_host r)) = StatusPlayingHostedServer"
      "hm_target (ho_pm (hr_host r)) = target fl"
    by (simp_all add: k(3) Broadcaster_Start_def NewBroadcaster_def NewHostManager_def)
  show ?thesis
    using fl no hp a k(1,2) bc by (intro exI[of _ fl] exI[of _ tokens] exI[of _ s]) (simp add: Broadcaster_loop_def Let_def)
qed

lemma interval_overflow: "sint ((0 :: int64) * 1000000000) \<le> 0" "sint ((9223372037 :: int64) * 1000000000) \<le> 0"
    "sint ((9223372036 :: int64) * 1000000000) > 0"
  by simp_all

text \<open>A manager whose mutex is held for ever keeps the process from stopping: what follows its \<^verbatim>\<open>Close\<close> never runs.\<close>

lemma stop_hangs: "hm_mu (ho_pm (hr_host r)) \<Longrightarrow> stopHosting r = Hang r"
  by (simp add: stopHosting_def HostManager_Close_def Let_def)

lemma stop_ends:
  assumes "stopHosting r = Done r'"
  shows "closed (ho_sig (hr_host r')) \<and> \<not> bc_running (ho_bc (hr_host r')) \<and> \<not> hr_refreshing r'"
  using assms by (auto simp: stopHosting_def Client_Close_def Broadcaster_Close_def Let_def split: outcome.splits if_splits)

text \<open>An account whose saved refresh token the services accept, and a command line that asks for no pause between posts.\<close>

definition accepting_env :: auth_env where
  "accepting_env = approving_env\<lparr>au_answer := working_answers\<rparr>"

definition saved_disk :: "string \<Rightarrow> disk" where
  "saved_disk path = [path \<mapsto> Pem [credentials_block approving_env (emptyTokens\<lparr>MsRefreshToken := ''r''\<rparr>)]]"

definition sample_cmd_env :: "(nat \<times> nat) cmd_env" where
  "sample_cmd_env =
     \<lparr>ce_version = ''1'', ce_auth = accepting_env, ce_api = sample_env [], ce_equalFold = (=), ce_skin = sample_skin_env,
      ce_skinAnswer = (\<lambda>_. NetErr ''''), ce_fuel = 1, ce_status = \<lparr>st_text = \<lambda>s. Some (sn_ProfileName s), st_renames = True\<rparr>,
      ce_update = \<lparr>up_manifest = (\<lambda>u. Inl ''''), up_get = (\<lambda>u. Inl ''''), up_tmp = None, up_exe = Inl '''', up_links = (\<lambda>p. None),
        up_chmodErr = False, up_replace = replaceSelf_unix False, up_goos = ''linux'', up_goarch = ''amd64'',
        up_exec = ReExec_unix False\<rparr>,
      ce_home = None, ce_mkdir = (\<lambda>p. True), ce_temp = (\<lambda>p. True), ce_listenErr = False, ce_blocks = Absent,
      ce_cache = None, ce_input = []\<rparr>"

lemma accepting_signs_in:
  "\<exists>t s. Authenticate accepting_env (NewAuthSession path True (saved_disk path) \<lparr>net_log = [], net_now = 0\<rparr>) = Some (Inr t, s)"
proof -
  let ?t = "emptyTokens\<lparr>MsRefreshToken := ''r''\<rparr>"
  have "reads_back accepting_env path ?t" "credentials_block accepting_env ?t = credentials_block approving_env ?t"
    using approving_reads_back[of path] by (simp_all add: accepting_env_def)
  then have load: "Store_Load accepting_env path (saved_disk path) = Some (Inr (Some ?t), saved_disk path)"
    using parsePEM_credentials[of accepting_env path ?t] by (simp add: Store_Load_def reads_back_def saved_disk_def)
  obtain u n where "SilentRefresh accepting_env ''r'' \<lparr>net_log = [], net_now = 0\<rparr> = (Inr u, n)"
    by (simp add: SilentRefresh_def RefreshMsToken_def postForm_def exchange_def Let_def accepting_env_def approving_env_def machine_env_def
        pending_env_def working_answers_def unmarshalMap_def unmarshalPayload_def payload_access ExchangeForMojang_def
        xboxLive_def xsts_def doXboxRequest_def auth_urls msToken_def jarr_def jobj_def loginWithXbox_def fetchProfile_def
        ParseUndashed_def uuid_nil_def)
  then show ?thesis using load by (simp add: Authenticate_def NewAuthSession_def Let_def silently_def)
qed

theorem hosting_conditions_witness:
  "\<exists>r p. openfriend sample_cmd_env [''--no-update'', ''-auth-file'', ''a.pem'', ''-interval-s=0''] (saved_disk ''a.pem'')
           \<lparr>net_log = [], net_now = 0\<rparr> Map.empty = (Hosting r, p) \<and>
         Broadcaster_loop (sample_env [], 0) [] (ho_bc (hr_host r)) (NewApiClient None) =
           Panic (Broadcaster_tick (sample_env []) 0 (ho_bc (hr_host r)) (NewApiClient None))"
proof -
  let ?args = "[''--no-update'', ''-auth-file'', ''a.pem'', ''-interval-s=0'']" and ?n = "\<lparr>net_log = [], net_now = 0 :: int\<rparr>"
  let ?fl = "defaultFlags\<lparr>noUpdate := True, authFile := ''a.pem'', intervalSec := 0\<rparr>"
  have int: "ParseInt0 ''0'' = Some 0"
    by (simp add: ParseInt0_def basePrefix_def Let_def)
  have fl: "parseFlags ?args defaultFlags = Inr ?fl"
    by (simp add: parseOne_def optionName_def splitEq_def formal_def setFlag_def ParseBool_def Let_def int)
  have path: "authPath sample_cmd_env ?fl = ''a.pem''" by (simp add: authPath_def)
  have target: "\<exists>hp. ParseTarget ''127.0.0.1:25565'' = Inr hp"
    by (simp add: ParseTarget_def SplitHostPort_def lastIndex_def index_def checkBrackets_def Atoi_def is_digit_def digit_val_def
        digits_val_def Let_def)
  obtain t s where a: "Authenticate accepting_env (NewAuthSession ''a.pem'' True (saved_disk ''a.pem'') ?n) = Some (Inr t, s)"
    using accepting_signs_in by blast
  have "\<exists>r p. runMain sample_cmd_env ?fl (newProcess (saved_disk ''a.pem'') ?n Map.empty) = (Hosting r, p)"
    using target a path
    by (auto simp: runMain_def newProcess_def NewAuthSession_def sample_cmd_env_def defaultFlags_def runSignedIn_def
        runHostMode_def Let_def)
  then obtain r p where o: "openfriend sample_cmd_env ?args (saved_disk ''a.pem'') ?n Map.empty = (Hosting r, p)"
    unfolding openfriend_def fl by (auto simp: defaultFlags_def Let_def)
  from hosting_conditions[OF o, of "(sample_env [], 0)" "[]" "NewApiClient None"] fl o show ?thesis by auto
qed


theorem reexec_keeps_flags_witness:
  "\<exists>argv fs'. maybeSelfUpdate ((ce_update sample_cmd_env)\<lparr>up_manifest := \<lambda>u. Inr (200, Some (JObj [(''OpenFriend'', JStr ''v2'')])),
       up_get := \<lambda>u. Inr (200, [1], False), up_tmp := Some ''tmp'', up_exe := Inr ''bin''\<rparr>) ''1'' [''-interval-s'', ''5''] Map.empty =
         (Some (Replaced ''bin'' argv), fs') \<and>
       openfriend sample_cmd_env (tl argv) Map.empty \<lparr>net_log = [], net_now = 0\<rparr> fs' =
         runMain sample_cmd_env (defaultFlags\<lparr>intervalSec := 5, noUpdate := True\<rparr>) (newProcess Map.empty \<lparr>net_log = [], net_now = 0\<rparr> fs')"
proof -
  let ?u = "(ce_update sample_cmd_env)\<lparr>up_manifest := \<lambda>u. Inr (200, Some (JObj [(''OpenFriend'', JStr ''v2'')])),
       up_get := \<lambda>u. Inr (200, [1], False), up_tmp := Some ''tmp'', up_exe := Inr ''bin''\<rparr>"
  let ?args = "[''-interval-s'', ''5'']" and ?fl = "defaultFlags\<lparr>intervalSec := 5\<rparr>"
  have new: "isNewer ''2'' ''1''" by code_simp
  have trim: "TrimSpace ''v2'' = ''v2''" "TrimPrefix ''v'' ''v2'' = ''2''" by code_simp+
  have chk: "Check (up_manifest ?u) \<lparr>ManifestURL = '''', ManifestKey = '''', Repo = '''', Current = ''1''\<rparr> =
      (Inr \<lparr>Latest = ''2'', Available = True\<rparr>, withDefaults \<lparr>ManifestURL = '''', ManifestKey = '''', Repo = '''', Current = ''1''\<rparr>)"
    by (simp add: Check_def fetchLatest_def withDefaults_def unmarshalPayload_def payload_access DefaultManifestKey_def trim new Let_def)
  obtain fs' where m: "maybeSelfUpdate ?u ''1'' ?args Map.empty = (Some (Replaced ''bin'' (''bin'' # ''--no-update'' # ?args)), fs')"
    unfolding maybeSelfUpdate_def chk
    by (simp add: sample_cmd_env_def Apply_def download_def selfExecutablePath_def replaceSelf_unix_def fs_rename_def ReExec_unix_def Let_def)
  have fl: "parseFlags ?args defaultFlags = Inr ?fl"
    by (simp add: parseOne_def optionName_def splitEq_def formal_def setFlag_def ParseInt0_def basePrefix_def digitOf_def asciiLower_def Let_def)
  have u: "up_exec ?u = ReExec_unix False \<or> up_exec ?u = ReExec_windows False" by (simp add: sample_cmd_env_def)
  have quiet: "\<not> mentions ?args" "\<not> showVersion ?fl" by (simp_all add: mentions_def defaultFlags_def) (simp_all add: sublist_code)?
  obtain path argv where "Replaced ''bin'' (''bin'' # ''--no-update'' # ?args) \<in> {Replaced path argv, Spawned path argv}"
      "openfriend sample_cmd_env (tl argv) Map.empty \<lparr>net_log = [], net_now = 0\<rparr> fs' = runMain sample_cmd_env (?fl\<lparr>noUpdate := True\<rparr>) (newProcess Map.empty \<lparr>net_log = [], net_now = 0\<rparr> fs')"
    using reexec_keeps_flags[OF m u fl, of sample_cmd_env Map.empty "\<lparr>net_log = [], net_now = 0\<rparr>"] quiet by blast
  with m show ?thesis by auto
qed

end
