(* ===== verification/LogLines.thy ===== *)
theory LogLines
  imports IpcServer GoStrings
begin

text \<open>
  Log records for the launcher, \<^verbatim>\<open>src/internal/ipc/handler.go\<close>: a handler of \<^verbatim>\<open>log/slog\<close> that writes each record as one
  notification. The value of an attribute is nil, an error, a value with a \<^verbatim>\<open>String\<close> method, or another value, of which the
  model has the JSON form. Levels and their names are those of \<^verbatim>\<open>log/slog\<close>.
\<close>

section \<open>Model\<close>

datatype any_value = AnyNil | AnyError string | AnyStringer string | AnyOther json

type_synonym attr = "string \<times> any_value"

record LogHandler =
  lh_level :: int
  lh_attrs :: "attr list"
  lh_groups :: "string list"

record LogRecord =
  lr_Level :: int
  lr_Message :: string
  lr_Attrs :: "attr list"

definition NewLogHandler :: "int \<Rightarrow> LogHandler" where
  "NewLogHandler level = \<lparr>lh_level = level, lh_attrs = [], lh_groups = []\<rparr>"

definition Enabled :: "int \<Rightarrow> LogHandler \<Rightarrow> bool" where
  "Enabled lvl h \<longleftrightarrow> lvl \<ge> lh_level h"

primrec jsonSafe :: "any_value \<Rightarrow> json" where
  "jsonSafe AnyNil = JNull"
| "jsonSafe (AnyError text) = JStr text"
| "jsonSafe (AnyStringer text) = JStr text"
| "jsonSafe (AnyOther v) = v"

text \<open>\<^verbatim>\<open>slog.Level.String\<close>.\<close>

definition showDelta :: "string \<Rightarrow> int \<Rightarrow> string" where
  "showDelta base d =
     (if d = 0 then base else base @ (if d < 0 then ''-'' else ''+'') @ show_nat (nat \<bar>d\<bar>))"

definition levelString :: "int \<Rightarrow> string" where
  "levelString l =
     (if l < 0 then showDelta ''DEBUG'' (l + 4)
      else if l < 4 then showDelta ''INFO'' l
      else if l < 8 then showDelta ''WARN'' (l - 4)
      else showDelta ''ERROR'' (l - 8))"

definition attrMap :: "attr list \<Rightarrow> payload" where
  "attrMap as = fold (\<lambda>(k, v). AList.update k (jsonSafe v)) as []"

definition logPayload :: "LogRecord \<Rightarrow> LogHandler \<Rightarrow> payload" where
  "logPayload r h =
     (let attrs = attrMap (lh_attrs h @ lr_Attrs r)
      in [(''level'', JStr (levelString (lr_Level r))), (''msg'', JStr (lr_Message r))] @
         (if attrs \<noteq> [] then [(''attrs'', JObj attrs)] else []))"

definition LogHandler_Handle :: "LogRecord \<Rightarrow> LogHandler \<Rightarrow> 'a Writer_scheme \<Rightarrow> 'a Writer_scheme" where
  "LogHandler_Handle r h w = Notify ''log'' (JObj (logPayload r h)) w"

definition WithAttrs :: "attr list \<Rightarrow> LogHandler \<Rightarrow> LogHandler" where
  "WithAttrs as h = h\<lparr>lh_attrs := lh_attrs h @ as\<rparr>"

definition WithGroup :: "string \<Rightarrow> LogHandler \<Rightarrow> LogHandler" where
  "WithGroup name h = h\<lparr>lh_groups := lh_groups h @ [name]\<rparr>"

section \<open>What is written\<close>

lemma map_of_attrMap: "map_of (attrMap as) k = map_option jsonSafe (map_of (rev as) k)"
proof -
  have "map_of (fold (\<lambda>(k, v). AList.update k (jsonSafe v)) as p) k =
      (case map_of (rev as) k of None \<Rightarrow> map_of p k | Some v \<Rightarrow> Some (jsonSafe v))" for p
    by (induction as arbitrary: p) (auto simp: AList.update_conv map_add_def split: option.split)
  then show ?thesis by (simp add: attrMap_def split: option.split)
qed

lemma distinct_attrMap: "distinct (map fst (attrMap as))"
proof -
  have "distinct (map fst (fold (\<lambda>(k, v). AList.update k (jsonSafe v)) as p))" if "distinct (map fst p)" for p
    using that by (induction as arbitrary: p) (auto simp: AList.distinct_update split: prod.split)
  then show ?thesis by (simp add: attrMap_def)
qed

lemma attrMap_Nil_iff: "attrMap as = [] \<longleftrightarrow> as = []"
  using map_of_attrMap[of as "fst (last as)"]
  by (cases as rule: rev_cases) (auto simp: attrMap_def)

text \<open>
  A record is written as one notification with its level and message, whatever handlers were derived in between:
  of several attributes with one key the last counts, a record's own above those of \<^verbatim>\<open>WithAttrs\<close>; and groups leave no trace.
\<close>

theorem log_line_attrs:
  "lines (LogHandler_Handle r (WithAttrs as h) w) =
     lines w @ [Notification ''log'' (JObj ([(''level'', JStr (levelString (lr_Level r))), (''msg'', JStr (lr_Message r))] @
       (if lh_attrs h @ as @ lr_Attrs r = [] then [] else [(''attrs'', JObj (attrMap (lh_attrs h @ as @ lr_Attrs r)))])))] \<and>
   map_of (attrMap (lh_attrs h @ as @ lr_Attrs r)) k =
     map_option jsonSafe (case map_of (rev (lr_Attrs r)) k of
        Some v \<Rightarrow> Some v
      | None \<Rightarrow> (case map_of (rev as) k of Some v \<Rightarrow> Some v | None \<Rightarrow> map_of (rev (lh_attrs h)) k)) \<and>
   LogHandler_Handle r (WithGroup g h) w = LogHandler_Handle r h w"
  by (simp add: LogHandler_Handle_def Notify_def writeLine_def logPayload_def WithAttrs_def WithGroup_def Let_def
      attrMap_Nil_iff map_of_attrMap map_add_def split: option.split)

end
