(* ===== verification/DataPath.thy ===== *)
theory DataPath
  imports HostBridge JoinBridge
begin

text \<open>
  The data plane from end to end: what the local Minecraft client writes reaches the backend server, and back. The
  theory connects the callbacks of the WebRTC session (\<^verbatim>\<open>src/internal/bridge/session.go\<close>) to those that \<^verbatim>\<open>host.go\<close> and
  \<^verbatim>\<open>join.go\<close> give to \<^verbatim>\<open>NewSession\<close>, and composes the two managers over a data channel.

  The channel is reliable and ordered, as the joining side asks for when it creates it: what one side receives are the
  payloads that the other side sent, in this order and cut in the same way.
\<close>

section \<open>Model\<close>

text \<open>The payloads a session has handed to its data channel and the channel has taken.\<close>

definition dcPayloads :: "pion \<Rightarrow> dc_id \<Rightarrow> Session \<Rightarrow> bytes list" where
  "dcPayloads p d s =
     List.map_filter (\<lambda>c. case c of DcSend data \<Rightarrow> if dcSend p d data = None then Some data else None | _ \<Rightarrow> None) (calls s)"

text \<open>What a session passed to \<^verbatim>\<open>onData\<close> on the way from one state to another.\<close>

definition passedOn :: "Session \<Rightarrow> Session \<Rightarrow> bytes list" where
  "passedOn s s' = List.map_filter (\<lambda>c. case c of OnData d \<Rightarrow> Some d | _ \<Rightarrow> None) (drop (length (calls s)) (calls s'))"

text \<open>A message arrives: the session drops the warm-up bytes, and the owner's callback gets the rest.\<close>

definition hostMessage ::
    "(nat \<Rightarrow> bytes option) \<Rightarrow> (bytes \<Rightarrow> bytes \<Rightarrow> bytes) \<Rightarrow> nat \<Rightarrow> bytes \<Rightarrow> HostManager \<Rightarrow> HostManager outcome" where
  "hostMessage rand_read mac ps msg h =
     (if ps < length (hm_rtcs h)
      then (case hm_rtcs h ! ps of
              None \<Rightarrow> Done h
            | Some s \<Rightarrow>
                let s' = dcOnMessage msg s
                in feedAll rand_read mac ps (passedOn s s') (upd_rtc ps (\<lambda>_. s') h))
      else Done h)"

definition hostMessages ::
    "(nat \<Rightarrow> bytes option) \<Rightarrow> (bytes \<Rightarrow> bytes \<Rightarrow> bytes) \<Rightarrow> nat \<Rightarrow> bytes list \<Rightarrow> HostManager \<Rightarrow> HostManager outcome" where
  "hostMessages rand_read mac ps msgs h = fold (\<lambda>m r. andThen r (hostMessage rand_read mac ps m)) msgs (Done h)"

definition joinMessage :: "nat \<Rightarrow> bytes \<Rightarrow> JoinManager \<Rightarrow> JoinManager" where
  "joinMessage i msg j =
     (if i < length (jm_objs j)
      then (case js_rtc (jm_objs j ! i) of
              None \<Rightarrow> j
            | Some s \<Rightarrow>
                let s' = dcOnMessage msg s
                in fold (\<lambda>d. joinOnData d i) (passedOn s s') (upd_js i (\<lambda>x. x\<lparr>js_rtc := Some s'\<rparr>) j))
      else j)"

text \<open>The chunks that the goroutine of \<^verbatim>\<open>DialTCP\<close> reads from the backend, each with what the polls of its wait see.\<close>

definition hostDownstream ::
    "pion \<Rightarrow> nat \<Rightarrow> ((dc_state \<times> nat) list \<times> bytes) list \<Rightarrow> HostManager \<Rightarrow> HostManager" where
  "hostDownstream p ps rounds h = fold (\<lambda>(polls, data). onDownstream p polls data ps) rounds h"

section \<open>Messages and payloads\<close>

lemma concat_passedOn: "concat (passedOn s (dcOnMessage m s)) = drop (warmupRemaining s) m"
  by (auto simp: passedOn_def dcOnMessage_def Let_def min_def map_filter_def)

lemma map_filter_sent:
  "List.map_filter (\<lambda>c. case c of DcSend data \<Rightarrow> if f data then Some data else None | _ \<Rightarrow> None) (map DcSend ds) = filter f ds"
  by (induction ds) (simp_all add: List.map_filter_def)

lemma dcPayloads_simps [simp]:
  "dcPayloads p d (do_call (DcSend data) s) = dcPayloads p d s @ (if dcSend p d data = None then [data] else [])"
  "dcPayloads p d (dcOnOpen s) = dcPayloads p d s @ (if dcSend p d warmupMagic = None then [warmupMagic] else [])"
  "dcPayloads p d (Session_Close s) = dcPayloads p d s"
  "dcPayloads p d (sendAll ds s) = dcPayloads p d s @ filter (\<lambda>x. dcSend p d x = None) (filter (\<lambda>x. x \<noteq> []) ds)"
  by (simp_all add: dcPayloads_def dcOnOpen_def signalOpen_def do_call_def Session_Close_def sendAll_def
      map_filter_sent del: filter_filter) (simp_all add: List.map_filter_def Let_def)

lemma concat_nonempty: "concat (filter (\<lambda>d. d \<noteq> []) ds) = concat ds"
  by (induction ds) auto

section \<open>From the local client to the backend\<close>

text \<open>What the backend is to receive for a stream of the peer.\<close>

definition hostOutput ::
    "(nat \<Rightarrow> bytes option) \<Rightarrow> (bytes \<Rightarrow> bytes \<Rightarrow> bytes) \<Rightarrow> bytes option \<Rightarrow> bytes \<Rightarrow> bytes" where
  "hostOutput rand_read mac key stream =
     (case key of None \<Rightarrow> stream | Some k \<Rightarrow> bypass_output rand_read mac k stream)"

text \<open>After \<^verbatim>\<open>stream\<close> has come in, with or without a bypass key.\<close>

definition fed ::
    "(nat \<Rightarrow> bytes option) \<Rightarrow> (bytes \<Rightarrow> bytes \<Rightarrow> bytes) \<Rightarrow> nat \<Rightarrow> nat \<Rightarrow> bytes \<Rightarrow> bytes \<Rightarrow> HostManager \<Rightarrow> bool" where
  "fed rr mac ps t w0 stream h \<longleftrightarrow>
     (case hm_bypassKey h of
        None \<Rightarrow> bridged ps t h \<and> tb_written (hm_tcps h ! t) = w0 @ stream
      | Some key \<Rightarrow> relayed rr mac key ps t w0 stream h)"

lemma markHandshakeDone_frame [simp]:
  "hm_rtcs (markHandshakeDone ps h) = hm_rtcs h" "hm_bypassKey (markHandshakeDone ps h) = hm_bypassKey h"
  by (simp_all add: markHandshakeDone_def)

text \<open>On an open connection \<^verbatim>\<open>onPeerData\<close> touches neither the sessions nor the key.\<close>

lemma onPeerData_keeps:
  assumes "bridged ps t h" and "onPeerData rr mac ps data h = Done h'"
  shows "hm_rtcs h' = hm_rtcs h \<and> hm_bypassKey h' = hm_bypassKey h"
proof -
  have feed: "feedOrClose ps t d g = Done (upd_tcp t (\<lambda>b. b\<lparr>tb_written := tb_written b @ d\<rparr>) g)" if "bridged ps t g" for d g
    using Feed_bridged[OF that] by (simp add: feedOrClose_def)
  let ?h1 = "upd_obj ps (\<lambda>o'. o'\<lparr>handshakeBuf := handshakeBuf o' @ data\<rparr>) h"
  have br: "bridged ps t (markHandshakeDone ps ?h1)" using assms(1) by (simp add: bridged_upd)
  show ?thesis
    using assms br
    by (auto simp: onPeerData_def bridged_def[of ps t h] feed[OF assms(1)] feedHandshake_def passThrough_def feedModified_def
        feed[OF br] Feed_bridged[OF br] feed bridged_upd Let_def
        split: option.splits if_splits sum.splits prod.splits)
qed

lemma fed_bridged: "fed rr mac ps t w0 stream h \<Longrightarrow> bridged ps t h"
  by (auto simp: fed_def relayed_def split: option.splits)

lemma fed_output:
  assumes "fed rr mac ps t w0 stream h"
  shows "tb_written (hm_tcps h ! t) = w0 @ hostOutput rr mac (hm_bypassKey h) stream"
proof (cases "hm_bypassKey h")
  case (Some key)
  have "bypass_output rr mac key stream = []" if "readFramedPacket stream = Inr None"
    using that by (simp add: bypass_output_def)
  with Some assms show ?thesis by (simp add: fed_def relayed_def hostOutput_def split: if_splits)
qed (use assms in \<open>simp add: fed_def hostOutput_def\<close>)

lemma fed_step:
  assumes "fed rr mac ps t w0 stream h"
  shows "\<exists>h'. onPeerData rr mac ps data h = Done h' \<and> fed rr mac ps t w0 (stream @ data) h' \<and>
    hm_rtcs h' = hm_rtcs h \<and> hm_bypassKey h' = hm_bypassKey h"
proof -
  note br = fed_bridged[OF assms]
  have "\<exists>h'. onPeerData rr mac ps data h = Done h' \<and>
      (case hm_bypassKey h of
         None \<Rightarrow> bridged ps t h' \<and> tb_written (hm_tcps h' ! t) = w0 @ stream @ data
       | Some key \<Rightarrow> relayed rr mac key ps t w0 (stream @ data) h')"
  proof (cases "hm_bypassKey h")
    case None
    have at: "ps < length (hm_objs h)" "hs_tcp (hm_objs h ! ps) = Some t" "t < length (hm_tcps h)"
      using br by (simp_all add: bridged_def)
    let ?h = "upd_tcp t (\<lambda>b. b\<lparr>tb_written := tb_written b @ data\<rparr>) h"
    have "onPeerData rr mac ps data h = Done ?h"
      using None at Feed_bridged[OF br, of data] by (simp add: onPeerData_def feedOrClose_def)
    moreover have "bridged ps t ?h"
      using br by (simp add: bridged_upd(1))
    moreover have "tb_written (hm_tcps ?h ! t) = w0 @ stream @ data"
      using None assms at by (simp add: fed_def)
    ultimately show ?thesis using None by simp
  next
    case (Some key)
    then show ?thesis using assms onPeerData_relay[of rr mac key ps t w0 stream h data] by (simp add: fed_def)
  qed
  then obtain h' where "onPeerData rr mac ps data h = Done h'"
    and "case hm_bypassKey h of
           None \<Rightarrow> bridged ps t h' \<and> tb_written (hm_tcps h' ! t) = w0 @ stream @ data
         | Some key \<Rightarrow> relayed rr mac key ps t w0 (stream @ data) h'" by blast
  with onPeerData_keeps[OF br this(1)] show ?thesis
    by (auto simp: fed_def split: option.splits)
qed

lemma fed_all:
  "fed rr mac ps t w0 stream h \<Longrightarrow>
   \<exists>h'. feedAll rr mac ps ds h = Done h' \<and> fed rr mac ps t w0 (stream @ concat ds) h' \<and>
     hm_rtcs h' = hm_rtcs h \<and> hm_bypassKey h' = hm_bypassKey h"
proof (induction ds arbitrary: stream h)
  case (Cons d ds)
  obtain h1 where h1: "onPeerData rr mac ps d h = Done h1" "fed rr mac ps t w0 (stream @ d) h1"
      "hm_rtcs h1 = hm_rtcs h" "hm_bypassKey h1 = hm_bypassKey h"
    using fed_step[OF Cons.prems, of d] by blast
  with Cons.IH[OF h1(2)] show ?case by (simp add: feedAll_def)
qed (simp add: feedAll_def)

lemma fed_upd_rtc [simp]: "fed rr mac ps t w0 stream (upd_rtc i f h) = fed rr mac ps t w0 stream h"
  by (cases "hm_bypassKey h") (simp_all add: fed_def relayed_def bridged_def)

lemma hostMessages_fed:
  assumes "fed rr mac ps t w0 stream h" and "ps < length (hm_rtcs h)" and "hm_rtcs h ! ps = Some s"
  shows "\<exists>h'. hostMessages rr mac ps msgs h = Done h' \<and>
     fed rr mac ps t w0 (stream @ drop (warmupRemaining s) (concat msgs)) h' \<and> hm_bypassKey h' = hm_bypassKey h"
  using assms
proof (induction msgs arbitrary: stream s h)
  case (Cons m msgs)
  let ?s = "dcOnMessage m s" and ?h = "upd_rtc ps (\<lambda>_. dcOnMessage m s) h"
  obtain h1 where h1: "feedAll rr mac ps (passedOn s ?s) ?h = Done h1"
      "fed rr mac ps t w0 (stream @ drop (warmupRemaining s) m) h1" "hm_rtcs h1 = hm_rtcs ?h"
      "hm_bypassKey h1 = hm_bypassKey h"
    using fed_all[of rr mac ps t w0 stream ?h "passedOn s ?s"] Cons.prems(1) by (auto simp: concat_passedOn)
  have rtc: "ps < length (hm_rtcs h1)" "hm_rtcs h1 ! ps = Some ?s"
    using h1(3) Cons.prems(2,3) by (simp_all add: upd_rtc_def)
  have "hostMessage rr mac ps m h = Done h1" using h1(1) Cons.prems(2,3) by (simp add: hostMessage_def Let_def)
  with Cons.IH[OF h1(2) rtc] h1(4) show ?case
    by (simp add: hostMessages_def dcOnMessage_effect(2))
qed (simp add: hostMessages_def)


definition sample_sender :: JoinManager where
  "sample_sender = upd_js 0 (\<lambda>s. s\<lparr>js_rtc := Some (dcOnOpen (sample_session\<lparr>dc := Some 0\<rparr>))\<rparr>) sample_linked"

definition sample_receiver :: "bytes option \<Rightarrow> HostManager" where
  "sample_receiver key = (sample_host key)\<lparr>hm_rtcs := [Some (attachDataChannel sample_pion 0 sample_session)]\<rparr>"

lemma sample_sender_ok: "linked sample_pion 0 (dcOnOpen (sample_session\<lparr>dc := Some 0\<rparr>)) sample_sender"
  by (simp add: linked_def at_phase_def sample_sender_def sample_linked_def sample_joining_state newJoinSession_def upd_js_def
      sample_pion_def dcOnOpen_def signalOpen_def do_call_def)

lemma sample_session_payloads [simp]: "dcPayloads p e (sample_session\<lparr>dc := d\<rparr>) = []"
  by (simp add: dcPayloads_def sample_session_def map_filter_def)


section \<open>From the backend to the local client\<close>

lemma hostDownstream_sends:
  assumes "ps < length (hm_objs h)" and "ps < length (hm_rtcs h)" and "hs_rtc (hm_objs h ! ps)"
    and "hm_rtcs h ! ps = Some rtc" and "dc rtc = Some d" and "readyState p d = DcOpen"
    and "list_all (\<lambda>(polls, data). drainLoop maxBuffered polls = Some None \<and> dcSend p d data = None) rounds"
  shows "\<exists>rtc'. hm_rtcs (hostDownstream p ps rounds h) ! ps = Some rtc' \<and>
    dcPayloads p d rtc' = dcPayloads p d rtc @ map snd rounds"
  using assms
proof (induction rounds arbitrary: h rtc)
  case (Cons r rounds)
  obtain polls data where r: "r = (polls, data)" by (cases r)
  let ?h = "upd_rtc ps (\<lambda>s. snd (Send p data s)) h" and ?rtc = "do_call (DcSend data) rtc"
  have step: "onDownstream p polls data ps h = ?h"
    using Cons.prems by (simp add: onDownstream_def WaitForBufferDrain_def r)
  have taken: "dcSend p d data = None" using Cons.prems by (simp add: r)
  have "hm_rtcs ?h ! ps = Some ?rtc" using Cons.prems by (simp add: upd_rtc_def Send_def)
  then obtain rtc' where
    "hm_rtcs (hostDownstream p ps rounds ?h) ! ps = Some rtc'" "dcPayloads p d rtc' = dcPayloads p d ?rtc @ map snd rounds"
    using Cons.IH[of ?h ?rtc] Cons.prems by auto
  then show ?case using step taken by (simp add: hostDownstream_def r)
qed (simp add: hostDownstream_def)

text \<open>The local connection of the session takes what is written to it.\<close>

definition receiving :: "nat \<Rightarrow> nat \<Rightarrow> JoinManager \<Rightarrow> bool" where
  "receiving i c j \<longleftrightarrow> i < length (jm_objs j) \<and> js_local (jm_objs j ! i) = Some c \<and> c < length (jm_conns j) \<and>
     \<not> lc_closed (jm_conns j ! c)"

lemma joinOnData_receiving:
  assumes "receiving i c j"
  shows "receiving i c (joinOnData data i j)" "jm_objs (joinOnData data i j) = jm_objs j"
    "lc_written (jm_conns (joinOnData data i j) ! c) = lc_written (jm_conns j ! c) @ data"
  using assms by (auto simp: receiving_def joinOnData_def)

lemma joinOnData_all:
  assumes "receiving i c j"
  shows "receiving i c (fold (\<lambda>d. joinOnData d i) ds j) \<and> jm_objs (fold (\<lambda>d. joinOnData d i) ds j) = jm_objs j \<and>
    lc_written (jm_conns (fold (\<lambda>d. joinOnData d i) ds j) ! c) = lc_written (jm_conns j ! c) @ concat ds"
  using assms by (induction ds arbitrary: j) (simp_all add: joinOnData_receiving)

lemma joinMessage_receiving:
  assumes "receiving i c j" and "js_rtc (jm_objs j ! i) = Some s"
  shows "receiving i c (joinMessage i m j)" "js_rtc (jm_objs (joinMessage i m j) ! i) = Some (dcOnMessage m s)"
    "lc_written (jm_conns (joinMessage i m j) ! c) = lc_written (jm_conns j ! c) @ drop (warmupRemaining s) m"
proof -
  let ?j = "upd_js i (\<lambda>x. x\<lparr>js_rtc := Some (dcOnMessage m s)\<rparr>) j"
  have r: "receiving i c ?j" using assms(1) by (simp add: receiving_def)
  have i: "i < length (jm_objs j)" using assms(1) by (simp add: receiving_def)
  have m: "joinMessage i m j = fold (\<lambda>d. joinOnData d i) (passedOn s (dcOnMessage m s)) ?j"
    using i assms(2) by (simp add: joinMessage_def Let_def)
  note all = joinOnData_all[OF r, of "passedOn s (dcOnMessage m s)"]
  show "receiving i c (joinMessage i m j)" using all m by simp
  show "js_rtc (jm_objs (joinMessage i m j) ! i) = Some (dcOnMessage m s)" using all m i by simp
  show "lc_written (jm_conns (joinMessage i m j) ! c) = lc_written (jm_conns j ! c) @ drop (warmupRemaining s) m"
    using all m by (simp add: concat_passedOn)
qed

lemma joinMessages_receiving:
  assumes "receiving i c j" and "js_rtc (jm_objs j ! i) = Some s"
  shows "receiving i c (fold (joinMessage i) msgs j) \<and>
    lc_written (jm_conns (fold (joinMessage i) msgs j) ! c) =
      lc_written (jm_conns j ! c) @ drop (warmupRemaining s) (concat msgs)"
  using assms
proof (induction msgs arbitrary: j s)
  case (Cons m msgs)
  note step = joinMessage_receiving[OF Cons.prems, of m]
  from Cons.IH[OF step(1,2)] step(3) show ?case by (simp add: dcOnMessage_effect(2))
qed simp

text \<open>
  C4. Whatever the server writes, and however the reads of the host cut it: when the channel has
  opened on the host, each wait for the send queue ends with the queue drained and each chunk is taken, then the local
  Minecraft client receives exactly this stream and nothing of the warm-up message, on a connection that stays open.
  This needs the warm-up message: if sending it fails, which is only logged, the first four bytes of the stream are lost.
\<close>

theorem downstream_end_to_end:
  assumes host: "ps < length (hm_objs h)" "ps < length (hm_rtcs h)" "hs_rtc (hm_objs h ! ps)"
      "hm_rtcs h ! ps = Some (dcOnOpen rtc)" "dc rtc = Some d" "readyState p d = DcOpen" "dcPayloads p d rtc = []"
    and drained: "list_all (\<lambda>(polls, data). drainLoop maxBuffered polls = Some None \<and> dcSend p d data = None) rounds"
    and joiner: "receiving i c j" "js_rtc (jm_objs j ! i) = Some (attachDataChannel q e s)"
  shows "\<exists>rtc' j'. hm_rtcs (hostDownstream p ps rounds h) ! ps = Some rtc' \<and>
     fold (joinMessage i) (dcPayloads p d rtc') j = j' \<and> \<not> lc_closed (jm_conns j' ! c) \<and>
     lc_written (jm_conns j' ! c) = lc_written (jm_conns j ! c) @
       (if dcSend p d warmupMagic = None then concat (map snd rounds) else drop 4 (concat (map snd rounds)))"
proof -
  have "dc (dcOnOpen rtc) = Some d" using host(5) by (simp add: dcOnOpen_def signalOpen_def)
  then obtain rtc' where rtc': "hm_rtcs (hostDownstream p ps rounds h) ! ps = Some rtc'"
      "dcPayloads p d rtc' = (if dcSend p d warmupMagic = None then [warmupMagic] else []) @ map snd rounds"
    using hostDownstream_sends[OF host(1-4) _ host(6) drained] host(7) by auto
  have "drop 4 (concat (dcPayloads p d rtc')) =
      (if dcSend p d warmupMagic = None then concat (map snd rounds) else drop 4 (concat (map snd rounds)))"
    by (simp add: rtc'(2))
  with joinMessages_receiving[OF joiner, of "dcPayloads p d rtc'"] rtc'(1) show ?thesis
    by (auto simp: attach_effect receiving_def)
qed

text \<open>The same two sides the other way round.\<close>

definition sample_down_host :: HostManager where
  "sample_down_host = (sample_host None)\<lparr>hm_rtcs := [Some (dcOnOpen (sample_session\<lparr>dc := Some 0\<rparr>))]\<rparr>"

definition sample_down_join :: JoinManager where
  "sample_down_join = upd_js 0 (\<lambda>s. s\<lparr>js_rtc := Some (attachDataChannel sample_pion 0 sample_session)\<rparr>) sample_linked"

lemma sample_down_join_ok:
  "receiving 0 0 sample_down_join" "js_rtc (jm_objs sample_down_join ! 0) = Some (attachDataChannel sample_pion 0 sample_session)"
  "lc_written (jm_conns sample_down_join ! 0) = []"
  by (simp_all add: receiving_def sample_down_join_def sample_linked_def sample_joining_state newJoinSession_def upd_js_def)

theorem downstream_end_to_end_witness:
  "\<exists>rtc' j'. hm_rtcs (hostDownstream sample_pion 0 [([(DcOpen, 2000000), (DcOpen, 5)], [1, 2]), ([(DcOpen, 0)], [3])] sample_down_host) ! 0 =
        Some rtc' \<and>
     fold (joinMessage 0) (dcPayloads sample_pion 0 rtc') sample_down_join = j' \<and> lc_written (jm_conns j' ! 0) = [1, 2, 3]"
  using downstream_end_to_end[of 0 sample_down_host "sample_session\<lparr>dc := Some 0\<rparr>" 0 sample_pion
      "[([(DcOpen, 2000000), (DcOpen, 5)], [1, 2]), ([(DcOpen, 0)], [3])]" 0 0 sample_down_join sample_pion 0 sample_session]
  by (simp add: sample_down_host_def sample_host_def sample_down_join_ok maxBuffered_def sample_pion_def del: fold.simps)
     (auto simp: sample_pion_def)

end
