(* ===== verification/IpcStdio.thy ===== *)
theory IpcStdio
  imports IpcHost
begin

text \<open>
  The process around the launcher's server (\<^verbatim>\<open>NewServer\<close>, \<^verbatim>\<open>Quit\<close> and \<^verbatim>\<open>Run\<close> of \<^verbatim>\<open>src/internal/ipc/server.go\<close>, the end of
  \<^verbatim>\<open>runIpcStdio\<close> in \<^verbatim>\<open>src/cmd/openfriend/ipc.go\<close>): the loop that reads lines, the goroutines that serve them, those that wait
  for \<^verbatim>\<open>quit\<close> and for a signal, and the exit status.
\<close>

section \<open>Model\<close>

text \<open>\<^verbatim>\<open>sv_quitOnce\<close>: the \<^verbatim>\<open>sync.Once\<close> has run. \<^verbatim>\<open>sv_quitCh\<close>: the channel is closed.\<close>

record 's Server =
  sv_methods :: "'s methods"
  sv_quitOnce :: bool
  sv_quitCh :: bool

definition NewServer :: "'s Server" where
  "NewServer = \<lparr>sv_methods = Map.empty, sv_quitOnce = False, sv_quitCh = False\<rparr>"

definition Server_Quit :: "'s Server \<Rightarrow> 's Server" where
  "Server_Quit s = (if sv_quitOnce s then s else s\<lparr>sv_quitOnce := True, sv_quitCh := True\<rparr>)"

text \<open>
  \<^verbatim>\<open>so_quitters\<close> counts the goroutines that the method \<^verbatim>\<open>quit\<close> has started and that still sleep. \<^verbatim>\<open>so_parentStop\<close>: a signal is in
  the buffer of the channel; \<^verbatim>\<open>so_watching\<close>: the goroutine of \<^verbatim>\<open>runIpcStdio\<close> waits for it. \<^verbatim>\<open>so_signals\<close> counts the
  signals the process got.
\<close>

record 's Stdio =
  so_server :: "'s Server"
  so_run :: "'s ServerRun"
  so_quitters :: nat
  so_parentStop :: bool
  so_watching :: bool
  so_signals :: nat
  so_exit :: "nat option"

definition NewStdio :: "'s methods \<Rightarrow> 's ServerRun \<Rightarrow> 's Stdio" where
  "NewStdio ms r =
     \<lparr>so_server = NewServer\<lparr>sv_methods := ms\<rparr>, so_run = r, so_quitters = 0, so_parentStop = False, so_watching = True,
      so_signals = 0, so_exit = None\<rparr>"

text \<open>The line asks for the method \<^verbatim>\<open>quit\<close>.\<close>

definition isQuit :: "(string \<Rightarrow> json option) \<Rightarrow> string \<Rightarrow> bool" where
  "isQuit parse l =
     (case Option.bind (parse l) decodeRequest of
        None \<Rightarrow> False
      | Some req \<Rightarrow> rq_JSONRPC req = ''2.0'' \<and> rq_Method req = ''quit'')"

datatype stdio_event =
    StRead
  | StReadFails
  | StServe string
  | StQuit
  | StSignal
  | StParent
  | StCancel
  | StReturn
  | StExit

definition exitStatus :: "bool \<Rightarrow> nat" where
  "exitStatus err = (if err then 1 else 0)"

fun stdio_apply ::
    "(string \<Rightarrow> json option) \<Rightarrow> stdio_event \<Rightarrow> 'a Writer_scheme Stdio \<Rightarrow> 'a Writer_scheme Stdio" where
  "stdio_apply parse StRead s = s\<lparr>so_run := scan (so_run s)\<rparr>"
| "stdio_apply parse StReadFails s = s\<lparr>so_run := (so_run s)\<lparr>sr_phase := AwaitingCalls True\<rparr>\<rparr>"
| "stdio_apply parse (StServe l) s =
     s\<lparr>so_run := serve (sv_methods (so_server s)) parse l (so_run s),
       so_quitters := so_quitters s + (if isQuit parse l then 1 else 0)\<rparr>"
| "stdio_apply parse StQuit s = s\<lparr>so_server := Server_Quit (so_server s), so_quitters := so_quitters s - 1\<rparr>"
| "stdio_apply parse StSignal s = s\<lparr>so_parentStop := True, so_signals := so_signals s + 1\<rparr>"
| "stdio_apply parse StParent s =
     s\<lparr>so_server := Server_Quit (so_server s), so_parentStop := False, so_watching := False\<rparr>"
| "stdio_apply parse StCancel s = s\<lparr>so_run := (so_run s)\<lparr>sr_cancelled := True\<rparr>\<rparr>"
| "stdio_apply parse StReturn s =
     (case sr_phase (so_run s) of
        AwaitingCalls err \<Rightarrow> s\<lparr>so_run := (so_run s)\<lparr>sr_phase := RunEnded err\<rparr>\<rparr>
      | _ \<Rightarrow> s)"
| "stdio_apply parse StExit s =
     (case sr_phase (so_run s) of RunEnded err \<Rightarrow> s\<lparr>so_exit := Some (exitStatus err)\<rparr> | _ \<Rightarrow> s)"

fun stdio_ready :: "stdio_event \<Rightarrow> 's Stdio \<Rightarrow> bool" where
  "stdio_ready StRead s \<longleftrightarrow> sr_phase (so_run s) = Scanning"
| "stdio_ready StReadFails s \<longleftrightarrow> sr_phase (so_run s) = Scanning"
| "stdio_ready (StServe l) s \<longleftrightarrow> l \<in> set (sr_serving (so_run s))"
| "stdio_ready StQuit s \<longleftrightarrow> 0 < so_quitters s"
| "stdio_ready StSignal s \<longleftrightarrow> True"
| "stdio_ready StParent s \<longleftrightarrow> so_watching s \<and> so_parentStop s"
| "stdio_ready StCancel s \<longleftrightarrow> sv_quitCh (so_server s)"
| "stdio_ready StReturn s \<longleftrightarrow>
     (case sr_phase (so_run s) of AwaitingCalls err \<Rightarrow> sr_serving (so_run s) = [] \<and> sr_stuck (so_run s) = [] | _ \<Rightarrow> False)"
| "stdio_ready StExit s \<longleftrightarrow> (case sr_phase (so_run s) of RunEnded err \<Rightarrow> True | _ \<Rightarrow> False)"

definition stdio_enabled :: "stdio_event \<Rightarrow> 's Stdio \<Rightarrow> bool" where
  "stdio_enabled ev s \<longleftrightarrow> so_exit s = None \<and> stdio_ready ev s"

inductive stdio_step :: "(string \<Rightarrow> json option) \<Rightarrow> 'a Writer_scheme Stdio \<Rightarrow> 'a Writer_scheme Stdio \<Rightarrow> bool" for parse where
  stdio_event: "stdio_enabled ev s \<Longrightarrow> stdio_step parse s (stdio_apply parse ev s)"

inductive_cases stdio_stepE: "stdio_step parse s s'"

text \<open>The events one after the other, as long as each can happen.\<close>

fun stdio_events :: "(string \<Rightarrow> json option) \<Rightarrow> stdio_event list \<Rightarrow> 'a Writer_scheme Stdio \<Rightarrow> 'a Writer_scheme Stdio option" where
  "stdio_events parse [] s = Some s"
| "stdio_events parse (ev # evs) s =
     (if stdio_enabled ev s then stdio_events parse evs (stdio_apply parse ev s) else None)"

section \<open>Quitting\<close>

interpretation server_quit: once_guarded Server_Quit "\<lambda>s. sv_quitOnce s"
  by unfold_locales (simp_all add: Server_Quit_def)

lemma Server_Quit_simps [simp]:
  "sv_methods (Server_Quit s) = sv_methods s" "sv_quitOnce (Server_Quit s)"
  "sv_quitCh (Server_Quit s) \<longleftrightarrow> \<not> sv_quitOnce s \<or> sv_quitCh s"
  by (simp_all add: Server_Quit_def)

text \<open>The lines that are being served have been accepted, and serving one adds none.\<close>

lemma scan_serving: "set (sr_serving r) \<subseteq> set (sr_accepted r) \<Longrightarrow> set (sr_serving (scan r)) \<subseteq> set (sr_accepted (scan r))"
  by (auto simp: scan_def split: list.splits)

lemma scan_frame [simp]: "sr_cancelled (scan r) = sr_cancelled r" "sr_phase r \<noteq> RunEnded err \<Longrightarrow> sr_phase (scan r) \<noteq> RunEnded err"
  by (auto simp: scan_def split: list.splits)

lemma scan_accepted: "set (sr_accepted r) \<subseteq> set (sr_accepted (scan r))"
  by (auto simp: scan_def split: list.splits)

lemma serve_frame [simp]:
  "sr_accepted (serve ms parse l r) = sr_accepted r" "sr_cancelled (serve ms parse l r) = sr_cancelled r"
  "sr_phase (serve ms parse l r) = sr_phase r" "sr_input (serve ms parse l r) = sr_input r"
  by (simp_all add: serve_def split: outcome.split)

lemma serve_serving: "set (sr_serving (serve ms parse l r)) \<subseteq> set (sr_serving r)"
  using set_remove1_subset[of l "sr_serving r"] by (simp add: serve_def split: outcome.split)

text \<open>Somebody wanted the server to stop: a request that was read, or a signal.\<close>

definition askedToStop :: "(string \<Rightarrow> json option) \<Rightarrow> 's Stdio \<Rightarrow> bool" where
  "askedToStop parse s \<longleftrightarrow> so_signals s > 0 \<or> (\<exists>l\<in>set (sr_accepted (so_run s)). isQuit parse l)"

definition stdio_inv :: "'s methods \<Rightarrow> (string \<Rightarrow> json option) \<Rightarrow> 's Stdio \<Rightarrow> bool" where
  "stdio_inv ms parse s \<longleftrightarrow>
     sv_methods (so_server s) = ms \<and> sv_quitCh (so_server s) = sv_quitOnce (so_server s) \<and>
     (sr_cancelled (so_run s) \<longrightarrow> sv_quitCh (so_server s)) \<and>
     (sv_quitCh (so_server s) \<or> so_quitters s > 0 \<longrightarrow> askedToStop parse s) \<and>
     (so_parentStop s \<longrightarrow> so_signals s > 0) \<and>
     set (sr_serving (so_run s)) \<subseteq> set (sr_accepted (so_run s)) \<and>
     (\<forall>code. so_exit s = Some code \<longrightarrow> (\<exists>err. sr_phase (so_run s) = RunEnded err \<and> code = exitStatus err))"

lemma stdio_inv_init: "stdio_inv ms parse (NewStdio ms (NewRun input w0))"
  by (simp add: stdio_inv_def NewStdio_def NewServer_def NewRun_def)

lemma stdio_inv_apply:
  assumes "stdio_inv ms parse s" and "stdio_enabled ev s"
  shows "stdio_inv ms parse (stdio_apply parse ev s)"
proof (cases ev)
  case StRead
  then show ?thesis
    using assms scan_serving[of "so_run s"] scan_accepted[of "so_run s"]
    by (auto simp: stdio_inv_def stdio_enabled_def askedToStop_def)
next
  case (StServe l)
  then show ?thesis
    using assms serve_serving[of ms parse l "so_run s"]
    by (auto simp: stdio_inv_def stdio_enabled_def askedToStop_def)
next
  case StReturn
  then show ?thesis using assms by (auto simp: stdio_inv_def stdio_enabled_def askedToStop_def split: phase.splits)
next
  case StExit
  then show ?thesis using assms by (auto simp: stdio_inv_def stdio_enabled_def askedToStop_def split: phase.splits)
qed (use assms in \<open>auto simp: stdio_inv_def stdio_enabled_def askedToStop_def\<close>)

text \<open>The process refines the server: each of its steps is one of the server, or leaves the server's state alone.\<close>

lemma stdio_refines_run:
  assumes "stdio_enabled ev s"
  shows "so_run (stdio_apply parse ev s) = so_run s \<or>
    run_step (sv_methods (so_server s)) parse (so_run s) (so_run (stdio_apply parse ev s))"
proof (cases ev)
  case StReturn
  then show ?thesis using assms by (auto simp: stdio_enabled_def intro: run_step.intros split: phase.splits)
next
  case StExit
  then show ?thesis using assms by (auto split: phase.splits)
qed (use assms in \<open>auto simp: stdio_enabled_def intro: run_step.intros\<close>)

definition stdio_good ::
    "'a Writer_scheme methods \<Rightarrow> (string \<Rightarrow> json option) \<Rightarrow> 'a Writer_scheme ServerRun \<Rightarrow> 'a Writer_scheme Stdio \<Rightarrow> bool" where
  "stdio_good ms parse r0 s \<longleftrightarrow> stdio_inv ms parse s \<and> (run_step ms parse)\<^sup>*\<^sup>* r0 (so_run s)"

lemma stdio_good_step:
  assumes "stdio_good ms parse r0 s" and "stdio_step parse s s'"
  shows "stdio_good ms parse r0 s'"
  using assms(2)
proof (rule stdio_stepE)
  fix ev assume ev: "s' = stdio_apply parse ev s" "stdio_enabled ev s"
  have "sv_methods (so_server s) = ms" using assms(1) by (simp add: stdio_good_def stdio_inv_def)
  then show ?thesis
    using assms(1) stdio_inv_apply[of ms parse s ev] stdio_refines_run[OF ev(2), of parse] ev
    by (auto simp: stdio_good_def intro: rtranclp.rtrancl_into_rtrancl)
qed

interpretation stdio: invariant_system "\<lambda>s. s = NewStdio ms (NewRun input w0)" "stdio_step parse"
    "stdio_good ms parse (NewRun input w0)" for ms parse input w0
  by unfold_locales (simp add: stdio_good_def stdio_inv_init, simp add: NewStdio_def, rule stdio_good_step)

section \<open>Properties\<close>


text \<open>
  Neither \<^verbatim>\<open>quit\<close> nor a signal ends a server that waits for its launcher: as long as no line comes and
  the input does not end, it goes on, whatever it serves and however often it is asked to stop. The next line that is
  not empty is still accepted, and then a cancelled server reads no more.
\<close>

theorem quit_waits_for_input:
  assumes "stdio_events parse evs s = Some s'" and "sr_phase (so_run s) = Scanning"
    and "StRead \<notin> set evs" and "StReadFails \<notin> set evs" and "so_exit s = None"
  shows "so_exit s' = None \<and> sr_phase (so_run s') = Scanning \<and>
    (sr_cancelled (so_run s') \<and> sr_input (so_run s') = l # ls \<and> l \<noteq> '''' \<and> length l < maxLine \<longrightarrow>
       (let r = so_run (stdio_apply parse StRead s')
        in sr_accepted r = sr_accepted (so_run s') @ [l] \<and> sr_phase r = AwaitingCalls False))"
  using assms
proof (induction evs arbitrary: s)
  case (Cons ev evs)
  have on: "stdio_enabled ev s" and rest: "stdio_events parse evs (stdio_apply parse ev s) = Some s'"
    using Cons.prems(1) by (auto split: if_splits)
  have "sr_phase (so_run (stdio_apply parse ev s)) = Scanning" "so_exit (stdio_apply parse ev s) = None"
    using on Cons.prems(2-5) by (cases ev; simp add: stdio_enabled_def)+
  then show ?case using Cons.IH[OF rest] Cons.prems(3,4) by simp
qed (simp add: Let_def scan_def)

lemma stdio_events_steps: "stdio_events parse evs s = Some s' \<Longrightarrow> (stdio_step parse)\<^sup>*\<^sup>* s s'"
proof (induction evs arbitrary: s)
  case (Cons ev evs)
  then have "stdio_step parse s (stdio_apply parse ev s)" "(stdio_step parse)\<^sup>*\<^sup>* (stdio_apply parse ev s) s'"
    by (auto split: if_splits intro: stdio_event)
  then show ?case by (rule converse_rtranclp_into_rtranclp)
qed simp

text \<open>A signal while the server waits: the context is cancelled, and the process stays.\<close>

definition sample_waiting :: "HostHandlers Stdio" where
  "sample_waiting = NewStdio (Handlers_Register sample_ipc_env sample_host_env) (NewRun [''q''] sample_host)"

theorem quit_waits_for_input_witness:
  "\<exists>s'. stdio_events sample_line [StSignal, StParent, StCancel, StSignal] sample_waiting = Some s' \<and>
     so_exit s' = None \<and> sr_phase (so_run s') = Scanning \<and> sr_cancelled (so_run s')"
proof -
  have "stdio_events sample_line [StSignal, StParent, StCancel, StSignal] sample_waiting \<noteq> None"
    "sr_phase (so_run sample_waiting) = Scanning" "so_exit sample_waiting = None"
    by (simp_all add: sample_waiting_def NewStdio_def NewServer_def NewRun_def stdio_enabled_def Server_Quit_def)
  then obtain s' where run: "stdio_events sample_line [StSignal, StParent, StCancel, StSignal] sample_waiting = Some s'" by auto
  then have "sr_cancelled (so_run s')"
    by (auto simp: sample_waiting_def NewStdio_def NewServer_def NewRun_def stdio_enabled_def Server_Quit_def)
  with run quit_waits_for_input[OF run] show ?thesis
    by (simp add: sample_waiting_def NewStdio_def NewServer_def NewRun_def)
qed


end
