(* ===== verification/SigRead.thy ===== *)
theory SigRead
  imports Signaling
begin

text \<open>
  The loop that reads the signaling socket (\<^verbatim>\<open>readLoop\<close> of \<^verbatim>\<open>src/internal/signaling/transport.go\<close>), from the first message to
  the error that ends it.
\<close>

section \<open>Model\<close>

text \<open>
  \<^verbatim>\<open>msgs\<close> are the messages that arrive before the read error \<^verbatim>\<open>cause\<close>, each with the outcome of the write that
  acknowledges it. The first component is what the listeners are called with.
\<close>

fun readLoop ::
    "(string \<Rightarrow> uuid option) \<Rightarrow> (string \<Rightarrow> json option) \<Rightarrow> nat \<Rightarrow> (go_error option \<times> json) list \<Rightarrow> go_error \<Rightarrow> Client \<Rightarrow>
     dispatch list \<times> Client outcome" where
  "readLoop up jp conn [] cause c = ([], Done (handleClose cause (drop_agent (Reader conn) c)))"
| "readLoop up jp conn ((writeErr, raw) # msgs) cause c =
     (case handleMessage up jp writeErr raw c of
        (d, Done c1) \<Rightarrow>
          (case readLoop up jp conn msgs cause c1 of (ds, r) \<Rightarrow> ((case d of None \<Rightarrow> ds | Some x \<Rightarrow> x # ds), r))
      | (d, stuck) \<Rightarrow> ((case d of None \<Rightarrow> [] | Some x \<Rightarrow> [x]), stuck))"

section \<open>What the listeners get\<close>

text \<open>The call of a listener that a message stands for, whatever the client is doing.\<close>

definition delivery :: "(string \<Rightarrow> uuid option) \<Rightarrow> (string \<Rightarrow> json option) \<Rightarrow> json \<Rightarrow> dispatch option" where
  "delivery up jp raw =
     (case unmarshalRpc raw of
        None \<Rightarrow> None
      | Some msg \<Rightarrow> if Method msg = ''Signaling_ReceiveMessage_v1_0'' then receivedMessage up jp (Params msg) else None)"

lemma handleMessage_delivery: "fst (handleMessage up jp e raw c) = delivery up jp raw"
  by (auto simp: handleMessage_def delivery_def handleIncomingMethod_def handleReceiveMessage_def split: option.split prod.split)

lemma handleMessage_done:
  assumes "rpc_wf c"
  shows "\<exists>c1. handleMessage up jp e raw c = (delivery up jp raw, Done c1) \<and> rpc_wf c1 \<and> link c1 = link c"
proof -
  obtain c1 where "snd (handleMessage up jp e raw c) = Done c1" "rpc_wf c1" using rpc_wf_handleMessage[OF assms] by blast
  then show ?thesis
    using handleMessage_delivery[of up jp e raw c] link_handleMessage[of up jp e raw c]
    by (cases "handleMessage up jp e raw c") auto
qed

lemma Reader_link:
  assumes "link c1 = link c"
  shows "Reader conn \<in> set (agents c1) \<longleftrightarrow> Reader conn \<in> set (agents c)"
proof -
  have "Reader conn \<in> set (agents x) \<longleftrightarrow> Reader conn \<in> set (workers x)" for x by (auto simp: workers_def)
  with assms show ?thesis by (simp add: link_def)
qed

lemma readLoop_done:
  assumes "rpc_wf c" and "Reader conn \<in> set (agents c)"
  shows "\<exists>c1. readLoop up jp conn msgs cause c =
       (List.map_filter (\<lambda>(e, raw). delivery up jp raw) msgs, Done (handleClose cause (drop_agent (Reader conn) c1))) \<and>
     sig_step\<^sup>*\<^sup>* c c1 \<and> link c1 = link c"
  using assms
proof (induction msgs arbitrary: c)
  case Nil
  then show ?case by auto
next
  case (Cons m msgs)
  obtain e raw where m: "m = (e, raw)" by (cases m)
  obtain c1 where c1: "handleMessage up jp e raw c = (delivery up jp raw, Done c1)" "rpc_wf c1" "link c1 = link c"
    using handleMessage_done[OF Cons.prems(1)] by blast
  have step: "sig_step c c1"
    using sig_event[of "SRead conn up jp e raw" c] Cons.prems(2) c1(1) by simp
  have "Reader conn \<in> set (agents c1)"
    using Cons.prems(2) Reader_link[OF c1(3)] by simp
  from Cons.IH[OF c1(2) this] obtain c2 where
    "readLoop up jp conn msgs cause c1 =
       (List.map_filter (\<lambda>(e, raw). delivery up jp raw) msgs, Done (handleClose cause (drop_agent (Reader conn) c2)))"
    "sig_step\<^sup>*\<^sup>* c1 c2" "link c2 = link c1" by blast
  with c1 step show ?case
    by (auto simp: m List.map_filter_def intro: converse_rtranclp_into_rtranclp split: option.splits)
qed



end
