(* ===== verification/Spec2Isabelle.thy ===== *)
theory Spec2Isabelle
  imports Command LogLines TokenFlow DataPath IpcStdio SigRead
begin

text \<open>
  OpenFriend lets a Minecraft host accept friends over the vendor's friends service: the command signs in,
  announces presence, talks to the signaling service over a WebSocket, sets up a WebRTC data channel per player
  and copies bytes between that channel and a TCP connection (to the Minecraft server on the hosting side, to the
  local game client on the joining side).  This development models the program's own logic, the Go code under
  \<^verbatim>\<open>src/internal\<close>, as functions on explicit states.

  \<^bold>\<open>How the parts interact.\<close>  The signaling client (\<^verbatim>\<open>internal/signaling\<close>) hands each received message to one of two
  listeners.  Friend-join messages go to the manager's \<^verbatim>\<open>OnFriendJoin\<close>, WebRTC messages to its \<^verbatim>\<open>onWebRtc\<close>
  (\<^verbatim>\<open>internal/bridge/host.go\<close>, \<^verbatim>\<open>join.go\<close>).  Managers keep one \<^verbatim>\<open>Session\<close> (\<^verbatim>\<open>internal/bridge/session.go\<close>) per
  player; the host rewrites the first Minecraft packet of a player (\<^verbatim>\<open>handshake.go\<close>) before it reaches the server.
  The services client (\<^verbatim>\<open>internal/api\<close>) fetches the friends list and posts presence for the refresher and the
  broadcaster (\<^verbatim>\<open>internal/presence\<close>).  The tokens all of them use are kept by \<^verbatim>\<open>internal/auth/session.go\<close>.
  The updater (\<^verbatim>\<open>internal/update\<close>) replaces the running binary.  A launcher drives the command over
  standard input and output (\<^verbatim>\<open>internal/ipc\<close>).

  \<^bold>\<open>The theories.\<close>
  \<^item> \<^verbatim>\<open>Prelude\<close>: results (error values), outcomes of calls that may panic, block forever or hang on a mutex,
    reachability, generic list and map lemmas, and the locales of one-shot channels and of state machines with an
    invariant that the components interpret.
  \<^item> \<^verbatim>\<open>GoStrings\<close>: the parts of \<^verbatim>\<open>strings\<close>, \<^verbatim>\<open>strconv\<close> and \<^verbatim>\<open>net\<close> the program uses, with their round trips.
  \<^item> \<^verbatim>\<open>Handshake\<close> (\<^verbatim>\<open>bridge/handshake.go\<close>): VarInts on 32-bit words, strings, frames, the handshake packet and the
    marker.  Round trips, stability of a verdict under more input, and the form of the marked address.
  \<^item> \<^verbatim>\<open>RtcSession\<close> (\<^verbatim>\<open>bridge/session.go\<close>): the session record, its ICE queue, the data channel with the four-byte
    warm-up prefix, the backpressure wait and the one-shot callbacks.  Invariant over every sequence of events,
    exactly-once delivery of candidates, stream correctness.
  \<^item> \<^verbatim>\<open>Messages\<close> (\<^verbatim>\<open>signaling/messages.go\<close>): messages as JSON trees, their builders and accessors.
  \<^item> \<^verbatim>\<open>HostBridge\<close> (\<^verbatim>\<open>bridge/host.go\<close>, \<^verbatim>\<open>tcp.go\<close>): the session table, negotiation, the backend connection and
    closing.  Mutexes and \<^verbatim>\<open>sync.Once\<close> are part of the state, so a call that locks a held mutex is the outcome
    that does not return; the theorems on repeated offers and on backend closing state what follows.
  \<^item> \<^verbatim>\<open>JoinBridge\<close> (\<^verbatim>\<open>bridge/join.go\<close>): the accept loop and the goroutine of one local connection, cut at the places
    where it waits; a step relation interleaves it with messages, closes and timeouts.
  \<^item> \<^verbatim>\<open>DataPath\<close>: the two bridges connected by a data channel, so that the bytes of the local client are followed to the
    server and back.
  \<^item> \<^verbatim>\<open>Signaling\<close> (\<^verbatim>\<open>signaling/*.go\<close>): the connection state machine with its timers and backoff, JSON-RPC calls with
    their pending table, dispatch with acknowledgements, TURN credentials, token refresh on connecting.
  \<^item> \<^verbatim>\<open>SigRead\<close> (\<^verbatim>\<open>signaling/transport.go\<close>): the loop that reads the socket, from the first message to the error that ends it.
  \<^item> \<^verbatim>\<open>ApiClient\<close> (\<^verbatim>\<open>api/*.go\<close>, \<^verbatim>\<open>util/uuid.go\<close>): requests with one retry after 401, cooldown after 429, the ETag cache
    in memory and on disk, friend actions, presence, peer resolution, skin upload.
  \<^item> \<^verbatim>\<open>Presence\<close> (\<^verbatim>\<open>presence/*.go\<close>): the polling loop with its diff against the previous list, automatic accepting,
    and the broadcaster's start and close.
  \<^item> \<^verbatim>\<open>Update\<close> (\<^verbatim>\<open>update/*.go\<close>): version comparison, the download and the replacement of the binary on both
    families of systems, over an explicit file system in which each call may fail.
  \<^item> \<^verbatim>\<open>Auth\<close> (\<^verbatim>\<open>auth/*.go\<close>): the device code flow with its polling loop, the exchanges with Microsoft, Xbox and Mojang, the
    encrypted credentials file and its legacy form, the session that keeps and refreshes the tokens.
  \<^item> \<^verbatim>\<open>TokenFlow\<close>: the request loop of \<^verbatim>\<open>api/client.go\<close> with the session as its token provider, a refinement of the client
    alone.
  \<^item> \<^verbatim>\<open>BypassKey\<close> (\<^verbatim>\<open>bypass/key.go\<close>): making and reading the key file.
  \<^item> \<^verbatim>\<open>IpcServer\<close> (\<^verbatim>\<open>ipc/protocol.go\<close>, \<^verbatim>\<open>writer.go\<close>, \<^verbatim>\<open>server.go\<close>, \<^verbatim>\<open>blocklist.go\<close>): reading requests, dispatching them on
    goroutines, recovering panics, and the block list with its file.
  \<^item> \<^verbatim>\<open>IpcMethods\<close>, \<^verbatim>\<open>IpcWatch\<close>, \<^verbatim>\<open>IpcHost\<close> (\<^verbatim>\<open>ipc/methods*.go\<close>, \<^verbatim>\<open>observer.go\<close>): the methods for the account and the friends, the
    two watches, and hosting and joining, on one record that each theory extends; the table of all methods.
  \<^item> \<^verbatim>\<open>IpcStdio\<close> (\<^verbatim>\<open>ipc/server.go\<close>, \<^verbatim>\<open>cmd/openfriend/ipc.go\<close>): the process around the launcher's server, a refinement of its loop,
    with quitting, signals and the exit status.
  \<^item> \<^verbatim>\<open>LogLines\<close> (\<^verbatim>\<open>ipc/handler.go\<close>): log records as notifications.
  \<^item> \<^verbatim>\<open>GoPaths\<close>: the parts of \<^verbatim>\<open>path/filepath\<close> the command uses. \<^verbatim>\<open>Skin\<close> (\<^verbatim>\<open>skinimg/skinimg.go\<close>, \<^verbatim>\<open>cmd/openfriend/skin.go\<close>): the
    picture made from a face, and uploading it once. \<^verbatim>\<open>StatusFile\<close> (\<^verbatim>\<open>status/status.go\<close>): snapshots for other tools.
  \<^item> \<^verbatim>\<open>CmdFlags\<close>, \<^verbatim>\<open>Command\<close> (\<^verbatim>\<open>cmd/openfriend\<close>): the options, the modes of \<^verbatim>\<open>main\<close> composed from the components, self-update,
    reset and shutdown.
  \<^item> this theory: the closures that connect the client to the managers, and the run of the whole join protocol
    between a joining and a hosting manager.

  \<^bold>\<open>Conventions.\<close>  A mutex-protected method is one function on the record.  A goroutine that waits is cut there and
  its parts are steps of an \<^verbatim>\<open>inductive\<close> relation, so every interleaving at the waits is covered; data races
  inside a part are modelled only where a theorem says so.  What the environment decides (an answer of a service,
  whether a write fails, the time) is an argument.  A panic is the outcome \<^const>\<open>Panic\<close>, a call that never returns the outcome \<^const>\<open>Hang\<close>.

  \<^bold>\<open>Interfaces.\<close>  Contracts shared by several components are locales, interpreted on the components'
  definitions: closing exactly once, keeping an invariant along steps, replacing a binary, answering one pending
  call, a store that gives back what was saved, a table of methods that do not answer themselves, a set of blocked players.  The properties use the interpreted facts.

  \<^bold>\<open>Bounds and fuel.\<close>  \<^verbatim>\<open>WaitForBufferDrain\<close> polls a clock, so \<^verbatim>\<open>drainLoop\<close> recurses over the list of polls that fit
  before its deadline.  \<^verbatim>\<open>UploadSkinBytes\<close> calls itself without a bound, so it has fuel, and the theorem about it
  says which fuel is enough and when none is.  Waiting for a \<^verbatim>\<open>Retry-After\<close> of n seconds multiplies by 10^9 in 64 bits,
  so n is at most 9223372036 in the statement.  Version numbers are read by \<^verbatim>\<open>Atoi\<close>, so they are below 2^63.
  VarInts and frame lengths are 32-bit words; other lengths are natural numbers.
  The lifetime of a device code is at most 2^62 ns and a request takes at least 1 ns where polling is shown to end. One
  method of the launcher is one step; lines of input are at most 4 MB.

  \<^bold>\<open>Arguments of the model.\<close>  pion/webrtc, google/uuid, gorilla/websocket and the services stand outside the repository
  and are arguments, as are HMAC-SHA256, SHA-256, AES-GCM, the PNG codec and the scaling of pictures, the machine's id,
  random bytes, the file system's refusals and the clock.  JSON text is not parsed: messages are trees, and
  the decoding of a tree into a struct is modelled with Go's case-insensitive field names for ASCII letters.  Paths have
  the separator \<^verbatim>\<open>/\<close>.

  \<^bold>\<open>Not modelled.\<close>  Printed and logged texts; \<^verbatim>\<open>logSelectedCandidatePair\<close>, which only logs; the delivery of signals and
  \<^verbatim>\<open>watchStdinEOF\<close>, which only discards input until it ends; \<^verbatim>\<open>ProbeTCP\<close> and \<^verbatim>\<open>ListenAddr\<close>, whose answers are arguments;
  the HTTP client's timeout; the build files.
\<close>

section \<open>The listeners\<close>

text \<open>
  What \<^verbatim>\<open>handleReceiveMessage\<close> hands out goes to the manager that the command set up: the join listener
  is the closure given to \<^verbatim>\<open>signaling.NewClient\<close>, the WebRTC listener the one the manager installed.
  Both run inside \<^verbatim>\<open>safeCall\<close>.
\<close>

fun deliverHost :: "bool \<Rightarrow> bool \<Rightarrow> pion \<Rightarrow> bool \<Rightarrow> dispatch \<Rightarrow> HostManager \<Rightarrow> HostManager outcome" where
  "deliverHost probe turnErr p sendErr (ToJoin from m) h = safeCall (Done (OnFriendJoin probe from m h))"
| "deliverHost probe turnErr p sendErr (ToRtc from m) h = safeCall (onWebRtc turnErr p sendErr from m h)"

fun deliverJoin :: "pion \<Rightarrow> dispatch \<Rightarrow> JoinManager \<Rightarrow> JoinManager outcome" where
  "deliverJoin p (ToJoin from m) j = safeCall (JoinManager_OnFriendJoin from m j)"
| "deliverJoin p (ToRtc from m) j = safeCall (JoinManager_onWebRtc p from m j)"

definition hostReceives :: "bool \<Rightarrow> bool \<Rightarrow> pion \<Rightarrow> bool \<Rightarrow> uuid \<Rightarrow> payload \<Rightarrow> HostManager \<Rightarrow> HostManager outcome" where
  "hostReceives probe turnErr p sendErr sender m h =
     (case routed sender m of None \<Rightarrow> Done h | Some d \<Rightarrow> deliverHost probe turnErr p sendErr d h)"

definition joinReceives :: "pion \<Rightarrow> uuid \<Rightarrow> payload \<Rightarrow> JoinManager \<Rightarrow> JoinManager outcome" where
  "joinReceives p sender m j = (case routed sender m of None \<Rightarrow> Done j | Some d \<Rightarrow> deliverJoin p d j)"

lemma routed_messages [simp]:
  "routed from (JoinRequest sid) = Some (ToJoin from (JoinRequest sid))"
  "routed from (JoinAccepted sid) = Some (ToJoin from (JoinAccepted sid))"
  "routed from (JoinRejected sid) = Some (ToJoin from (JoinRejected sid))"
  "routed from (Offer sid sdp) = Some (ToRtc from (Offer sid sdp))"
  "routed from (Answer sid sdp) = Some (ToRtc from (Answer sid sdp))"
  "routed from (IceCandidate sid c m i) = Some (ToRtc from (IceCandidate sid c m i))"
  by (simp_all add: routed_def Let_def flip: GetType_def)

text \<open>
  A listener's panic never reaches the read loop: after a message has been handed to the
  joining side the loop goes on, with the state the listener left.
\<close>

theorem listener_panic_recovered:
  "\<exists>j'. deliverJoin p d j = Done j'"
proof (cases d)
  case (ToJoin sender m)
  then show ?thesis
    by (auto simp: safeCall_def JoinManager_OnFriendJoin_def split: option.split)
next
  case (ToRtc sender m)
  have "\<exists>j'. safeCall (handleAnswer p m j) = Done j'" "\<exists>j'. safeCall (JoinManager_handleICE m j) = Done j'"
    by (auto simp: safeCall_def handleAnswer_def JoinManager_handleICE_def split: option.split prod.split rtc_error.split)
  with ToRtc show ?thesis by (auto simp: safeCall_def JoinManager_onWebRtc_def)
qed

section \<open>Joining a host\<close>

text \<open>Pion answers every call of the negotiation without an error.\<close>

definition pion_ok :: "pion \<Rightarrow> bool" where
  "pion_ok p \<longleftrightarrow> newPeerConnection p = None \<and> (\<forall>t sdp. setRemoteDescription p t sdp = None) \<and>
     (\<exists>sdp. createAnswer p = Inr sdp \<and> sdp \<noteq> '''') \<and> (\<exists>sdp. createOffer p = Inr sdp \<and> sdp \<noteq> '''') \<and>
     (\<forall>sdp. setLocalDescription p sdp = None) \<and> (\<forall>l b. \<exists>d. createDataChannel p l b = Inr d)"

text \<open>The joining side's half up to its offer: accept the local client, ask, hear the verdict, offer.\<close>

definition joinUpToRequest :: "string \<Rightarrow> JoinManager \<Rightarrow> JoinManager" where
  "joinUpToRequest sid j = requestJoin False False (length (jm_objs j)) (handleIncoming sid j)"

definition joinUpToOffer :: "pion \<Rightarrow> nat \<Rightarrow> JoinManager \<Rightarrow> JoinManager" where
  "joinUpToOffer p i j = initiate False p False i (awaitHost HostAccepted i j)"

lemma joinUpToRequest_effect:
  assumes "jm_current j = None"
  shows "jm_sent (joinUpToRequest sid j) = jm_sent j @ [(jm_peerPmid j, JoinRequest sid)] \<and>
     jm_current (joinUpToRequest sid j) = Some (length (jm_objs j)) \<and>
     jm_peerPmid (joinUpToRequest sid j) = jm_peerPmid j \<and>
     length (jm_objs (joinUpToRequest sid j)) = Suc (length (jm_objs j)) \<and>
     jm_objs (joinUpToRequest sid j) ! length (jm_objs j) =
       (newJoinSession sid (length (jm_conns j)))\<lparr>js_phase := AwaitingHost\<rparr>"
  using assms
  by (simp add: joinUpToRequest_def requestJoin_def handleIncoming_def Let_def setPhase_def sendPeer_def upd_js_def
      newJoinSession_def)

lemma joinUpToOffer_effect:
  assumes "pion_ok p" and "i < length (jm_objs j)" and "createOffer p = Inr off"
  shows "\<exists>rtc. jm_sent (joinUpToOffer p i j) = jm_sent j @ [(jm_peerPmid j, Offer (js_sessionID (jm_objs j ! i)) off)] \<and>
     jm_current (joinUpToOffer p i j) = jm_current j \<and> jm_peerPmid (joinUpToOffer p i j) = jm_peerPmid j \<and>
     length (jm_objs (joinUpToOffer p i j)) = length (jm_objs j) \<and>
     jm_objs (joinUpToOffer p i j) ! i = (jm_objs j ! i)\<lparr>js_rtc := Some rtc, js_phase := AwaitingOpen\<rparr> \<and>
     SRole rtc = RoleInitiator \<and> pc rtc \<and> \<not> remoteSet rtc"
proof -
  obtain d where p: "newPeerConnection p = None" "\<And>sdp. setLocalDescription p sdp = None"
    "createDataChannel p ''minecraft'' True = Inr d"
    using assms(1) unfolding pion_ok_def by blast
  obtain rtc where rtc: "NewSession p RoleInitiator (js_sessionID (jm_objs j ! i)) (jm_peerPmid j) = Inr rtc"
    "SRole rtc = RoleInitiator" "pc rtc" "\<not> remoteSet rtc"
    using p(1) by (simp add: NewSession_def)
  obtain rtc' where rtc': "CreateOffer p rtc = (Inr off, rtc')" "SRole rtc' = RoleInitiator" "pc rtc'" "\<not> remoteSet rtc'"
    using rtc p assms(3) by (simp add: CreateOffer_def attachDataChannel_def signalOpen_def Let_def)
  show ?thesis
    using rtc' rtc(1) assms(2)
    by (intro exI[of _ rtc']) (simp add: joinUpToOffer_def initiate_def startInitiator_def awaitHost_def setPhase_def sendPeer_def
        upd_js_def)
qed

lemma host_offer_effect:
  assumes "pion_ok q" and "\<not> hm_mu h" and "hm_sessions h sid = None" and "off \<noteq> ''''" and "createAnswer q = Inr ans"
    and "length (hm_rtcs h) = length (hm_objs h)"
  shows "\<exists>h' rtc. onWebRtc False q False sender (Offer sid off) h = Done h' \<and>
     hm_sent h' = hm_sent h @ [(sender, Answer sid ans)] \<and> hm_sessions h' sid = Some (length (hm_objs h)) \<and>
     hm_rtcs h' ! length (hm_objs h) = Some rtc \<and> remoteSet rtc"
proof -
  have p: "newPeerConnection q = None" "\<And>t sdp. setRemoteDescription q t sdp = None" "\<And>sdp. setLocalDescription q sdp = None"
    using assms(1) by (auto simp: pion_ok_def)
  show ?thesis
    using assms(2-6) p
    by (auto simp: onWebRtc_def handleOffer_def startSession_def registerSession_def negotiate_def NewSession_def
        HandleOffer_def newHostSession_def upd_obj_def send_def remoteDescriptionSet_def nth_append Let_def)
qed

text \<open>
  C2. The two sides understand each other: when a local client connects to an idle joining side
  and the host's target answers, the request, the verdict, the offer and the answer that the two
  managers exchange, each routed by the receiver's signaling client, bring both peer connections to
  the point where the remote description is set, in the session the joining side named.
\<close>

theorem join_protocol_completes:
  assumes "jm_current j = None" and "jm_peerPmid j = host" and "pion_ok p" and "pion_ok q"
    and "\<not> hm_mu h" and "hm_sessions h sid = None" and "length (hm_rtcs h) = length (hm_objs h)"
  shows "\<exists>h1 j1 off h2 ans j2 rtcJ rtcH.
     jm_sent (joinUpToRequest sid j) = jm_sent j @ [(host, JoinRequest sid)] \<and>
     hostReceives True False q False joiner (JoinRequest sid) h = Done h1 \<and>
     hm_sent h1 = hm_sent h @ [(joiner, JoinAccepted sid)] \<and>
     joinReceives p host (JoinAccepted sid) (joinUpToRequest sid j) = Done j1 \<and>
     join_enabled (JVerdict HostAccepted (length (jm_objs j))) j1 \<and>
     jm_sent (joinUpToOffer p (length (jm_objs j)) j1) = jm_sent j1 @ [(host, Offer sid off)] \<and>
     hostReceives True False q False joiner (Offer sid off) h1 = Done h2 \<and>
     hm_sent h2 = hm_sent h1 @ [(joiner, Answer sid ans)] \<and>
     joinReceives p host (Answer sid ans) (joinUpToOffer p (length (jm_objs j)) j1) = Done j2 \<and>
     js_rtc (jm_objs j2 ! length (jm_objs j)) = Some rtcJ \<and> remoteSet rtcJ \<and>
     hm_sessions h2 sid = Some (length (hm_objs h)) \<and> hm_rtcs h2 ! length (hm_objs h) = Some rtcH \<and> remoteSet rtcH"
proof -
  let ?i = "length (jm_objs j)" and ?j0 = "joinUpToRequest sid j"
  obtain off where off: "createOffer p = Inr off" "off \<noteq> ''''" and rd: "\<And>t sdp. setRemoteDescription p t sdp = None"
    using assms(3) unfolding pion_ok_def by blast
  obtain ans where ans: "createAnswer q = Inr ans" using assms(4) unfolding pion_ok_def by blast
  let ?h1 = "send joiner (JoinAccepted sid) h"
  note j0 = joinUpToRequest_effect[OF assms(1), of sid]
  let ?j1 = "upd_js ?i (\<lambda>s. s\<lparr>js_acceptCh := True\<rparr>) ?j0"
  have acc: "joinReceives p host (JoinAccepted sid) ?j0 = Done ?j1"
    using j0 assms(2) by (simp add: joinReceives_def JoinManager_OnFriendJoin_def currentFor_def newJoinSession_def safeCall_def)
  have en: "join_enabled (JVerdict HostAccepted ?i) ?j1" using j0 by (simp add: at_phase_def)
  have i: "?i < length (jm_objs ?j1)" using j0 by simp
  obtain rtc where o: "jm_sent (joinUpToOffer p ?i ?j1) = jm_sent ?j1 @ [(host, Offer sid off)]"
    "jm_current (joinUpToOffer p ?i ?j1) = Some ?i" "jm_peerPmid (joinUpToOffer p ?i ?j1) = host"
    "?i < length (jm_objs (joinUpToOffer p ?i ?j1))"
    "js_rtc (jm_objs (joinUpToOffer p ?i ?j1) ! ?i) = Some rtc" "js_sessionID (jm_objs (joinUpToOffer p ?i ?j1) ! ?i) = sid"
    "SRole rtc = RoleInitiator" "pc rtc"
    using joinUpToOffer_effect[OF assms(3) i off(1)] j0 assms(2) by (auto simp: newJoinSession_def)
  obtain h2 rtcH where h2: "onWebRtc False q False joiner (Offer sid off) ?h1 = Done h2"
    "hm_sent h2 = hm_sent ?h1 @ [(joiner, Answer sid ans)]" "hm_sessions h2 sid = Some (length (hm_objs h))"
    "hm_rtcs h2 ! length (hm_objs h) = Some rtcH" "remoteSet rtcH"
    using host_offer_effect[OF assms(4), of ?h1 sid off ans joiner] assms(5-7) off(2) ans by (auto simp: send_def)
  obtain rtcJ where a: "HandleAnswer p ans rtc = (None, rtcJ)" "remoteSet rtcJ"
    using o(7,8) rd by (simp add: HandleAnswer_def remoteDescriptionSet_def Let_def)
  let ?j2 = "upd_js ?i (\<lambda>s. s\<lparr>js_rtc := Some rtcJ\<rparr>) (joinUpToOffer p ?i ?j1)"
  have ans_in: "joinReceives p host (Answer sid ans) (joinUpToOffer p ?i ?j1) = Done ?j2"
    using o a by (simp add: joinReceives_def JoinManager_onWebRtc_def handleAnswer_def currentFor_def safeCall_def)
  have rtcJ: "js_rtc (jm_objs ?j2 ! ?i) = Some rtcJ" using o(4) by simp
  have req: "hostReceives True False q False joiner (JoinRequest sid) h = Done ?h1"
    and sent: "hm_sent ?h1 = hm_sent h @ [(joiner, JoinAccepted sid)]"
    and off_in: "hostReceives True False q False joiner (Offer sid off) ?h1 = Done h2"
    using h2(1) by (simp_all add: hostReceives_def OnFriendJoin_def safeCall_def send_def)
  have "jm_sent ?j0 = jm_sent j @ [(host, JoinRequest sid)]" using j0 assms(2) by simp
  then show ?thesis
    using req sent acc en o(1) off_in h2(2) ans_in rtcJ a(2) h2(3-5) by blast
qed

theorem join_protocol_completes_witness:
  "\<exists>(h2 :: HostManager) (rtcH :: Session). hm_sessions h2 ''sid'' = Some 0 \<and> hm_rtcs h2 ! 0 = Some rtcH \<and> remoteSet rtcH"
proof -
  have "pion_ok sample_pion" by (simp add: pion_ok_def sample_pion_def)
  then show ?thesis
    using join_protocol_completes[of "NewJoinManager ''host''" "''host''" sample_pion sample_pion "NewHostManager ''t'' None" "''sid''"
        "''alice''"]
    by (auto simp: NewJoinManager_def NewHostManager_def)
qed

end
